theory Spec2Isabelle
  imports Complex_Main
begin

section \<open>The data model of the product dashboard\<close>

text \<open>
  The dashboard's only logic is \<^verbatim>\<open>load_data\<close> in \<^verbatim>\<open>app.py\<close>: it reads a CSV file into a
  pandas data frame, repairs the price and count columns, derives a few columns and
  returns the frame. The model below follows that function line by line. The pandas
  and Python primitives it calls (\<^verbatim>\<open>astype\<close>, \<^verbatim>\<open>str.split\<close>, \<^verbatim>\<open>to_numeric\<close>, \<^verbatim>\<open>fillna\<close>,
  \<^verbatim>\<open>dropna\<close>, \<^verbatim>\<open>mean\<close>, \<^verbatim>\<open>clip\<close>) are library code; each is modelled by a function of the
  same name with the behaviour of pandas 2.x on the values \<^verbatim>\<open>read_csv\<close> produces. In
  particular \<^verbatim>\<open>df[name].fillna(v, inplace=True)\<close> writes through to the column of the frame,
  as it does in pandas 2.x without copy-on-write.

  A float64 value is \<open>NaN\<close>, an infinity or a finite number. Finite numbers are exact
  rationals: rounding to binary64, overflow to infinity and the sign of zero are not
  modelled.
\<close>

datatype fl = NaN | NInf | Fin rat | PInf

text \<open>
  A cell of the frame as \<^verbatim>\<open>read_csv\<close> leaves it: a float (a missing field is the float
  \<open>NaN\<close>, also in a column of strings), an integer, a string or a boolean.
\<close>

datatype cell = Float fl | Integer int | Str string | Bool bool

type_synonym series = "cell list"

text \<open>
  A frame is its columns in order, each a name and a series; all series of a frame have
  the same length. Names are taken to be distinct after stripping (with two columns of
  one name \<^verbatim>\<open>df[name]\<close> is a frame, not a series, in pandas).
\<close>

type_synonym dataframe = "(string \<times> series) list"

datatype error = KeyError string

subsection \<open>Float arithmetic with NaN and infinities\<close>

fun fl_neg :: "fl \<Rightarrow> fl" where
  "fl_neg NaN = NaN"
| "fl_neg NInf = PInf"
| "fl_neg PInf = NInf"
| "fl_neg (Fin x) = Fin (- x)"

fun fl_add :: "fl \<Rightarrow> fl \<Rightarrow> fl" where
  "fl_add NaN _ = NaN"
| "fl_add _ NaN = NaN"
| "fl_add (Fin x) (Fin y) = Fin (x + y)"
| "fl_add PInf NInf = NaN"
| "fl_add NInf PInf = NaN"
| "fl_add PInf _ = PInf"
| "fl_add NInf _ = NInf"
| "fl_add (Fin x) y = y"

definition fl_sub :: "fl \<Rightarrow> fl \<Rightarrow> fl" where
  "fl_sub x y = fl_add x (fl_neg y)"

definition inf_of_sign :: "bool \<Rightarrow> fl" where
  "inf_of_sign negative = (if negative then NInf else PInf)"

fun fl_mul :: "fl \<Rightarrow> fl \<Rightarrow> fl" where
  "fl_mul NaN _ = NaN"
| "fl_mul _ NaN = NaN"
| "fl_mul (Fin x) (Fin y) = Fin (x * y)"
| "fl_mul (Fin x) PInf = (if x = 0 then NaN else inf_of_sign (x < 0))"
| "fl_mul (Fin x) NInf = (if x = 0 then NaN else inf_of_sign (0 < x))"
| "fl_mul PInf (Fin y) = (if y = 0 then NaN else inf_of_sign (y < 0))"
| "fl_mul NInf (Fin y) = (if y = 0 then NaN else inf_of_sign (0 < y))"
| "fl_mul PInf PInf = PInf"
| "fl_mul NInf NInf = PInf"
| "fl_mul PInf NInf = NInf"
| "fl_mul NInf PInf = NInf"

fun fl_div :: "fl \<Rightarrow> fl \<Rightarrow> fl" where
  "fl_div NaN _ = NaN"
| "fl_div _ NaN = NaN"
| "fl_div (Fin x) (Fin y) =
     (if y = 0 then (if x = 0 then NaN else inf_of_sign (x < 0)) else Fin (x / y))"
| "fl_div (Fin x) _ = Fin 0"
| "fl_div PInf (Fin y) = inf_of_sign (y < 0)"
| "fl_div NInf (Fin y) = inf_of_sign (0 \<le> y)"
| "fl_div _ _ = NaN"

text \<open>\<^verbatim>\<open>Series.clip(lower, upper)\<close>: NaN stays NaN.\<close>

fun clip :: "rat \<Rightarrow> rat \<Rightarrow> fl \<Rightarrow> fl" where
  "clip lo hi NaN = NaN"
| "clip lo hi NInf = Fin (min hi lo)"
| "clip lo hi PInf = Fin hi"
| "clip lo hi (Fin x) = Fin (min hi (max lo x))"

subsection \<open>Text of a cell: \<^verbatim>\<open>astype(str)\<close>\<close>

text \<open>A string is the list of its characters, so \<^verbatim>\<open>len\<close> is \<open>length\<close> (one character per
  code point, as for the ASCII texts of the data set).\<close>

definition digit_char :: "nat \<Rightarrow> char" where
  "digit_char n = ''0123456789'' ! (n mod 10)"

fun str_nat :: "nat \<Rightarrow> string" where
  "str_nat n = (if n < 10 then [digit_char n] else str_nat (n div 10) @ [digit_char n])"

declare str_nat.simps [simp del]

definition str_int :: "int \<Rightarrow> string" where
  "str_int i = (if i < 0 then CHR ''-'' # str_nat (nat (- i)) else str_nat (nat i))"

text \<open>
  Python renders a finite float by its shortest decimal text that reads back as the same
  float. That rendering is a parameter \<open>float_repr\<close> of the model. For the numbers with
  a short decimal expansion and a magnitude between \<open>1e-4\<close> and \<open>1e16\<close> it is the
  positional text with at least one digit after the point, which is what
  \<open>positional_repr\<close> computes (up to 17 digits after the point); it serves as the
  renderer of the concrete examples.
\<close>

fun frac_digits :: "nat \<Rightarrow> rat \<Rightarrow> string" where
  "frac_digits 0 r = []"
| "frac_digits (Suc k) r =
     (if r = 0 then []
      else digit_char (nat \<lfloor>r * 10\<rfloor>) # frac_digits k (r * 10 - of_int \<lfloor>r * 10\<rfloor>))"

definition positional_repr :: "rat \<Rightarrow> string" where
  "positional_repr q =
     (let a = \<bar>q\<bar>; fr = frac_digits 17 (a - of_int \<lfloor>a\<rfloor>)
      in (if q < 0 then ''-'' else []) @ str_nat (nat \<lfloor>a\<rfloor>) @ ''.'' @
         (if fr = [] then ''0'' else fr))"

fun astype_str :: "(rat \<Rightarrow> string) \<Rightarrow> cell \<Rightarrow> string" where
  "astype_str float_repr (Str s) = s"
| "astype_str float_repr (Integer i) = str_int i"
| "astype_str float_repr (Bool b) = (if b then ''True'' else ''False'')"
| "astype_str float_repr (Float NaN) = ''nan''"
| "astype_str float_repr (Float PInf) = ''inf''"
| "astype_str float_repr (Float NInf) = ''-inf''"
| "astype_str float_repr (Float (Fin x)) = float_repr x"

text \<open>\<^verbatim>\<open>s.split(sep)\<close> for a separator of one character, and \<^verbatim>\<open>.str[0]\<close> on the pieces
  (NaN where there is no piece 0).\<close>

fun str_split :: "char \<Rightarrow> string \<Rightarrow> string list" where
  "str_split sep [] = [[]]"
| "str_split sep (c # cs) =
     (if c = sep then [] # str_split sep cs
      else (case str_split sep cs of [] \<Rightarrow> [[c]] | p # ps \<Rightarrow> (c # p) # ps))"

fun str_get0 :: "string list \<Rightarrow> cell" where
  "str_get0 [] = Float NaN"
| "str_get0 (p # ps) = Str p"

subsection \<open>Numbers from text: \<^verbatim>\<open>pd.to_numeric(..., errors='coerce')\<close>\<close>

text \<open>
  pandas reads a string with its own \<^verbatim>\<open>strtod\<close>: blanks, a sign, digits with an optional
  point, an optional exponent, blanks, and nothing else. Where that fails, the words
  \<^verbatim>\<open>inf\<close> and \<^verbatim>\<open>infinity\<close>, with or without a sign and in any letter case, are the
  infinities. Anything else is NaN under \<^verbatim>\<open>errors='coerce'\<close>.
\<close>

definition isspace_ascii :: "char \<Rightarrow> bool" where
  "isspace_ascii c = (c \<in> set [CHR '' '', CHR 0x09, CHR 0x0A, CHR 0x0B, CHR 0x0C, CHR 0x0D])"

definition is_digit :: "char \<Rightarrow> bool" where
  "is_digit c = (c \<in> set ''0123456789'')"

definition digit_val :: "char \<Rightarrow> nat" where
  "digit_val c = of_char c - 48"

definition digits_val :: "string \<Rightarrow> nat" where
  "digits_val ds = foldl (\<lambda>a c. 10 * a + digit_val c) 0 ds"

definition is_sign :: "string \<Rightarrow> bool" where
  "is_sign p = (case p of [] \<Rightarrow> False | c # _ \<Rightarrow> c = CHR ''-'' \<or> c = CHR ''+'')"

definition is_minus :: "string \<Rightarrow> bool" where
  "is_minus p = (case p of [] \<Rightarrow> False | c # _ \<Rightarrow> c = CHR ''-'')"

definition starts_with :: "char list \<Rightarrow> string \<Rightarrow> bool" where
  "starts_with cs p = (case p of [] \<Rightarrow> False | c # _ \<Rightarrow> c \<in> set cs)"

text \<open>
  The scan of the number without its sign: digits, point, digits, exponent, blanks, end
  of text. It gives the digits before and after the point, the sign of the exponent and
  its digits, or nothing when the text has no digit or does not end there.
\<close>

definition scan_unsigned :: "string \<Rightarrow> (string \<times> string \<times> bool \<times> string) option" where
  "scan_unsigned p1 =
     (let int_part = takeWhile is_digit p1;
          p2 = dropWhile is_digit p1;
          has_point = starts_with ''.'' p2;
          frac_part = (if has_point then takeWhile is_digit (tl p2) else []);
          p3 = (if has_point then dropWhile is_digit (tl p2) else p2);
          has_exp = starts_with ''eE'' p3;
          exp_negative = (has_exp \<and> is_minus (tl p3));
          p4 = (if has_exp \<and> is_sign (tl p3) then tl (tl p3) else tl p3);
          exp_digits = (if has_exp then takeWhile is_digit p4 else []);
          p5 = (if has_exp \<and> exp_digits \<noteq> [] then dropWhile is_digit p4 else p3);
          rest = dropWhile isspace_ascii p5
      in if int_part = [] \<and> frac_part = [] then None
         else if rest \<noteq> [] then None
         else Some (int_part, frac_part, exp_negative, exp_digits))"

text \<open>
  The value of the scanned number. The decimal exponent is the written one less the
  count of digits after the point; pandas gives up (a range error) when it is above 308,
  the last entry of its table of powers of ten, and when the product is infinite, which
  is taken here as the exact value reaching the point where binary64 rounds to infinity.
  Below that the value is exact: pandas keeps the first 17 digits only and rounds to
  binary64, which the model does not follow.
\<close>

definition float64_overflow :: rat where
  "float64_overflow = 2 ^ 1024 - 2 ^ 970"

definition magnitude :: "string \<Rightarrow> string \<Rightarrow> bool \<Rightarrow> string \<Rightarrow> rat option" where
  "magnitude int_part frac_part exp_negative exp_digits =
     (let number = of_nat (digits_val (int_part @ frac_part));
          n = int (digits_val exp_digits);
          exponent = (if exp_negative then - n else n) - int (length frac_part);
          v = (if 0 \<le> exponent then number * 10 ^ nat exponent
               else number / 10 ^ nat (- exponent))
      in if 308 < exponent then None
         else if float64_overflow \<le> v then None
         else Some v)"

definition to_double :: "string \<Rightarrow> rat option" where
  "to_double s =
     (let p0 = dropWhile isspace_ascii s;
          negative = is_minus p0;
          p1 = (if is_sign p0 then tl p0 else p0)
      in case scan_unsigned p1 of
           None \<Rightarrow> None
         | Some (int_part, frac_part, exp_negative, exp_digits) \<Rightarrow>
             (case magnitude int_part frac_part exp_negative exp_digits of
                None \<Rightarrow> None
              | Some m \<Rightarrow> Some (if negative then - m else m)))"

definition lower_ascii :: "char \<Rightarrow> char" where
  "lower_ascii c =
     (case map_of (zip ''ABCDEFGHIJKLMNOPQRSTUVWXYZ'' ''abcdefghijklmnopqrstuvwxyz'') c of
        None \<Rightarrow> c | Some l \<Rightarrow> l)"

definition to_numeric_str :: "string \<Rightarrow> fl" where
  "to_numeric_str s =
     (case to_double s of
        Some v \<Rightarrow> Fin v
      | None \<Rightarrow>
          (let w = map lower_ascii s
           in if w \<in> set [''inf'', ''+inf'', ''infinity'', ''+infinity''] then PInf
              else if w \<in> set [''-inf'', ''-infinity''] then NInf
              else NaN))"

fun to_numeric :: "cell \<Rightarrow> fl" where
  "to_numeric (Float x) = x"
| "to_numeric (Integer i) = Fin (of_int i)"
| "to_numeric (Bool b) = Fin (if b then 1 else 0)"
| "to_numeric (Str s) = to_numeric_str s"

subsection \<open>Series and frame primitives\<close>

definition isna :: "cell \<Rightarrow> bool" where
  "isna c = (c = Float NaN)"

definition notna :: "cell \<Rightarrow> bool" where
  "notna c = (\<not> isna c)"

text \<open>\<^verbatim>\<open>s.fillna(value)\<close> with a scalar, and with a series aligned row by row.\<close>

definition fillna :: "cell \<Rightarrow> series \<Rightarrow> series" where
  "fillna v xs = map (\<lambda>x. if isna x then v else x) xs"

definition fillna_series :: "series \<Rightarrow> series \<Rightarrow> series" where
  "fillna_series ys xs = map (\<lambda>(x, y). if isna x then y else x) (zip xs ys)"

definition columns :: "dataframe \<Rightarrow> string list" where
  "columns df = map fst df"

definition nrows :: "dataframe \<Rightarrow> nat" where
  "nrows df = (case df of [] \<Rightarrow> 0 | (_, c) # _ \<Rightarrow> length c)"

text \<open>\<^verbatim>\<open>df[name]\<close> raises \<^verbatim>\<open>KeyError\<close> for a column the frame does not have.\<close>

definition getitem :: "dataframe \<Rightarrow> string \<Rightarrow> error + series" where
  "getitem df name = (case map_of df name of None \<Rightarrow> Inl (KeyError name) | Some c \<Rightarrow> Inr c)"

text \<open>\<^verbatim>\<open>df[name] = series\<close> replaces the column in place, or appends a new one.\<close>

fun setitem :: "dataframe \<Rightarrow> string \<Rightarrow> series \<Rightarrow> dataframe" where
  "setitem [] name c = [(name, c)]"
| "setitem ((n, old) # df) name c =
     (if n = name then (name, c) # df else (n, old) # setitem df name c)"

definition bind_res :: "error + 'a \<Rightarrow> ('a \<Rightarrow> error + 'b) \<Rightarrow> error + 'b" where
  "bind_res r f = (case r of Inl e \<Rightarrow> Inl e | Inr x \<Rightarrow> f x)"

text \<open>The rows of a series a boolean mask keeps.\<close>

definition keep_rows :: "bool list \<Rightarrow> 'a list \<Rightarrow> 'a list" where
  "keep_rows keep xs = map snd (filter fst (zip keep xs))"

text \<open>\<^verbatim>\<open>df.dropna(subset=[name])\<close>: the rows whose cell in that column is not NaN.\<close>

definition dropna :: "dataframe \<Rightarrow> string \<Rightarrow> error + dataframe" where
  "dropna df name =
     bind_res (getitem df name)
       (\<lambda>c. Inr (map (\<lambda>(n, col). (n, keep_rows (map notna c) col)) df))"

text \<open>Python's \<^verbatim>\<open>str.strip()\<close>, for the white space of ASCII.\<close>

definition py_isspace :: "char \<Rightarrow> bool" where
  "py_isspace c =
     (c \<in> set [CHR '' '', CHR 0x09, CHR 0x0A, CHR 0x0B, CHR 0x0C, CHR 0x0D,
                CHR 0x1C, CHR 0x1D, CHR 0x1E, CHR 0x1F])"

definition strip :: "string \<Rightarrow> string" where
  "strip s = rev (dropWhile py_isspace (rev (dropWhile py_isspace s)))"

text \<open>\<^verbatim>\<open>astype(bool)\<close> is Python's truth value of each cell.\<close>

fun astype_bool :: "cell \<Rightarrow> bool" where
  "astype_bool (Bool b) = b"
| "astype_bool (Integer i) = (i \<noteq> 0)"
| "astype_bool (Float (Fin x)) = (x \<noteq> 0)"
| "astype_bool (Float _) = True"
| "astype_bool (Str s) = (s \<noteq> [])"

text \<open>\<^verbatim>\<open>st.error(message)\<close> shows a message in the page: the page is a list of messages.\<close>

definition st_error :: "string list \<Rightarrow> string \<Rightarrow> string list" where
  "st_error page message = page @ [message]"

subsection \<open>Series arithmetic\<close>

text \<open>
  Arithmetic on two series works row by row on float64 values. \<open>load_data\<close> applies it
  only to columns that \<open>to_numeric\<close> has made, so every cell is a float there; on a column
  of strings pandas would raise, which this model does not reach (a string counts as
  NaN).
\<close>

fun float_value :: "cell \<Rightarrow> fl" where
  "float_value (Float x) = x"
| "float_value (Integer i) = Fin (of_int i)"
| "float_value (Bool b) = Fin (if b then 1 else 0)"
| "float_value (Str s) = NaN"

definition series_binop :: "(fl \<Rightarrow> fl \<Rightarrow> fl) \<Rightarrow> series \<Rightarrow> series \<Rightarrow> series" where
  "series_binop f xs ys = map (\<lambda>(x, y). Float (f (float_value x) (float_value y))) (zip xs ys)"

definition series_scale :: "series \<Rightarrow> rat \<Rightarrow> series" where
  "series_scale xs k = map (\<lambda>x. Float (fl_mul (float_value x) (Fin k))) xs"

definition clip_series :: "rat \<Rightarrow> rat \<Rightarrow> series \<Rightarrow> series" where
  "clip_series lo hi xs = map (\<lambda>x. Float (clip lo hi (float_value x))) xs"

text \<open>\<^verbatim>\<open>s.mean()\<close> skips NaN; the mean of no value is NaN.\<close>

definition mean :: "series \<Rightarrow> fl" where
  "mean xs =
     (let vs = filter (\<lambda>v. v \<noteq> NaN) (map float_value xs)
      in if vs = [] then NaN
         else fl_div (foldl fl_add (Fin 0) vs) (Fin (of_nat (length vs))))"

section \<open>The preparation pipeline: \<open>load_data\<close>\<close>

text \<open>
  The steps of \<^verbatim>\<open>load_data\<close> either fail with a Python exception or give the next frame,
  and some write to the page. \<open>then_do\<close> runs a step and passes its frame on; an
  exception ends the run, as it leaves the function.
\<close>

type_synonym 'a run = "string list \<Rightarrow> (error + 'a) \<times> string list"

definition then_do :: "'a run \<Rightarrow> ('a \<Rightarrow> 'b run) \<Rightarrow> 'b run" where
  "then_do m f page =
     (case m page of (Inl e, page') \<Rightarrow> (Inl e, page') | (Inr x, page') \<Rightarrow> f x page')"

definition quiet :: "error + 'a \<Rightarrow> 'a run" where
  "quiet r page = (r, page)"

text \<open>Line 17: \<^verbatim>\<open>df.columns = df.columns.str.strip()\<close>.\<close>

definition strip_columns :: "dataframe \<Rightarrow> dataframe" where
  "strip_columns df = map (\<lambda>(n, c). (strip n, c)) df"

text \<open>Lines 22 and 23: \<^verbatim>\<open>.astype(str).str.split('-').str[0]\<close>.\<close>

definition price_text :: "(rat \<Rightarrow> string) \<Rightarrow> series \<Rightarrow> series" where
  "price_text float_repr xs =
     map (\<lambda>c. str_get0 (str_split CHR ''-'' (astype_str float_repr c))) xs"

definition to_numeric_series :: "series \<Rightarrow> series" where
  "to_numeric_series xs = map (\<lambda>c. Float (to_numeric c)) xs"

text \<open>Lines 22 to 27: the price columns as text before the first dash, then as numbers.\<close>

definition parse_prices :: "(rat \<Rightarrow> string) \<Rightarrow> dataframe \<Rightarrow> error + dataframe" where
  "parse_prices float_repr df0 =
     bind_res (getitem df0 ''discounted_price'') (\<lambda>dp.
     let df1 = setitem df0 ''discounted_price'' (price_text float_repr dp) in
     bind_res (getitem df1 ''original_price'') (\<lambda>op.
     let df2 = setitem df1 ''original_price'' (price_text float_repr op) in
     bind_res (getitem df2 ''discounted_price'') (\<lambda>dp.
     let df3 = setitem df2 ''discounted_price'' (to_numeric_series dp) in
     bind_res (getitem df3 ''original_price'') (\<lambda>op.
     Inr (setitem df3 ''original_price'' (to_numeric_series op))))))"

text \<open>Lines 30 to 32: the original price filled from the discounted price, and the
  rows without a discounted price dropped.\<close>

definition backfill_and_drop :: "dataframe \<Rightarrow> error + dataframe" where
  "backfill_and_drop df0 =
     bind_res (getitem df0 ''original_price'') (\<lambda>op.
     bind_res (getitem df0 ''discounted_price'') (\<lambda>dp.
     let df1 = setitem df0 ''original_price'' (fillna_series dp op) in
     dropna df1 ''discounted_price''))"

text \<open>Lines 35 to 44: the other numeric columns and their fill values.\<close>

definition clean_numeric :: "dataframe \<Rightarrow> error + dataframe" where
  "clean_numeric df0 =
     bind_res (getitem df0 ''product_rating'') (\<lambda>pr.
     let df1 = setitem df0 ''product_rating'' (to_numeric_series pr) in
     bind_res (getitem df1 ''total_reviews'') (\<lambda>tr.
     let df2 = setitem df1 ''total_reviews'' (to_numeric_series tr) in
     bind_res (getitem df2 ''purchased_last_month'') (\<lambda>pl.
     let df3 = setitem df2 ''purchased_last_month'' (to_numeric_series pl) in
     bind_res (getitem df3 ''purchased_last_month'') (\<lambda>pl.
     let df4 = setitem df3 ''purchased_last_month'' (fillna (Float (Fin 0)) pl) in
     bind_res (getitem df4 ''total_reviews'') (\<lambda>tr.
     let df5 = setitem df4 ''total_reviews'' (fillna (Float (Fin 0)) tr) in
     bind_res (getitem df5 ''product_rating'') (\<lambda>pr.
     bind_res (getitem df5 ''product_rating'') (\<lambda>pr'.
     Inr (setitem df5 ''product_rating'' (fillna (Float (mean pr')) pr)))))))))"

text \<open>Lines 50 to 57: the category column.\<close>

definition category_column :: "dataframe \<Rightarrow> dataframe run" where
  "category_column df page =
     (let category_col = ''product_category'' in
      if category_col \<notin> set (columns df)
      then (Inr (setitem df category_col (replicate (nrows df) (Str ''Unknown''))),
            st_error page
              (''Column '' @ [CHR 0x27] @ category_col @ [CHR 0x27] @
               '' not found. Please update Line 61. Using 'Unknown' for now.''))
      else (bind_res (getitem df category_col)
              (\<lambda>c. Inr (setitem df category_col (fillna (Str ''Unknown'') c))), page))"

text \<open>Lines 60 to 64: the estimated revenue and the discount percentage.\<close>

definition derive_metrics :: "dataframe \<Rightarrow> error + dataframe" where
  "derive_metrics df0 =
     bind_res (getitem df0 ''discounted_price'') (\<lambda>dp.
     bind_res (getitem df0 ''purchased_last_month'') (\<lambda>pl.
     let df1 = setitem df0 ''Est. Revenue (Last Month)'' (series_binop fl_mul dp pl) in
     bind_res (getitem df1 ''original_price'') (\<lambda>op.
     bind_res (getitem df1 ''discounted_price'') (\<lambda>dp.
     bind_res (getitem df1 ''original_price'') (\<lambda>op'.
     let df2 = setitem df1 ''Discount %''
                 (series_scale (series_binop fl_div (series_binop fl_sub op dp) op') 100) in
     bind_res (getitem df2 ''Discount %'') (\<lambda>d.
     Inr (setitem df2 ''Discount %'' (clip_series 0 100 (fillna (Float (Fin 0)) d)))))))))"

text \<open>Lines 72 to 100: the flag columns, checked against the column names of line 69.\<close>

definition best_seller_column :: "string list \<Rightarrow> dataframe \<Rightarrow> dataframe run" where
  "best_seller_column actual_columns df page =
     (if ''is_best_seller'' \<notin> set actual_columns
      then (Inr (setitem df ''is_best_seller'' (replicate (nrows df) (Bool False))),
            st_error page ''Error: Column 'is_best_seller' not found.'')
      else (bind_res (getitem df ''is_best_seller'')
              (\<lambda>c. Inr (setitem df ''is_best_seller'' (map (\<lambda>x. Bool (astype_bool x)) c))),
            page))"

definition coupon_column :: "(rat \<Rightarrow> string) \<Rightarrow> string list \<Rightarrow> dataframe \<Rightarrow> dataframe run" where
  "coupon_column float_repr actual_columns df page =
     (if ''has_coupon'' \<notin> set actual_columns
      then (Inr (setitem df ''has_coupon_bool'' (replicate (nrows df) (Bool False))),
            st_error page ''Error: Column 'has_coupon' not found.'')
      else (bind_res (getitem df ''has_coupon'')
              (\<lambda>c. Inr (setitem df ''has_coupon_bool''
                     (map (\<lambda>x. Bool (3 < length (astype_str float_repr x))) c))),
            page))"

definition sustainable_column :: "string list \<Rightarrow> dataframe \<Rightarrow> dataframe run" where
  "sustainable_column actual_columns df page =
     (if ''sustainability_tags'' \<notin> set actual_columns
      then (Inr (setitem df ''is_sustainable'' (replicate (nrows df) (Bool False))),
            st_error page ''Error: Column 'sustainability_tags' not found.'')
      else (bind_res (getitem df ''sustainability_tags'')
              (\<lambda>c. Inr (setitem df ''is_sustainable'' (map (\<lambda>x. Bool (notna x)) c))),
            page))"

definition sponsored_column :: "string list \<Rightarrow> dataframe \<Rightarrow> dataframe run" where
  "sponsored_column actual_columns df page =
     (if ''is_sponsored'' \<notin> set actual_columns
      then (Inr (setitem df ''is_sponsored'' (replicate (nrows df) (Str ''Unknown''))),
            st_error page ''Error: Column 'is_sponsored' not found.'')
      else (bind_res (getitem df ''is_sponsored'')
              (\<lambda>c. Inr (setitem df ''is_sponsored'' (fillna (Bool False) c))),
            page))"

text \<open>
  \<open>load_data\<close>, from the frame \<^verbatim>\<open>read_csv\<close> returns (line 13) to the frame returned
  (line 104), with the page before and after.
\<close>

definition load_data :: "(rat \<Rightarrow> string) \<Rightarrow> dataframe \<Rightarrow> dataframe run" where
  "load_data float_repr csv =
     then_do (quiet (parse_prices float_repr (strip_columns csv))) (\<lambda>df.
     then_do (quiet (backfill_and_drop df)) (\<lambda>df.
     then_do (quiet (clean_numeric df)) (\<lambda>df.
     then_do (category_column df) (\<lambda>df.
     then_do (quiet (derive_metrics df)) (\<lambda>df.
     let actual_columns = columns df in
     then_do (best_seller_column actual_columns df) (\<lambda>df.
     then_do (coupon_column float_repr actual_columns df) (\<lambda>df.
     then_do (sustainable_column actual_columns df) (\<lambda>df.
     sponsored_column actual_columns df))))))))"

section \<open>Notions used to state the properties\<close>

text \<open>A frame of \<open>n\<close> rows: it has a column, and every column has \<open>n\<close> cells.\<close>

definition frame_rows :: "nat \<Rightarrow> dataframe \<Rightarrow> bool" where
  "frame_rows n df = (df \<noteq> [] \<and> list_all (\<lambda>kc. length (snd kc) = n) df)"

text \<open>The number that lines 22 to 27 read from one raw price cell.\<close>

definition price_value :: "(rat \<Rightarrow> string) \<Rightarrow> cell \<Rightarrow> fl" where
  "price_value float_repr c =
     to_numeric (str_get0 (str_split CHR ''-'' (astype_str float_repr c)))"

text \<open>A float that is a finite number not below zero, or plus infinity.\<close>

fun zero_up_to_infinity :: "fl \<Rightarrow> bool" where
  "zero_up_to_infinity NaN = False"
| "zero_up_to_infinity NInf = False"
| "zero_up_to_infinity PInf = True"
| "zero_up_to_infinity (Fin x) = (0 \<le> x)"

text \<open>
  A decimal numeral, as a shape of the text and apart from any reader: blanks, an
  optional sign, digits with an optional point and at least one digit before or after
  it, an optional exponent (the letter e, an optional sign, at least one digit), blanks.
\<close>

definition all_digits :: "string \<Rightarrow> bool" where
  "all_digits ds = list_all is_digit ds"

definition all_blanks :: "string \<Rightarrow> bool" where
  "all_blanks ws = list_all isspace_ascii ws"

definition is_fraction :: "string \<Rightarrow> bool" where
  "is_fraction fr = (fr = [] \<or> (\<exists>fp. fr = CHR ''.'' # fp \<and> all_digits fp))"

definition is_exponent :: "string \<Rightarrow> bool" where
  "is_exponent ex =
     (ex = [] \<or>
      (\<exists>e sg ed. ex = e # sg @ ed \<and> e \<in> set ''eE'' \<and> sg \<in> set [[], ''-'', ''+''] \<and>
         all_digits ed \<and> ed \<noteq> []))"

definition is_unsigned_numeral :: "string \<Rightarrow> bool" where
  "is_unsigned_numeral p =
     (\<exists>ip fr ex ws. p = ip @ fr @ ex @ ws \<and> all_digits ip \<and> is_fraction fr \<and>
        (ip \<noteq> [] \<or> 1 < length fr) \<and> is_exponent ex \<and> all_blanks ws)"

definition is_numeral :: "string \<Rightarrow> bool" where
  "is_numeral t =
     (\<exists>ws sg p. t = ws @ sg @ p \<and> all_blanks ws \<and> sg \<in> set [[], ''-'', ''+''] \<and>
        is_unsigned_numeral p)"

text \<open>
  The discount percentage in the words of the specification: the quotient
  \<open>(original - discounted) / original * 100\<close> clamped to the interval from 0 to 100, and 0
  where the quotient is undefined (the original price is zero, or a price is not a
  finite number).
\<close>

definition discount_percent_spec :: "fl \<Rightarrow> fl \<Rightarrow> rat" where
  "discount_percent_spec original discounted =
     (case (original, discounted) of
        (Fin p, Fin d) \<Rightarrow> if p = 0 then 0 else max 0 (min 100 ((p - d) / p * 100))
      | _ \<Rightarrow> 0)"

text \<open>What lines 63 and 64 compute for one row, from its original and discounted price.\<close>

definition discount_cell :: "fl \<Rightarrow> fl \<Rightarrow> fl" where
  "discount_cell original discounted =
     (let q = fl_mul (fl_div (fl_sub original discounted) original) (Fin 100)
      in clip 0 100 (if q = NaN then Fin 0 else q))"

text \<open>The columns that \<open>load_data\<close> assigns; every other column only loses the dropped rows.\<close>

definition written_columns :: "string list" where
  "written_columns =
     [''discounted_price'', ''original_price'', ''product_rating'', ''total_reviews'',
      ''purchased_last_month'', ''product_category'', ''Est. Revenue (Last Month)'',
      ''Discount %'', ''is_best_seller'', ''has_coupon_bool'', ''is_sustainable'',
      ''is_sponsored'']"

text \<open>A column of the frame a run returned (none when the run raised).\<close>

definition column_of :: "(error + dataframe) \<times> string list \<Rightarrow> string \<Rightarrow> series option" where
  "column_of res name = (case fst res of Inl e \<Rightarrow> None | Inr df \<Rightarrow> map_of df name)"

subsection \<open>Example inputs\<close>

text \<open>
  A file of four products. The header has stray blanks; the first price is a range, the
  second is the text \<^verbatim>\<open>Free\<close>, the third product has no original price. There is no
  \<^verbatim>\<open>sustainability_tags\<close> column.
\<close>

definition shop_csv :: dataframe where
  "shop_csv =
     [('' discounted_price'', [Str ''89.68-99.99'', Str ''Free'', Str ''50.00'', Str ''10'']),
      (''original_price '', [Str ''120'', Str ''5'', Float NaN, Str ''0'']),
      (''product_rating'', [Float (Fin 4), Float (Fin 3), Float NaN, Float (Fin 5)]),
      (''total_reviews'', [Integer 40, Integer 7, Integer 0, Integer 5]),
      (''purchased_last_month'', [Float (Fin 4), Float NaN, Float NaN, Float (Fin 5)]),
      (''product_category'', [Str ''Phones'', Str ''Phones'', Float NaN, Str ''Laptops'']),
      (''is_best_seller'', [Str ''False'', Str ''yes'', Float NaN, Str ''no'']),
      (''has_coupon'', [Str ''no'', Float NaN, Str ''Save 5%'', Float NaN]),
      (''is_sponsored'', [Str ''Sponsored'', Float NaN, Float NaN, Str ''Organic'']),
      (''product_title'', [Str ''A'', Str ''B'', Str ''C'', Str ''D''])]"

text \<open>A file whose first price is the text \<^verbatim>\<open>Infinity\<close>.\<close>

definition infinity_csv :: dataframe where
  "infinity_csv =
     [(''discounted_price'', [Str ''Infinity'', Str ''10'']),
      (''original_price'', [Str ''20'', Str ''20'']),
      (''product_rating'', [Float (Fin 4), Float (Fin 5)]),
      (''total_reviews'', [Integer 3, Integer 1]),
      (''purchased_last_month'', [Integer 2, Integer 1])]"

text \<open>A file without the \<^verbatim>\<open>original_price\<close> column.\<close>

definition no_original_csv :: dataframe where
  "no_original_csv =
     [(''discounted_price'', [Str ''10'']),
      (''product_rating'', [Float (Fin 4)]),
      (''total_reviews'', [Integer 3]),
      (''purchased_last_month'', [Integer 2])]"

text \<open>A file in which no product has a rating.\<close>

definition unrated_csv :: dataframe where
  "unrated_csv =
     [(''discounted_price'', [Float (Fin 10), Float (Fin 20)]),
      (''original_price'', [Float (Fin 12), Float (Fin 20)]),
      (''product_rating'', [Float NaN, Float NaN]),
      (''total_reviews'', [Integer 3, Integer 0]),
      (''purchased_last_month'', [Integer 2, Integer 1])]"

section \<open>Frames, columns and rows\<close>

lemma bind_res_Inr: "bind_res (Inr x) f = f x"
  by (simp add: bind_res_def)

lemma bind_res_Inl: "bind_res (Inl e) f = Inl e"
  by (simp add: bind_res_def)

lemma map_of_setitem: "map_of (setitem df k c) = (map_of df)(k \<mapsto> c)"
  by (induction df k c rule: setitem.induct) auto

lemma getitem_Some: "map_of df k = Some c \<Longrightarrow> getitem df k = Inr c"
  by (simp add: getitem_def)

lemma getitem_None: "map_of df k = None \<Longrightarrow> getitem df k = Inl (KeyError k)"
  by (simp add: getitem_def)

lemma in_columns_iff: "k \<in> set (columns df) \<longleftrightarrow> map_of df k \<noteq> None"
  by (simp add: columns_def map_of_eq_None_iff)

lemma map_of_keep: 
  "map_of (map (\<lambda>(n, col). (n, f col)) df) k = map_option f (map_of df k)"
  by (induction df) auto

lemma then_do_quiet_Inr: "then_do (quiet (Inr x)) f page = f x page"
  by (simp add: then_do_def quiet_def)

lemma then_do_quiet_Inl: "then_do (quiet (Inl e)) f page = (Inl e, page)"
  by (simp add: then_do_def quiet_def)

lemma then_do_Inr: "m page = (Inr x, page') \<Longrightarrow> then_do m f page = f x page'"
  by (simp add: then_do_def)

subsection \<open>Row counts\<close>

lemma frame_rows_setitem:
  "frame_rows n df \<Longrightarrow> length c = n \<Longrightarrow> frame_rows n (setitem df k c)"
proof -
  have "list_all (\<lambda>kc. length (snd kc) = n) df \<Longrightarrow> length c = n \<Longrightarrow>
        list_all (\<lambda>kc. length (snd kc) = n) (setitem df k c) \<and> setitem df k c \<noteq> []"
    by (induction df k c rule: setitem.induct) auto
  then show "frame_rows n df \<Longrightarrow> length c = n \<Longrightarrow> frame_rows n (setitem df k c)"
    by (simp add: frame_rows_def)
qed

lemma frame_rows_col: "frame_rows n df \<Longrightarrow> map_of df k = Some c \<Longrightarrow> length c = n"
  by (auto simp add: frame_rows_def list_all_iff dest!: map_of_SomeD)

lemma frame_rows_nrows: "frame_rows n df \<Longrightarrow> nrows df = n"
  by (cases df) (auto simp add: frame_rows_def nrows_def)

lemma frame_rows_strip: "frame_rows n df \<Longrightarrow> frame_rows n (strip_columns df)"
  by (auto simp add: frame_rows_def strip_columns_def list_all_iff)

lemma length_keep_rows:
  "length keep = length xs \<Longrightarrow> length (keep_rows keep xs) = length (filter id keep)"
proof (induction keep arbitrary: xs)
  case Nil
  then show ?case by (simp add: keep_rows_def)
next
  case (Cons b bs)
  then obtain y ys where "xs = y # ys" by (cases xs) auto
  with Cons show ?case by (simp add: keep_rows_def)
qed

lemma frame_rows_keep:
  assumes "frame_rows n df" and "length xs = n"
  shows "frame_rows (length (filter p xs)) (map (\<lambda>(k, col). (k, keep_rows (map p xs) col)) df)"
proof -
  have "length (filter id (map p xs)) = length (filter p xs)"
    by (induction xs) auto
  with assms show ?thesis
    by (auto simp add: frame_rows_def list_all_iff length_keep_rows)
qed

lemma keep_rows_map: "keep_rows keep (map f xs) = map f (keep_rows keep xs)"
  by (induction keep xs rule: list_induct2') (simp_all add: keep_rows_def)

lemma keep_rows_self:
  "keep_rows (map p xs) xs = filter p xs"
  by (induction xs) (auto simp add: keep_rows_def)

subsection \<open>The steps of the pipeline\<close>

lemma price_series: "to_numeric_series (price_text r xs) = map (\<lambda>c. Float (price_value r c)) xs"
  by (simp add: to_numeric_series_def price_text_def price_value_def)

lemma parse_prices_Inr:
  assumes "map_of df ''discounted_price'' = Some dp" and "map_of df ''original_price'' = Some op"
  shows "\<exists>df'. parse_prices r df = Inr df' \<and>
     map_of df' = (map_of df)(''discounted_price'' \<mapsto> map (\<lambda>c. Float (price_value r c)) dp,
                              ''original_price'' \<mapsto> map (\<lambda>c. Float (price_value r c)) op) \<and>
     (\<forall>n. frame_rows n df \<longrightarrow> frame_rows n df')"
  using assms
  apply (simp add: parse_prices_def Let_def getitem_def map_of_setitem bind_res_def fun_upd_twist
      flip: price_series)
  apply (auto intro!: frame_rows_setitem simp add: to_numeric_series_def price_text_def dest: frame_rows_col)
  done


lemma length_fillna: "length (fillna v xs) = length xs"
  by (simp add: fillna_def)

lemma length_fillna_series: "length ys = length xs \<Longrightarrow> length (fillna_series ys xs) = length xs"
  by (simp add: fillna_series_def)

lemma length_to_numeric_series: "length (to_numeric_series xs) = length xs"
  by (simp add: to_numeric_series_def)

lemma length_series_binop: "length ys = length xs \<Longrightarrow> length (series_binop f xs ys) = length xs"
  by (simp add: series_binop_def)

lemma length_series_scale: "length (series_scale xs k) = length xs"
  by (simp add: series_scale_def)

lemma length_clip_series: "length (clip_series lo hi xs) = length xs"
  by (simp add: clip_series_def)

lemmas series_lengths = length_fillna length_fillna_series length_to_numeric_series
  length_series_binop length_series_scale length_clip_series

lemma backfill_and_drop_Inr:
  assumes "map_of df ''discounted_price'' = Some dp" and "map_of df ''original_price'' = Some op"
  shows "\<exists>df'. backfill_and_drop df = Inr df' \<and>
     (\<forall>k. map_of df' k = map_option (keep_rows (map notna dp))
              (((map_of df)(''original_price'' \<mapsto> fillna_series dp op)) k)) \<and>
     (\<forall>n. frame_rows n df \<longrightarrow> frame_rows (length (filter notna dp)) df')"
proof -
  let ?df1 = "setitem df ''original_price'' (fillna_series dp op)"
  let ?df' = "map (\<lambda>(n, col). (n, keep_rows (map notna dp) col)) ?df1"
  have dp1: "map_of ?df1 ''discounted_price'' = Some dp"
    using assms by (simp add: map_of_setitem)
  have run: "backfill_and_drop df = Inr ?df'"
    using assms dp1 by (simp add: backfill_and_drop_def getitem_Some bind_res_Inr dropna_def)
  have cols: "\<forall>k. map_of ?df' k = map_option (keep_rows (map notna dp))
              (((map_of df)(''original_price'' \<mapsto> fillna_series dp op)) k)"
    by (simp only: map_of_keep map_of_setitem) simp
  have rows: "frame_rows (length (filter notna dp)) ?df'" if "frame_rows n df" for n
  proof -
    have "length dp = n" "length op = n"
      using that assms by (auto dest: frame_rows_col)
    then have "frame_rows n ?df1"
      using that by (simp add: frame_rows_setitem series_lengths)
    then show ?thesis
      using \<open>length dp = n\<close> by (rule frame_rows_keep)
  qed
  from run cols rows show ?thesis by blast
qed

lemma clean_numeric_Inr:
  assumes "map_of df ''product_rating'' = Some pr" and "map_of df ''total_reviews'' = Some tr"
    and "map_of df ''purchased_last_month'' = Some pl"
  shows "\<exists>df'. clean_numeric df = Inr df' \<and>
     map_of df' = (map_of df)
       (''product_rating'' \<mapsto>
          fillna (Float (mean (to_numeric_series pr))) (to_numeric_series pr),
        ''total_reviews'' \<mapsto> fillna (Float (Fin 0)) (to_numeric_series tr),
        ''purchased_last_month'' \<mapsto> fillna (Float (Fin 0)) (to_numeric_series pl)) \<and>
     (\<forall>n. frame_rows n df \<longrightarrow> frame_rows n df')"
  using assms
  apply (simp add: clean_numeric_def Let_def getitem_def map_of_setitem bind_res_def)
  apply (rule conjI)
   apply (rule ext)
   apply simp
  apply (auto intro!: frame_rows_setitem simp add: series_lengths dest: frame_rows_col)
  done

lemma category_column_run:
  "\<exists>df'. category_column df page =
       (Inr df', page @ (if map_of df ''product_category'' = None
          then [''Column 'product_category' not found. Please update Line 61. Using 'Unknown' for now.'']
          else [])) \<and>
     map_of df' = (map_of df)(''product_category'' \<mapsto>
        (case map_of df ''product_category'' of
           None \<Rightarrow> replicate (nrows df) (Str ''Unknown'')
         | Some c \<Rightarrow> fillna (Str ''Unknown'') c)) \<and>
     (\<forall>n. frame_rows n df \<longrightarrow> frame_rows n df')"
  by (cases "map_of df ''product_category''")
    (auto simp add: category_column_def Let_def in_columns_iff st_error_def map_of_setitem
      getitem_def bind_res_def series_lengths frame_rows_nrows
      intro!: frame_rows_setitem dest: frame_rows_col)

lemma derive_metrics_Inr:
  assumes "map_of df ''discounted_price'' = Some dp" and "map_of df ''original_price'' = Some op"
    and "map_of df ''purchased_last_month'' = Some pl"
  shows "\<exists>df'. derive_metrics df = Inr df' \<and>
     map_of df' = (map_of df)
       (''Est. Revenue (Last Month)'' \<mapsto> series_binop fl_mul dp pl,
        ''Discount %'' \<mapsto> clip_series 0 100 (fillna (Float (Fin 0))
           (series_scale (series_binop fl_div (series_binop fl_sub op dp) op) 100))) \<and>
     (\<forall>n. frame_rows n df \<longrightarrow> frame_rows n df')"
proof -
  let ?rev = "series_binop fl_mul dp pl"
  let ?pct = "series_scale (series_binop fl_div (series_binop fl_sub op dp) op) 100"
  let ?df' = "setitem (setitem (setitem df ''Est. Revenue (Last Month)'' ?rev) ''Discount %'' ?pct)
                ''Discount %'' (clip_series 0 100 (fillna (Float (Fin 0)) ?pct))"
  have run: "derive_metrics df = Inr ?df'"
    using assms by (simp add: derive_metrics_def Let_def getitem_def map_of_setitem bind_res_def)
  have cols: "map_of ?df' = (map_of df)
       (''Est. Revenue (Last Month)'' \<mapsto> ?rev,
        ''Discount %'' \<mapsto> clip_series 0 100 (fillna (Float (Fin 0)) ?pct))"
    by (simp add: map_of_setitem)
  have rows: "frame_rows n ?df'" if "frame_rows n df" for n
  proof -
    have "length dp = n" "length op = n" "length pl = n"
      using that assms by (auto dest: frame_rows_col)
    then show ?thesis
      using that by (simp add: frame_rows_setitem series_lengths)
  qed
  from run cols rows show ?thesis by blast
qed

lemma best_seller_column_run:
  assumes "(''is_best_seller'' \<in> set actual) = (map_of df ''is_best_seller'' \<noteq> None)"
  shows "\<exists>df'. best_seller_column actual df page =
       (Inr df', page @ (if map_of df ''is_best_seller'' = None
          then [''Error: Column 'is_best_seller' not found.''] else [])) \<and>
     map_of df' = (map_of df)(''is_best_seller'' \<mapsto>
        (case map_of df ''is_best_seller'' of
           None \<Rightarrow> replicate (nrows df) (Bool False)
         | Some c \<Rightarrow> map (\<lambda>x. Bool (astype_bool x)) c)) \<and>
     (\<forall>n. frame_rows n df \<longrightarrow> frame_rows n df')"
  using assms
  by (cases "map_of df ''is_best_seller''")
    (auto simp add: best_seller_column_def st_error_def map_of_setitem
      getitem_def bind_res_def frame_rows_nrows
      intro!: frame_rows_setitem dest: frame_rows_col)

lemma coupon_column_run:
  assumes "(''has_coupon'' \<in> set actual) = (map_of df ''has_coupon'' \<noteq> None)"
  shows "\<exists>df'. coupon_column r actual df page =
       (Inr df', page @ (if map_of df ''has_coupon'' = None
          then [''Error: Column 'has_coupon' not found.''] else [])) \<and>
     map_of df' = (map_of df)(''has_coupon_bool'' \<mapsto>
        (case map_of df ''has_coupon'' of
           None \<Rightarrow> replicate (nrows df) (Bool False)
         | Some c \<Rightarrow> map (\<lambda>x. Bool (3 < length (astype_str r x))) c)) \<and>
     (\<forall>n. frame_rows n df \<longrightarrow> frame_rows n df')"
  using assms
  by (cases "map_of df ''has_coupon''")
    (auto simp add: coupon_column_def st_error_def map_of_setitem
      getitem_def bind_res_def frame_rows_nrows
      intro!: frame_rows_setitem dest: frame_rows_col)

lemma sustainable_column_run:
  assumes "(''sustainability_tags'' \<in> set actual) = (map_of df ''sustainability_tags'' \<noteq> None)"
  shows "\<exists>df'. sustainable_column actual df page =
       (Inr df', page @ (if map_of df ''sustainability_tags'' = None
          then [''Error: Column 'sustainability_tags' not found.''] else [])) \<and>
     map_of df' = (map_of df)(''is_sustainable'' \<mapsto>
        (case map_of df ''sustainability_tags'' of
           None \<Rightarrow> replicate (nrows df) (Bool False)
         | Some c \<Rightarrow> map (\<lambda>x. Bool (notna x)) c)) \<and>
     (\<forall>n. frame_rows n df \<longrightarrow> frame_rows n df')"
  using assms
  by (cases "map_of df ''sustainability_tags''")
    (auto simp add: sustainable_column_def st_error_def map_of_setitem
      getitem_def bind_res_def frame_rows_nrows
      intro!: frame_rows_setitem dest: frame_rows_col)

lemma sponsored_column_run:
  assumes "(''is_sponsored'' \<in> set actual) = (map_of df ''is_sponsored'' \<noteq> None)"
  shows "\<exists>df'. sponsored_column actual df page =
       (Inr df', page @ (if map_of df ''is_sponsored'' = None
          then [''Error: Column 'is_sponsored' not found.''] else [])) \<and>
     map_of df' = (map_of df)(''is_sponsored'' \<mapsto>
        (case map_of df ''is_sponsored'' of
           None \<Rightarrow> replicate (nrows df) (Str ''Unknown'')
         | Some c \<Rightarrow> fillna (Bool False) c)) \<and>
     (\<forall>n. frame_rows n df \<longrightarrow> frame_rows n df')"
  using assms
  by (cases "map_of df ''is_sponsored''")
    (auto simp add: sponsored_column_def st_error_def map_of_setitem
      getitem_def bind_res_def frame_rows_nrows series_lengths
      intro!: frame_rows_setitem dest: frame_rows_col)


lemma load_data_chain:
  assumes dp: "map_of (strip_columns csv) ''discounted_price'' = Some dp"
    and op: "map_of (strip_columns csv) ''original_price'' = Some op"
    and pr: "map_of (strip_columns csv) ''product_rating'' = Some pr"
    and tr: "map_of (strip_columns csv) ''total_reviews'' = Some tr"
    and pl: "map_of (strip_columns csv) ''purchased_last_month'' = Some pl"
  shows "\<exists>df2 df3 df4 df5 df6 df7 df8 out.
    load_data r csv page =
      (Inr out,
       page @
       (if map_of (strip_columns csv) ''product_category'' = None
        then [''Column 'product_category' not found. Please update Line 61. Using 'Unknown' for now.'']
        else []) @
       (if map_of (strip_columns csv) ''is_best_seller'' = None
        then [''Error: Column 'is_best_seller' not found.''] else []) @
       (if map_of (strip_columns csv) ''has_coupon'' = None
        then [''Error: Column 'has_coupon' not found.''] else []) @
       (if map_of (strip_columns csv) ''sustainability_tags'' = None
        then [''Error: Column 'sustainability_tags' not found.''] else []) @
       (if map_of (strip_columns csv) ''is_sponsored'' = None
        then [''Error: Column 'is_sponsored' not found.''] else [])) \<and>
    (\<forall>k. map_of df2 k =
       map_option (keep_rows (map (\<lambda>c. price_value r c \<noteq> NaN) dp))
         (((map_of (strip_columns csv))
            (''discounted_price'' \<mapsto> map (\<lambda>c. Float (price_value r c)) dp,
             ''original_price'' \<mapsto>
               fillna_series (map (\<lambda>c. Float (price_value r c)) dp)
                 (map (\<lambda>c. Float (price_value r c)) op))) k)) \<and>
    map_of df3 = (map_of df2)
       (''product_rating'' \<mapsto>
          fillna (Float (mean (to_numeric_series
              (keep_rows (map (\<lambda>c. price_value r c \<noteq> NaN) dp) pr))))
            (to_numeric_series (keep_rows (map (\<lambda>c. price_value r c \<noteq> NaN) dp) pr)),
        ''total_reviews'' \<mapsto> fillna (Float (Fin 0))
            (to_numeric_series (keep_rows (map (\<lambda>c. price_value r c \<noteq> NaN) dp) tr)),
        ''purchased_last_month'' \<mapsto> fillna (Float (Fin 0))
            (to_numeric_series (keep_rows (map (\<lambda>c. price_value r c \<noteq> NaN) dp) pl))) \<and>
    map_of df4 = (map_of df3)(''product_category'' \<mapsto>
        (case map_of df3 ''product_category'' of
           None \<Rightarrow> replicate (nrows df3) (Str ''Unknown'')
         | Some c \<Rightarrow> fillna (Str ''Unknown'') c)) \<and>
    (\<exists>dp' op' pl'. map_of df4 ''discounted_price'' = Some dp' \<and>
       map_of df4 ''original_price'' = Some op' \<and>
       map_of df4 ''purchased_last_month'' = Some pl' \<and>
       map_of df5 = (map_of df4)
       (''Est. Revenue (Last Month)'' \<mapsto> series_binop fl_mul dp' pl',
        ''Discount %'' \<mapsto> clip_series 0 100 (fillna (Float (Fin 0))
           (series_scale (series_binop fl_div (series_binop fl_sub op' dp') op') 100)))) \<and>
    map_of df6 = (map_of df5)(''is_best_seller'' \<mapsto>
        (case map_of df5 ''is_best_seller'' of
           None \<Rightarrow> replicate (nrows df5) (Bool False)
         | Some c \<Rightarrow> map (\<lambda>x. Bool (astype_bool x)) c)) \<and>
    map_of df7 = (map_of df6)(''has_coupon_bool'' \<mapsto>
        (case map_of df6 ''has_coupon'' of
           None \<Rightarrow> replicate (nrows df6) (Bool False)
         | Some c \<Rightarrow> map (\<lambda>x. Bool (3 < length (astype_str r x))) c)) \<and>
    map_of df8 = (map_of df7)(''is_sustainable'' \<mapsto>
        (case map_of df7 ''sustainability_tags'' of
           None \<Rightarrow> replicate (nrows df7) (Bool False)
         | Some c \<Rightarrow> map (\<lambda>x. Bool (notna x)) c)) \<and>
    map_of out = (map_of df8)(''is_sponsored'' \<mapsto>
        (case map_of df8 ''is_sponsored'' of
           None \<Rightarrow> replicate (nrows df8) (Str ''Unknown'')
         | Some c \<Rightarrow> fillna (Bool False) c)) \<and>
    (\<forall>n. frame_rows n csv \<longrightarrow>
       (\<forall>df \<in> {df3, df5, df6, df7, df8, out}.
          frame_rows (length (filter (\<lambda>c. price_value r c \<noteq> NaN) dp)) df))"
proof -
  let ?S = "strip_columns csv"
  let ?D = "map (\<lambda>c. Float (price_value r c)) dp"
  let ?O = "map (\<lambda>c. Float (price_value r c)) op"
  let ?K = "map (\<lambda>c. price_value r c \<noteq> NaN) dp"
  let ?m = "length (filter (\<lambda>c. price_value r c \<noteq> NaN) dp)"
  have K: "map notna ?D = ?K"
    by (simp add: notna_def isna_def)
  have m: "length (filter notna ?D) = ?m"
    by (simp add: notna_def isna_def filter_map comp_def)
  obtain df1 where 1: "parse_prices r ?S = Inr df1"
      "map_of df1 = (map_of ?S)(''discounted_price'' \<mapsto> ?D, ''original_price'' \<mapsto> ?O)"
      "\<forall>n. frame_rows n ?S \<longrightarrow> frame_rows n df1"
    using parse_prices_Inr[OF dp op] by blast
  have d1: "map_of df1 ''discounted_price'' = Some ?D" "map_of df1 ''original_price'' = Some ?O"
    by (simp_all add: 1)
  obtain df2 where 2: "backfill_and_drop df1 = Inr df2"
      "\<forall>k. map_of df2 k = map_option (keep_rows ?K)
              (((map_of df1)(''original_price'' \<mapsto> fillna_series ?D ?O)) k)"
      "\<forall>n. frame_rows n df1 \<longrightarrow> frame_rows ?m df2"
    using backfill_and_drop_Inr[OF d1] unfolding K m by blast
  have d2: "map_of df2 ''product_rating'' = Some (keep_rows ?K pr)"
      "map_of df2 ''total_reviews'' = Some (keep_rows ?K tr)"
      "map_of df2 ''purchased_last_month'' = Some (keep_rows ?K pl)"
    using pr tr pl by (simp_all add: 2 1)
  obtain df3 where 3: "clean_numeric df2 = Inr df3"
      "map_of df3 = (map_of df2)
       (''product_rating'' \<mapsto>
          fillna (Float (mean (to_numeric_series (keep_rows ?K pr))))
            (to_numeric_series (keep_rows ?K pr)),
        ''total_reviews'' \<mapsto> fillna (Float (Fin 0)) (to_numeric_series (keep_rows ?K tr)),
        ''purchased_last_month'' \<mapsto> fillna (Float (Fin 0)) (to_numeric_series (keep_rows ?K pl)))"
      "\<forall>n. frame_rows n df2 \<longrightarrow> frame_rows n df3"
    using clean_numeric_Inr[OF d2] by blast
  obtain df4 page4 where 4: "category_column df3 page = (Inr df4, page4)"
      "map_of df4 = (map_of df3)(''product_category'' \<mapsto>
        (case map_of df3 ''product_category'' of
           None \<Rightarrow> replicate (nrows df3) (Str ''Unknown'')
         | Some c \<Rightarrow> fillna (Str ''Unknown'') c))"
      "\<forall>n. frame_rows n df3 \<longrightarrow> frame_rows n df4"
      and p4: "page4 = page @ (if map_of df3 ''product_category'' = None
          then [''Column 'product_category' not found. Please update Line 61. Using 'Unknown' for now.'']
          else [])"
    using category_column_run[of df3 page] by blast
  obtain dp' op' pl' where d4: "map_of df4 ''discounted_price'' = Some dp'"
      "map_of df4 ''original_price'' = Some op'"
      "map_of df4 ''purchased_last_month'' = Some pl'"
    by (simp add: 4 3 2 1)
  obtain df5 where 5: "derive_metrics df4 = Inr df5"
      "map_of df5 = (map_of df4)
       (''Est. Revenue (Last Month)'' \<mapsto> series_binop fl_mul dp' pl',
        ''Discount %'' \<mapsto> clip_series 0 100 (fillna (Float (Fin 0))
           (series_scale (series_binop fl_div (series_binop fl_sub op' dp') op') 100)))"
      "\<forall>n. frame_rows n df4 \<longrightarrow> frame_rows n df5"
    using derive_metrics_Inr[OF d4(1) d4(2) d4(3)] by blast
  let ?ac = "columns df5"
  have c5: "(''is_best_seller'' \<in> set ?ac) = (map_of df5 ''is_best_seller'' \<noteq> None)"
    by (simp add: in_columns_iff)
  obtain df6 page6 where 6: "best_seller_column ?ac df5 page4 = (Inr df6, page6)"
      "map_of df6 = (map_of df5)(''is_best_seller'' \<mapsto>
        (case map_of df5 ''is_best_seller'' of
           None \<Rightarrow> replicate (nrows df5) (Bool False)
         | Some c \<Rightarrow> map (\<lambda>x. Bool (astype_bool x)) c))"
      "\<forall>n. frame_rows n df5 \<longrightarrow> frame_rows n df6"
      and p6: "page6 = page4 @ (if map_of df5 ''is_best_seller'' = None
          then [''Error: Column 'is_best_seller' not found.''] else [])"
    using best_seller_column_run[OF c5, of page4] by blast
  have c6: "(''has_coupon'' \<in> set ?ac) = (map_of df6 ''has_coupon'' \<noteq> None)"
    by (simp add: in_columns_iff 6)
  obtain df7 page7 where 7: "coupon_column r ?ac df6 page6 = (Inr df7, page7)"
      "map_of df7 = (map_of df6)(''has_coupon_bool'' \<mapsto>
        (case map_of df6 ''has_coupon'' of
           None \<Rightarrow> replicate (nrows df6) (Bool False)
         | Some c \<Rightarrow> map (\<lambda>x. Bool (3 < length (astype_str r x))) c))"
      "\<forall>n. frame_rows n df6 \<longrightarrow> frame_rows n df7"
      and p7: "page7 = page6 @ (if map_of df6 ''has_coupon'' = None
          then [''Error: Column 'has_coupon' not found.''] else [])"
    using coupon_column_run[OF c6, of r page6] by blast
  have c7: "(''sustainability_tags'' \<in> set ?ac) = (map_of df7 ''sustainability_tags'' \<noteq> None)"
    by (simp add: in_columns_iff 7 6)
  obtain df8 page8 where 8: "sustainable_column ?ac df7 page7 = (Inr df8, page8)"
      "map_of df8 = (map_of df7)(''is_sustainable'' \<mapsto>
        (case map_of df7 ''sustainability_tags'' of
           None \<Rightarrow> replicate (nrows df7) (Bool False)
         | Some c \<Rightarrow> map (\<lambda>x. Bool (notna x)) c))"
      "\<forall>n. frame_rows n df7 \<longrightarrow> frame_rows n df8"
      and p8: "page8 = page7 @ (if map_of df7 ''sustainability_tags'' = None
          then [''Error: Column 'sustainability_tags' not found.''] else [])"
    using sustainable_column_run[OF c7, of page7] by blast
  have c8: "(''is_sponsored'' \<in> set ?ac) = (map_of df8 ''is_sponsored'' \<noteq> None)"
    by (simp add: in_columns_iff 8 7 6)
  obtain out page9 where 9: "sponsored_column ?ac df8 page8 = (Inr out, page9)"
      "map_of out = (map_of df8)(''is_sponsored'' \<mapsto>
        (case map_of df8 ''is_sponsored'' of
           None \<Rightarrow> replicate (nrows df8) (Str ''Unknown'')
         | Some c \<Rightarrow> fillna (Bool False) c))"
      "\<forall>n. frame_rows n df8 \<longrightarrow> frame_rows n out"
      and p9: "page9 = page8 @ (if map_of df8 ''is_sponsored'' = None
          then [''Error: Column 'is_sponsored' not found.''] else [])"
    using sponsored_column_run[OF c8, of page8] by blast
  have run: "load_data r csv page = (Inr out, page9)"
    by (simp add: load_data_def Let_def then_do_def quiet_def 1(1) 2(1) 3(1) 5(1) 4(1) 6(1) 7(1) 8(1) 9(1))
  have n3: "(map_of df3 ''product_category'' = None) = (map_of ?S ''product_category'' = None)"
    by (simp add: 3 2 1)
  have n5: "(map_of df5 ''is_best_seller'' = None) = (map_of ?S ''is_best_seller'' = None)"
    by (simp add: 5 4 3 2 1)
  have n6: "(map_of df6 ''has_coupon'' = None) = (map_of ?S ''has_coupon'' = None)"
    by (simp add: 6 5 4 3 2 1)
  have n7: "(map_of df7 ''sustainability_tags'' = None) = (map_of ?S ''sustainability_tags'' = None)"
    by (simp add: 7 6 5 4 3 2 1)
  have n8: "(map_of df8 ''is_sponsored'' = None) = (map_of ?S ''is_sponsored'' = None)"
    by (simp add: 8 7 6 5 4 3 2 1)
  have rows: "\<forall>df \<in> {df3, df5, df6, df7, df8, out}. frame_rows ?m df" if "frame_rows n csv" for n
  proof -
    have "frame_rows n ?S" using that by (rule frame_rows_strip)
    then have "frame_rows ?m df2" using 1(3) 2(3) by blast
    then have "frame_rows ?m df3" using 3(3) by blast
    then have "frame_rows ?m df5" using 4(3) 5(3) by blast
    then have "frame_rows ?m df6" using 6(3) by blast
    then have "frame_rows ?m df7" using 7(3) by blast
    then have "frame_rows ?m df8" using 8(3) by blast
    then have "frame_rows ?m out" using 9(3) by blast
    show ?thesis
      using \<open>frame_rows ?m df3\<close> \<open>frame_rows ?m df5\<close> \<open>frame_rows ?m df6\<close> \<open>frame_rows ?m df7\<close>
        \<open>frame_rows ?m df8\<close> \<open>frame_rows ?m out\<close> by simp
  qed
  have run': "load_data r csv page = (Inr out,
       page @
       (if map_of ?S ''product_category'' = None
        then [''Column 'product_category' not found. Please update Line 61. Using 'Unknown' for now.'']
        else []) @
       (if map_of ?S ''is_best_seller'' = None
        then [''Error: Column 'is_best_seller' not found.''] else []) @
       (if map_of ?S ''has_coupon'' = None
        then [''Error: Column 'has_coupon' not found.''] else []) @
       (if map_of ?S ''sustainability_tags'' = None
        then [''Error: Column 'sustainability_tags' not found.''] else []) @
       (if map_of ?S ''is_sponsored'' = None
        then [''Error: Column 'is_sponsored' not found.''] else []))"
    unfolding run p9 p8 p7 p6 p4 n3 n5 n6 n7 n8 by simp
  have c2: "\<forall>k. map_of df2 k = map_option (keep_rows ?K)
         (((map_of ?S)(''discounted_price'' \<mapsto> ?D, ''original_price'' \<mapsto> fillna_series ?D ?O)) k)"
    by (simp add: 2 1)
  from run' c2 3(2) 4(2) d4 5(2) 6(2) 7(2) 8(2) 9(2) rows show ?thesis
    by blast
qed

section \<open>Reading prices\<close>

lemma str_split_first:
  "\<exists>ps. str_split sep s = takeWhile (\<lambda>c. c \<noteq> sep) s # ps"
  by (induction s) auto

lemma str_get0_split: "str_get0 (str_split sep s) = Str (takeWhile (\<lambda>c. c \<noteq> sep) s)"
  using str_split_first[of sep s] by auto

lemma price_value_text:
  "price_value r c = to_numeric_str (takeWhile (\<lambda>c. c \<noteq> CHR ''-'') (astype_str r c))"
  by (simp add: price_value_def str_get0_split)

lemma lower_ascii_minus: "lower_ascii c = CHR ''-'' \<Longrightarrow> c = CHR ''-''"
  by (simp add: lower_ascii_def split: if_splits)

lemma is_minus_in: "is_minus p \<Longrightarrow> CHR ''-'' \<in> set p"
  by (cases p) (auto simp add: is_minus_def)

lemma magnitude_range:
  assumes "magnitude a b c d = Some m"
  shows "0 \<le> m \<and> m < float64_overflow"
proof -
  let ?number = "of_nat (digits_val (a @ b)) :: rat"
  let ?e = "(if c then - int (digits_val d) else int (digits_val d)) - int (length b)"
  let ?v = "if 0 \<le> ?e then ?number * 10 ^ nat ?e else ?number / 10 ^ nat (- ?e)"
  have v: "0 \<le> ?v"
    by simp
  from assms have "m = ?v" "\<not> float64_overflow \<le> ?v"
    by (simp_all add: magnitude_def Let_def split: if_splits)
  with v show ?thesis
    by (simp only: not_le)
qed

lemma guarded_Some:
  "(if A then None else if B then None else Some x) = Some m \<Longrightarrow> \<not> A \<and> \<not> B \<and> m = x"
  by (simp split: if_splits)

lemma to_double_range:
  assumes "CHR ''-'' \<notin> set s" and "to_double s = Some v"
  shows "0 \<le> v \<and> v < float64_overflow"
proof -
  have "\<not> is_minus (dropWhile isspace_ascii s)"
    using assms(1) is_minus_in set_dropWhileD by fastforce
  with assms(2) show ?thesis
    by (auto simp add: to_double_def Let_def split: option.splits dest: magnitude_range)
qed

lemma to_numeric_str_cases:
  assumes "CHR ''-'' \<notin> set s"
  shows "to_numeric_str s = NaN \<or>
    (\<exists>q. to_numeric_str s = Fin q \<and> 0 \<le> q \<and> q < float64_overflow) \<or>
    (to_numeric_str s = PInf \<and>
     map lower_ascii s \<in> set [''inf'', ''+inf'', ''infinity'', ''+infinity''])"
proof (cases "to_double s")
  case (Some v)
  then show ?thesis using to_double_range[OF assms Some] by (simp add: to_numeric_str_def)
next
  case None
  have ne: "map lower_ascii s \<noteq> CHR ''-'' # t" for t
    using assms lower_ascii_minus by (cases s) auto
  have "map lower_ascii s \<noteq> ''-inf''" "map lower_ascii s \<noteq> ''-infinity''"
    using ne[of "''inf''"] ne[of "''infinity''"] by simp_all
  with None show ?thesis
    by (simp add: to_numeric_str_def Let_def)
qed

lemma price_value_cases:
  "price_value r c = NaN \<or>
   (\<exists>q. price_value r c = Fin q \<and> 0 \<le> q \<and> q < float64_overflow) \<or>
   (price_value r c = PInf \<and>
    map lower_ascii (takeWhile (\<lambda>x. x \<noteq> CHR ''-'') (astype_str r c)) \<in>
      set [''inf'', ''+inf'', ''infinity'', ''+infinity''])"
  unfolding price_value_text
  by (rule to_numeric_str_cases) (auto dest: set_takeWhileD)

lemma price_value_nonneg: "price_value r c = NaN \<or> zero_up_to_infinity (price_value r c)"
  using price_value_cases[of r c] by auto


section \<open>The page only grows\<close>

lemma quiet_appends: "\<exists>res ws. \<forall>page. quiet r page = (res, page @ ws)"
  by (simp add: quiet_def)

lemma then_do_appends:
  assumes m: "\<exists>res ws. \<forall>page. m page = (res, page @ ws)"
    and f: "\<And>x. \<exists>res ws. \<forall>page. f x page = (res, page @ ws)"
  shows "\<exists>res ws. \<forall>page. then_do m f page = (res, page @ ws)"
proof -
  from m obtain res ws where mp: "\<And>page. m page = (res, page @ ws)"
    by blast
  show ?thesis
  proof (cases res)
    case (Inl e)
    then have "then_do m f page = (Inl e, page @ ws)" for page
      by (simp add: then_do_def mp)
    then show ?thesis by blast
  next
    case (Inr x)
    from f[of x] obtain res' ws' where fp: "\<And>page. f x page = (res', page @ ws')"
      by blast
    have "then_do m f page = (res', page @ (ws @ ws'))" for page
      by (simp add: then_do_def mp Inr fp)
    then show ?thesis by blast
  qed
qed

lemma category_column_appends:
  "\<exists>res ws. \<forall>page. category_column df page = (res, page @ ws)"
  by (cases "''product_category'' \<in> set (columns df)")
    (simp_all add: category_column_def Let_def st_error_def)

lemma best_seller_column_appends:
  "\<exists>res ws. \<forall>page. best_seller_column ac df page = (res, page @ ws)"
  by (cases "''is_best_seller'' \<in> set ac") (simp_all add: best_seller_column_def st_error_def)

lemma coupon_column_appends:
  "\<exists>res ws. \<forall>page. coupon_column r ac df page = (res, page @ ws)"
  by (cases "''has_coupon'' \<in> set ac") (simp_all add: coupon_column_def st_error_def)

lemma sustainable_column_appends:
  "\<exists>res ws. \<forall>page. sustainable_column ac df page = (res, page @ ws)"
  by (cases "''sustainability_tags'' \<in> set ac") (simp_all add: sustainable_column_def st_error_def)

lemma sponsored_column_appends:
  "\<exists>res ws. \<forall>page. sponsored_column ac df page = (res, page @ ws)"
  by (cases "''is_sponsored'' \<in> set ac") (simp_all add: sponsored_column_def st_error_def)

lemma load_data_appends:
  "\<exists>res ws. \<forall>page. load_data r csv page = (res, page @ ws)"
  unfolding load_data_def Let_def
  by (intro then_do_appends quiet_appends category_column_appends best_seller_column_appends
      coupon_column_appends sustainable_column_appends sponsored_column_appends)


section \<open>The price columns row by row\<close>

lemma kept_prices:
  "keep_rows (map (\<lambda>c. price_value r c \<noteq> NaN) dp) (map (\<lambda>c. Float (price_value r c)) dp) =
   map Float (filter (\<lambda>x. x \<noteq> NaN) (map (price_value r) dp))"
  by (simp add: keep_rows_map keep_rows_self filter_map comp_def)

lemmas reader_defs = price_value_text to_numeric_str_def to_double_def scan_unsigned_def
  magnitude_def float64_overflow_def is_minus_def is_sign_def starts_with_def isspace_ascii_def is_digit_def
  digits_val_def digit_val_def lower_ascii_def

lemma price_examples:
  "price_value r (Str ''89.68-99.99'') = Fin (8968 / 100)"
  "price_value r (Str ''Free'') = NaN"
  "price_value r (Str ''50.00'') = Fin 50"
  "price_value r (Str ''10'') = Fin 10"
  "price_value r (Str ''120'') = Fin 120"
  "price_value r (Str ''5'') = Fin 5"
  "price_value r (Str ''0'') = Fin 0"
  "price_value r (Float NaN) = NaN"
  by (simp_all add: reader_defs)

lemma shop_columns:
  "map_of (strip_columns shop_csv) ''discounted_price'' =
     Some [Str ''89.68-99.99'', Str ''Free'', Str ''50.00'', Str ''10'']"
  "map_of (strip_columns shop_csv) ''original_price'' =
     Some [Str ''120'', Str ''5'', Float NaN, Str ''0'']"
  "map_of (strip_columns shop_csv) ''product_rating'' =
     Some [Float (Fin 4), Float (Fin 3), Float NaN, Float (Fin 5)]"
  "map_of (strip_columns shop_csv) ''total_reviews'' =
     Some [Integer 40, Integer 7, Integer 0, Integer 5]"
  "map_of (strip_columns shop_csv) ''purchased_last_month'' =
     Some [Float (Fin 4), Float NaN, Float NaN, Float (Fin 5)]"
  "map_of (strip_columns shop_csv) ''product_category'' =
     Some [Str ''Phones'', Str ''Phones'', Float NaN, Str ''Laptops'']"
  "map_of (strip_columns shop_csv) ''is_best_seller'' =
     Some [Str ''False'', Str ''yes'', Float NaN, Str ''no'']"
  "map_of (strip_columns shop_csv) ''has_coupon'' =
     Some [Str ''no'', Float NaN, Str ''Save 5%'', Float NaN]"
  "map_of (strip_columns shop_csv) ''is_sponsored'' =
     Some [Str ''Sponsored'', Float NaN, Float NaN, Str ''Organic'']"
  "map_of (strip_columns shop_csv) ''product_title'' = Some [Str ''A'', Str ''B'', Str ''C'', Str ''D'']"
  "map_of (strip_columns shop_csv) ''sustainability_tags'' = None"
  by (simp_all add: shop_csv_def strip_columns_def strip_def py_isspace_def)

lemma shop_rows: "frame_rows 4 shop_csv"
  by (simp add: shop_csv_def frame_rows_def)

lemma keep_rows_zip:
  "length ys = length xs \<Longrightarrow>
   keep_rows (map p xs) (map f (zip xs ys)) = map f (filter (\<lambda>xy. p (fst xy)) (zip xs ys))"
  by (induction xs ys rule: list_induct2') (simp_all add: keep_rows_def)

lemma series_binop_map:
  "series_binop f (map a xs) (map b xs) =
   map (\<lambda>x. Float (f (float_value (a x)) (float_value (b x)))) xs"
  by (induction xs) (simp_all add: series_binop_def)

lemma discount_series:
  "clip_series 0 100 (fillna (Float (Fin 0))
     (series_scale (series_binop fl_div (series_binop fl_sub (map (\<lambda>x. Float (a x)) xs)
        (map (\<lambda>x. Float (b x)) xs)) (map (\<lambda>x. Float (a x)) xs)) 100)) =
   map (\<lambda>x. Float (discount_cell (a x) (b x))) xs"
  by (simp add: series_binop_map series_scale_def fillna_def clip_series_def discount_cell_def
      Let_def isna_def comp_def)

lemma discount_cell_spec:
  assumes "zero_up_to_infinity p" and "zero_up_to_infinity d"
  shows "discount_cell p d = Fin (discount_percent_spec p d)"
  using assms
  by (cases p; cases d)
    (auto simp add: discount_cell_def discount_percent_spec_def fl_sub_def inf_of_sign_def Let_def
      min_def max_def divide_simps split: if_splits)

lemma priced_rows:
  assumes dp: "map_of (strip_columns csv) ''discounted_price'' = Some dp"
    and op: "map_of (strip_columns csv) ''original_price'' = Some op"
    and pr: "map_of (strip_columns csv) ''product_rating'' = Some pr"
    and tr: "map_of (strip_columns csv) ''total_reviews'' = Some tr"
    and pl: "map_of (strip_columns csv) ''purchased_last_month'' = Some pl"
    and rows: "frame_rows n csv"
  shows "\<exists>out page'. load_data r csv page = (Inr out, page') \<and>
    map_of out ''discounted_price'' =
      Some (map (\<lambda>(d, p). Float (price_value r d))
        (filter (\<lambda>(d, p). price_value r d \<noteq> NaN) (zip dp op))) \<and>
    map_of out ''original_price'' =
      Some (map (\<lambda>(d, p). Float (if price_value r p = NaN then price_value r d
                                   else price_value r p))
        (filter (\<lambda>(d, p). price_value r d \<noteq> NaN) (zip dp op))) \<and>
    map_of out ''Discount %'' =
      Some (map (\<lambda>(d, p). Float (discount_cell
                 (if price_value r p = NaN then price_value r d else price_value r p)
                 (price_value r d)))
        (filter (\<lambda>(d, p). price_value r d \<noteq> NaN) (zip dp op)))"
proof -
  let ?S = "strip_columns csv"
  let ?K = "map (\<lambda>c. price_value r c \<noteq> NaN) dp"
  let ?rows = "filter (\<lambda>(d, p). price_value r d \<noteq> NaN) (zip dp op)"
  let ?fd = "\<lambda>(d, p). price_value r d"
  let ?fo = "\<lambda>(d, p). if price_value r p = NaN then price_value r d else price_value r p"
  have len: "length op = length dp"
    using frame_rows_col[OF frame_rows_strip[OF rows]] dp op by simp
  have D: "map (\<lambda>c. Float (price_value r c)) dp = map (\<lambda>x. Float (?fd x)) (zip dp op)"
    using len by (induction dp op rule: list_induct2') simp_all
  have O: "fillna_series (map (\<lambda>c. Float (price_value r c)) dp)
             (map (\<lambda>c. Float (price_value r c)) op) = map (\<lambda>x. Float (?fo x)) (zip dp op)"
    using len by (induction dp op rule: list_induct2') (simp_all add: fillna_series_def isna_def)
  have kD: "keep_rows ?K (map (\<lambda>c. Float (price_value r c)) dp) = map (\<lambda>x. Float (?fd x)) ?rows"
    unfolding D using keep_rows_zip[OF len, of "\<lambda>c. price_value r c \<noteq> NaN" "\<lambda>x. Float (?fd x)"]
    by (simp add: split_def)
  have kO: "keep_rows ?K (fillna_series (map (\<lambda>c. Float (price_value r c)) dp)
             (map (\<lambda>c. Float (price_value r c)) op)) = map (\<lambda>x. Float (?fo x)) ?rows"
    unfolding O using keep_rows_zip[OF len, of "\<lambda>c. price_value r c \<noteq> NaN" "\<lambda>x. Float (?fo x)"]
    by (simp add: split_def)
  from load_data_chain[OF dp op pr tr pl, of r page]
  obtain df2 df3 df4 df5 df6 df7 df8 out page' dp' op' where run: "load_data r csv page = (Inr out, page')"
    and 2: "\<forall>k. map_of df2 k =
       map_option (keep_rows ?K)
         (((map_of ?S)
            (''discounted_price'' \<mapsto> map (\<lambda>c. Float (price_value r c)) dp,
             ''original_price'' \<mapsto>
               fillna_series (map (\<lambda>c. Float (price_value r c)) dp)
                 (map (\<lambda>c. Float (price_value r c)) op))) k)"
    and 3: "\<exists>x y z. map_of df3 = (map_of df2)
       (''product_rating'' \<mapsto> x, ''total_reviews'' \<mapsto> y, ''purchased_last_month'' \<mapsto> z)"
    and 4: "\<exists>x. map_of df4 = (map_of df3)(''product_category'' \<mapsto> x)"
    and d4: "map_of df4 ''discounted_price'' = Some dp'" "map_of df4 ''original_price'' = Some op'"
    and 5: "\<exists>x. map_of df5 = (map_of df4)
       (''Est. Revenue (Last Month)'' \<mapsto> x,
        ''Discount %'' \<mapsto> clip_series 0 100 (fillna (Float (Fin 0))
           (series_scale (series_binop fl_div (series_binop fl_sub op' dp') op') 100)))"
    and 6: "\<exists>x. map_of df6 = (map_of df5)(''is_best_seller'' \<mapsto> x)"
    and 7: "\<exists>x. map_of df7 = (map_of df6)(''has_coupon_bool'' \<mapsto> x)"
    and 8: "\<exists>x. map_of df8 = (map_of df7)(''is_sustainable'' \<mapsto> x)"
    and 9: "\<exists>x. map_of out = (map_of df8)(''is_sponsored'' \<mapsto> x)"
    by blast
  have p4: "map_of df4 ''discounted_price'' = map_of df2 ''discounted_price''"
      "map_of df4 ''original_price'' = map_of df2 ''original_price''"
    using 3 4 by auto
  have dp': "dp' = map (\<lambda>x. Float (?fd x)) ?rows" and op': "op' = map (\<lambda>x. Float (?fo x)) ?rows"
    using d4 p4 by (simp_all add: 2 kD kO)
  have "map_of out ''discounted_price'' = Some dp'" "map_of out ''original_price'' = Some op'"
    using 5 6 7 8 9 d4 by auto
  moreover have "map_of out ''Discount %'' = Some (map (\<lambda>x. Float (discount_cell (?fo x) (?fd x))) ?rows)"
  proof -
    have "map_of out ''Discount %'' = map_of df5 ''Discount %''"
      using 6 7 8 9 by auto
    then show ?thesis
      using 5 by (auto simp add: dp' op' discount_series)
  qed
  ultimately show ?thesis
    using run by (auto simp add: dp' op' split_def)
qed

lemma discount_percent_spec_range:
  "0 \<le> discount_percent_spec p d \<and> discount_percent_spec p d \<le> 100"
  by (cases p; cases d) (simp_all add: discount_percent_spec_def)

lemma discount_percent_spec_zero: "discount_percent_spec (Fin 0) d = 0"
  by (cases d) (simp_all add: discount_percent_spec_def)

lemma price_zero_up: "price_value r c \<noteq> NaN \<Longrightarrow> zero_up_to_infinity (price_value r c)"
  using price_value_nonneg[of r c] by simp

lemma shop_priced_rows:
  "filter (\<lambda>(d, p). price_value r d \<noteq> NaN)
     (zip [Str ''89.68-99.99'', Str ''Free'', Str ''50.00'', Str ''10'']
          [Str ''120'', Str ''5'', Float NaN, Str ''0'']) =
   [(Str ''89.68-99.99'', Str ''120''), (Str ''50.00'', Float NaN), (Str ''10'', Str ''0'')]"
  by (simp add: price_examples)


section \<open>The flag columns in terms of the input\<close>

lemma flag_columns:
  assumes dp: "map_of (strip_columns csv) ''discounted_price'' = Some dp"
    and op: "map_of (strip_columns csv) ''original_price'' = Some op"
    and pr: "map_of (strip_columns csv) ''product_rating'' = Some pr"
    and tr: "map_of (strip_columns csv) ''total_reviews'' = Some tr"
    and pl: "map_of (strip_columns csv) ''purchased_last_month'' = Some pl"
    and rows: "frame_rows n csv"
  shows "\<exists>out. load_data r csv page =
      (Inr out,
       page @
       (if map_of (strip_columns csv) ''product_category'' = None
        then [''Column 'product_category' not found. Please update Line 61. Using 'Unknown' for now.'']
        else []) @
       (if map_of (strip_columns csv) ''is_best_seller'' = None
        then [''Error: Column 'is_best_seller' not found.''] else []) @
       (if map_of (strip_columns csv) ''has_coupon'' = None
        then [''Error: Column 'has_coupon' not found.''] else []) @
       (if map_of (strip_columns csv) ''sustainability_tags'' = None
        then [''Error: Column 'sustainability_tags' not found.''] else []) @
       (if map_of (strip_columns csv) ''is_sponsored'' = None
        then [''Error: Column 'is_sponsored' not found.''] else [])) \<and>
    map_of out ''product_category'' = Some
      (case map_of (strip_columns csv) ''product_category'' of
         None \<Rightarrow> replicate (length (filter (\<lambda>c. price_value r c \<noteq> NaN) dp)) (Str ''Unknown'')
       | Some c \<Rightarrow> fillna (Str ''Unknown'') (keep_rows (map (\<lambda>c. price_value r c \<noteq> NaN) dp) c)) \<and>
    map_of out ''is_best_seller'' = Some
      (case map_of (strip_columns csv) ''is_best_seller'' of
         None \<Rightarrow> replicate (length (filter (\<lambda>c. price_value r c \<noteq> NaN) dp)) (Bool False)
       | Some c \<Rightarrow> map (\<lambda>x. Bool (astype_bool x))
                    (keep_rows (map (\<lambda>c. price_value r c \<noteq> NaN) dp) c)) \<and>
    map_of out ''has_coupon_bool'' = Some
      (case map_of (strip_columns csv) ''has_coupon'' of
         None \<Rightarrow> replicate (length (filter (\<lambda>c. price_value r c \<noteq> NaN) dp)) (Bool False)
       | Some c \<Rightarrow> map (\<lambda>x. Bool (3 < length (astype_str r x)))
                    (keep_rows (map (\<lambda>c. price_value r c \<noteq> NaN) dp) c)) \<and>
    map_of out ''is_sustainable'' = Some
      (case map_of (strip_columns csv) ''sustainability_tags'' of
         None \<Rightarrow> replicate (length (filter (\<lambda>c. price_value r c \<noteq> NaN) dp)) (Bool False)
       | Some c \<Rightarrow> map (\<lambda>x. Bool (notna x))
                    (keep_rows (map (\<lambda>c. price_value r c \<noteq> NaN) dp) c)) \<and>
    map_of out ''is_sponsored'' = Some
      (case map_of (strip_columns csv) ''is_sponsored'' of
         None \<Rightarrow> replicate (length (filter (\<lambda>c. price_value r c \<noteq> NaN) dp)) (Str ''Unknown'')
       | Some c \<Rightarrow> fillna (Bool False) (keep_rows (map (\<lambda>c. price_value r c \<noteq> NaN) dp) c))"
proof -
  let ?S = "strip_columns csv"
  let ?K = "map (\<lambda>c. price_value r c \<noteq> NaN) dp"
  let ?m = "length (filter (\<lambda>c. price_value r c \<noteq> NaN) dp)"
  from load_data_chain[OF dp op pr tr pl, of r page]
  obtain df2 df3 df4 df5 df6 df7 df8 out msgs where run: "load_data r csv page = (Inr out, msgs)"
    and msgs: "msgs = page @
       (if map_of ?S ''product_category'' = None
        then [''Column 'product_category' not found. Please update Line 61. Using 'Unknown' for now.'']
        else []) @
       (if map_of ?S ''is_best_seller'' = None
        then [''Error: Column 'is_best_seller' not found.''] else []) @
       (if map_of ?S ''has_coupon'' = None
        then [''Error: Column 'has_coupon' not found.''] else []) @
       (if map_of ?S ''sustainability_tags'' = None
        then [''Error: Column 'sustainability_tags' not found.''] else []) @
       (if map_of ?S ''is_sponsored'' = None
        then [''Error: Column 'is_sponsored' not found.''] else [])"
    and 2: "\<forall>k. map_of df2 k =
       map_option (keep_rows ?K)
         (((map_of ?S)
            (''discounted_price'' \<mapsto> map (\<lambda>c. Float (price_value r c)) dp,
             ''original_price'' \<mapsto>
               fillna_series (map (\<lambda>c. Float (price_value r c)) dp)
                 (map (\<lambda>c. Float (price_value r c)) op))) k)"
    and 3: "\<exists>x y z. map_of df3 = (map_of df2)
       (''product_rating'' \<mapsto> x, ''total_reviews'' \<mapsto> y, ''purchased_last_month'' \<mapsto> z)"
    and 4: "map_of df4 = (map_of df3)(''product_category'' \<mapsto>
        (case map_of df3 ''product_category'' of
           None \<Rightarrow> replicate (nrows df3) (Str ''Unknown'')
         | Some c \<Rightarrow> fillna (Str ''Unknown'') c))"
    and 5: "\<exists>x y. map_of df5 = (map_of df4)
       (''Est. Revenue (Last Month)'' \<mapsto> x, ''Discount %'' \<mapsto> y)"
    and 6: "map_of df6 = (map_of df5)(''is_best_seller'' \<mapsto>
        (case map_of df5 ''is_best_seller'' of
           None \<Rightarrow> replicate (nrows df5) (Bool False)
         | Some c \<Rightarrow> map (\<lambda>x. Bool (astype_bool x)) c))"
    and 7: "map_of df7 = (map_of df6)(''has_coupon_bool'' \<mapsto>
        (case map_of df6 ''has_coupon'' of
           None \<Rightarrow> replicate (nrows df6) (Bool False)
         | Some c \<Rightarrow> map (\<lambda>x. Bool (3 < length (astype_str r x))) c))"
    and 8: "map_of df8 = (map_of df7)(''is_sustainable'' \<mapsto>
        (case map_of df7 ''sustainability_tags'' of
           None \<Rightarrow> replicate (nrows df7) (Bool False)
         | Some c \<Rightarrow> map (\<lambda>x. Bool (notna x)) c))"
    and 9: "map_of out = (map_of df8)(''is_sponsored'' \<mapsto>
        (case map_of df8 ''is_sponsored'' of
           None \<Rightarrow> replicate (nrows df8) (Str ''Unknown'')
         | Some c \<Rightarrow> fillna (Bool False) c))"
    and fr: "\<forall>n. frame_rows n csv \<longrightarrow>
       (\<forall>df \<in> {df3, df5, df6, df7, df8, out}. frame_rows ?m df)"
    by blast
  have n: "nrows df3 = ?m" "nrows df5 = ?m" "nrows df6 = ?m" "nrows df7 = ?m" "nrows df8 = ?m"
    using fr rows by (auto intro: frame_rows_nrows)
  have s3: "map_of df3 ''product_category'' = map_option (keep_rows ?K) (map_of ?S ''product_category'')"
    using 3 by (auto simp add: 2)
  have s5: "map_of df5 ''is_best_seller'' = map_option (keep_rows ?K) (map_of ?S ''is_best_seller'')"
    using 3 5 by (auto simp add: 2 4)
  have s6: "map_of df6 ''has_coupon'' = map_option (keep_rows ?K) (map_of ?S ''has_coupon'')"
    using 3 5 by (auto simp add: 2 4 6)
  have s7: "map_of df7 ''sustainability_tags'' =
      map_option (keep_rows ?K) (map_of ?S ''sustainability_tags'')"
    using 3 5 by (auto simp add: 2 4 6 7)
  have s8: "map_of df8 ''is_sponsored'' = map_option (keep_rows ?K) (map_of ?S ''is_sponsored'')"
    using 3 5 by (auto simp add: 2 4 6 7 8)
  have "map_of out ''product_category'' = map_of df4 ''product_category''"
    using 5 by (auto simp add: 6 7 8 9)
  then have c1: "map_of out ''product_category'' = Some
      (case map_of ?S ''product_category'' of
         None \<Rightarrow> replicate ?m (Str ''Unknown'')
       | Some c \<Rightarrow> fillna (Str ''Unknown'') (keep_rows ?K c))"
    by (simp add: 4 s3 n split: option.splits)
  have c2: "map_of out ''is_best_seller'' = Some
      (case map_of ?S ''is_best_seller'' of
         None \<Rightarrow> replicate ?m (Bool False)
       | Some c \<Rightarrow> map (\<lambda>x. Bool (astype_bool x)) (keep_rows ?K c))"
    by (simp add: 9 8 7 6 s5 n split: option.splits)
  have c3: "map_of out ''has_coupon_bool'' = Some
      (case map_of ?S ''has_coupon'' of
         None \<Rightarrow> replicate ?m (Bool False)
       | Some c \<Rightarrow> map (\<lambda>x. Bool (3 < length (astype_str r x))) (keep_rows ?K c))"
    by (simp add: 9 8 7 s6 n split: option.splits)
  have c4: "map_of out ''is_sustainable'' = Some
      (case map_of ?S ''sustainability_tags'' of
         None \<Rightarrow> replicate ?m (Bool False)
       | Some c \<Rightarrow> map (\<lambda>x. Bool (notna x)) (keep_rows ?K c))"
    by (simp add: 9 8 s7 n split: option.splits)
  have c5: "map_of out ''is_sponsored'' = Some
      (case map_of ?S ''is_sponsored'' of
         None \<Rightarrow> replicate ?m (Str ''Unknown'')
       | Some c \<Rightarrow> fillna (Bool False) (keep_rows ?K c))"
    by (simp add: 9 s8 n split: option.splits)
  from run[unfolded msgs] c1 c2 c3 c4 c5 show ?thesis
    by blast
qed

lemma missing_original_price:
  assumes "map_of (strip_columns csv) ''discounted_price'' = Some dp"
    and "map_of (strip_columns csv) ''original_price'' = None"
  shows "load_data r csv page = (Inl (KeyError ''original_price''), page)"
proof -
  have "parse_prices r (strip_columns csv) = Inl (KeyError ''original_price'')"
    using assms by (simp add: parse_prices_def getitem_def bind_res_def map_of_setitem)
  then show ?thesis
    by (simp add: load_data_def then_do_quiet_Inl)
qed

lemma no_original_columns:
  "map_of (strip_columns no_original_csv) ''discounted_price'' = Some [Str ''10'']"
  "map_of (strip_columns no_original_csv) ''original_price'' = None"
  by (simp_all add: no_original_csv_def strip_columns_def strip_def py_isspace_def)

lemma coupon_text_rule:
  "(3 < length (astype_str r x)) = (notna x \<and> 3 < length (astype_str r x))"
  by (cases "x = Float NaN") (simp_all add: notna_def isna_def)

lemma astype_bool_false_iff:
  "(\<not> astype_bool x) = (x \<in> {Str [], Integer 0, Float (Fin 0), Bool False})"
proof (cases x)
  case (Float f)
  then show ?thesis by (cases f) simp_all
qed simp_all

lemma frac_digits_zero: "frac_digits k 0 = []"
  by (cases k) simp_all

lemma positional_examples:
  "positional_repr 10 = ''10.0''"
  "positional_repr 20 = ''20.0''"
  "positional_repr 12 = ''12.0''"
  by (simp_all add: positional_repr_def Let_def frac_digits_zero str_nat.simps digit_char_def)

lemma float_price_examples:
  "price_value positional_repr (Float (Fin 10)) = Fin 10"
  "price_value positional_repr (Float (Fin 20)) = Fin 20"
  "price_value positional_repr (Float (Fin 12)) = Fin 12"
  by (simp_all add: positional_examples reader_defs)

lemma unrated_columns:
  "map_of (strip_columns unrated_csv) ''discounted_price'' = Some [Float (Fin 10), Float (Fin 20)]"
  "map_of (strip_columns unrated_csv) ''original_price'' = Some [Float (Fin 12), Float (Fin 20)]"
  "map_of (strip_columns unrated_csv) ''product_rating'' = Some [Float NaN, Float NaN]"
  "map_of (strip_columns unrated_csv) ''total_reviews'' = Some [Integer 3, Integer 0]"
  "map_of (strip_columns unrated_csv) ''purchased_last_month'' = Some [Integer 2, Integer 1]"
  by (simp_all add: unrated_csv_def strip_columns_def strip_def py_isspace_def)


section \<open>Decimal numerals and what the reader accepts\<close>

text \<open>
  The scanner of the reader accepts exactly the decimal numerals of \<open>is_numeral\<close>: what
  it accepts is a numeral (soundness), and it accepts every numeral (completeness). A
  numeral may still read as NaN, when it is out of the range of a float.
\<close>

lemma dropWhile_Nil_all: "dropWhile P xs = [] \<Longrightarrow> list_all P xs"
  by (simp add: list_all_iff dropWhile_eq_Nil_conv)

lemma takeWhile_all: "list_all P (takeWhile P xs)"
  by (auto simp add: list_all_iff dest: set_takeWhileD)

lemma starts_with_Cons: "starts_with cs p \<Longrightarrow> \<exists>c. c \<in> set cs \<and> p = c # tl p"
  by (cases p) (simp_all add: starts_with_def)

lemma is_sign_Cons: "is_sign p \<Longrightarrow> p = hd p # tl p \<and> [hd p] \<in> set [[], ''-'', ''+'']"
  by (cases p) (auto simp add: is_sign_def)

lemma scan_unsigned_sound:
  assumes "scan_unsigned p = Some x"
  shows "is_unsigned_numeral p"
proof -
  define ip where "ip = takeWhile is_digit p"
  define p2 where "p2 = dropWhile is_digit p"
  define hp where "hp = starts_with ''.'' p2"
  define fp where "fp = (if hp then takeWhile is_digit (tl p2) else [])"
  define p3 where "p3 = (if hp then dropWhile is_digit (tl p2) else p2)"
  define he where "he = starts_with ''eE'' p3"
  define p4 where "p4 = (if he \<and> is_sign (tl p3) then tl (tl p3) else tl p3)"
  define ed where "ed = (if he then takeWhile is_digit p4 else [])"
  define p5 where "p5 = (if he \<and> ed \<noteq> [] then dropWhile is_digit p4 else p3)"
  have eq: "scan_unsigned p =
      (if ip = [] \<and> fp = [] then None
       else if dropWhile isspace_ascii p5 \<noteq> [] then None
       else Some (ip, fp, he \<and> is_minus (tl p3), ed))"
    unfolding scan_unsigned_def Let_def ip_def p2_def hp_def fp_def p3_def he_def p4_def ed_def
      p5_def by (rule refl)
  from assms have digit: "\<not> (ip = [] \<and> fp = [])" and rest: "dropWhile isspace_ascii p5 = []"
    unfolding eq by (auto dest: guarded_Some)
  have blanks: "all_blanks p5"
    using rest by (simp add: all_blanks_def dropWhile_Nil_all)
  have p: "p = ip @ p2"
    by (simp add: ip_def p2_def)
  have dip: "all_digits ip"
    by (simp add: ip_def all_digits_def takeWhile_all)
  define fr where "fr = (if hp then CHR ''.'' # fp else [])"
  have p2: "p2 = fr @ p3"
  proof (cases hp)
    case True
    then obtain c where "c \<in> set ''.''" "p2 = c # tl p2"
      unfolding hp_def by (blast dest: starts_with_Cons)
    then have "p2 = CHR ''.'' # tl p2" by simp
    moreover have "tl p2 = fp @ p3"
      using True by (simp add: fp_def p3_def)
    ultimately show ?thesis
      using True by (simp add: fr_def)
  next
    case False
    then show ?thesis by (simp add: fr_def p3_def)
  qed
  have fr: "is_fraction fr"
    by (auto simp add: is_fraction_def fr_def fp_def all_digits_def takeWhile_all)
  have some: "ip \<noteq> [] \<or> 1 < length fr"
    using digit by (cases hp) (auto simp add: fr_def fp_def)
  define ex where "ex = (if he \<and> ed \<noteq> []
      then hd p3 # (if is_sign (tl p3) then [hd (tl p3)] else []) @ ed else [])"
  have p3: "p3 = ex @ p5" and ex: "is_exponent ex"
  proof -
    show "p3 = ex @ p5"
    proof (cases "he \<and> ed \<noteq> []")
      case True
      then obtain c where c: "c \<in> set ''eE''" "p3 = c # tl p3"
        unfolding he_def by (blast dest: starts_with_Cons)
      have t: "tl p3 = (if is_sign (tl p3) then [hd (tl p3)] else []) @ p4"
        using True is_sign_Cons[of "tl p3"] by (auto simp add: p4_def)
      have "ed = takeWhile is_digit p4"
        using True by (simp add: ed_def)
      moreover have "p5 = dropWhile is_digit p4"
        using True by (simp add: p5_def)
      ultimately have "p4 = ed @ p5"
        by simp
      with c t True show ?thesis
        by (metis append_Cons append_assoc ex_def list.sel(1))
    next
      case False
      have "ex = []"
        unfolding ex_def using False by (rule if_not_P)
      moreover have "p5 = p3"
        unfolding p5_def using False by (rule if_not_P)
      ultimately show ?thesis by simp
    qed
    show "is_exponent ex"
    proof (cases "he \<and> ed \<noteq> []")
      case True
      then obtain c where c: "c \<in> set ''eE''" "p3 = c # tl p3"
        unfolding he_def by (blast dest: starts_with_Cons)
      then have "hd p3 \<in> set ''eE''"
        by (metis list.sel(1))
      moreover have "(if is_sign (tl p3) then [hd (tl p3)] else []) \<in> set [[], ''-'', ''+'']"
        using is_sign_Cons[of "tl p3"] by auto
      moreover have "all_digits ed"
        by (simp add: ed_def all_digits_def takeWhile_all)
      moreover have "ex = hd p3 # (if is_sign (tl p3) then [hd (tl p3)] else []) @ ed"
        using True by (simp add: ex_def)
      ultimately show ?thesis
        using True unfolding is_exponent_def by blast
    next
      case False
      have "ex = []"
        unfolding ex_def using False by (rule if_not_P)
      then show ?thesis by (simp add: is_exponent_def)
    qed
  qed
  have "p = ip @ fr @ ex @ p5"
    using p p2 p3 by simp
  with dip fr some ex blanks show ?thesis
    unfolding is_unsigned_numeral_def by blast
qed

lemma to_double_sound:
  assumes "to_double t = Some v"
  shows "is_numeral t"
proof -
  define ws where "ws = takeWhile isspace_ascii t"
  define p0 where "p0 = dropWhile isspace_ascii t"
  define sg where "sg = (if is_sign p0 then [hd p0] else [])"
  define p1 where "p1 = (if is_sign p0 then tl p0 else p0)"
  from assms obtain x where "scan_unsigned p1 = Some x"
    unfolding to_double_def Let_def p1_def p0_def by (auto split: option.splits)
  then have "is_unsigned_numeral p1"
    by (rule scan_unsigned_sound)
  moreover have "t = ws @ sg @ p1"
    using is_sign_Cons[of p0] by (auto simp add: ws_def p0_def sg_def p1_def)
  moreover have "all_blanks ws"
    by (simp add: ws_def all_blanks_def takeWhile_all)
  moreover have "sg \<in> set [[], ''-'', ''+'']"
    using is_sign_Cons[of p0] by (auto simp add: sg_def)
  ultimately show ?thesis
    unfolding is_numeral_def by blast
qed

lemma not_numeral_is_nan:
  assumes "\<not> is_numeral t"
    and "map lower_ascii t \<notin>
           set [''inf'', ''+inf'', ''infinity'', ''+infinity'', ''-inf'', ''-infinity'']"
  shows "to_numeric_str t = NaN"
proof -
  have "to_double t = None"
    using assms(1) to_double_sound by (cases "to_double t") auto
  then show ?thesis
    using assms(2) by (simp add: to_numeric_str_def Let_def)
qed

subsection \<open>Every numeral is accepted\<close>

lemma scan_segment:
  assumes "list_all P xs" and "ys = [] \<or> \<not> P (hd ys)"
  shows "takeWhile P (xs @ ys) = xs" and "dropWhile P (xs @ ys) = ys"
proof -
  have t: "takeWhile P ys = []" and d: "dropWhile P ys = ys"
    using assms(2) by (cases ys; simp)+
  from assms(1) have all: "\<And>x. x \<in> set xs \<Longrightarrow> P x"
    by (simp add: list_all_iff)
  show "takeWhile P (xs @ ys) = xs"
    using takeWhile_append2[of xs P ys] all t by simp
  show "dropWhile P (xs @ ys) = ys"
    using dropWhile_append2[of xs P ys] all d by simp
qed

lemma blank_class:
  "isspace_ascii c \<Longrightarrow>
   \<not> is_digit c \<and> c \<noteq> CHR ''.'' \<and> c \<notin> set ''eE'' \<and> c \<noteq> CHR ''-'' \<and> c \<noteq> CHR ''+''"
  by (auto simp add: isspace_ascii_def is_digit_def)

lemma digit_class:
  "is_digit c \<Longrightarrow>
   \<not> isspace_ascii c \<and> c \<noteq> CHR ''.'' \<and> c \<notin> set ''eE'' \<and> c \<noteq> CHR ''-'' \<and> c \<noteq> CHR ''+''"
  by (auto simp add: isspace_ascii_def is_digit_def)

lemma letter_class: "c \<in> set ''eE'' \<Longrightarrow> \<not> is_digit c \<and> \<not> isspace_ascii c \<and> c \<noteq> CHR ''.''"
  by (auto simp add: isspace_ascii_def is_digit_def)

lemma blanks_head: "all_blanks ws \<Longrightarrow> ws = [] \<or> isspace_ascii (hd ws)"
  by (cases ws) (simp_all add: all_blanks_def)

lemma digits_head: "all_digits ds \<Longrightarrow> ds = [] \<or> is_digit (hd ds)"
  by (cases ds) (simp_all add: all_digits_def)

lemma scan_unsigned_complete:
  assumes "is_unsigned_numeral p"
  shows "\<exists>x. scan_unsigned p = Some x"
proof -
  from assms obtain ip fr ex ws where p: "p = ip @ fr @ ex @ ws"
    and ip: "all_digits ip" and fr: "is_fraction fr" and some: "ip \<noteq> [] \<or> 1 < length fr"
    and ex: "is_exponent ex" and ws: "all_blanks ws"
    unfolding is_unsigned_numeral_def by blast
  define fp where "fp = tl fr"
  have fr': "fr = [] \<or> (fr = CHR ''.'' # fp \<and> all_digits fp)"
    using fr by (auto simp add: is_fraction_def fp_def)
  have ws_nd: "ws = [] \<or> \<not> is_digit (hd ws)"
    using blanks_head[OF ws] blank_class by blast
  have ex_head: "ex = [] \<or> hd ex \<in> set ''eE''"
    using ex by (auto simp add: is_exponent_def)
  have exws_nd: "ex @ ws = [] \<or> \<not> is_digit (hd (ex @ ws))"
    using ex_head ws_nd letter_class by (cases ex) auto
  have tail_nd: "fr @ ex @ ws = [] \<or> \<not> is_digit (hd (fr @ ex @ ws))"
    using fr' exws_nd by (auto simp add: is_digit_def)
  have tk: "takeWhile is_digit p = ip" and dr: "dropWhile is_digit p = fr @ ex @ ws"
    unfolding p using scan_segment[OF ip[unfolded all_digits_def] tail_nd] by simp_all
  have exws_np: "\<not> starts_with ''.'' (ex @ ws)"
  proof (cases ex)
    case Nil
    then show ?thesis
      using blanks_head[OF ws] blank_class by (cases ws) (auto simp add: starts_with_def)
  next
    case (Cons c cs)
    then show ?thesis
      using ex_head letter_class[of c] by (auto simp add: starts_with_def)
  qed
  define frac where "frac = (if fr = [] then [] else fp)"
  have hp: "starts_with ''.'' (fr @ ex @ ws) = (fr \<noteq> [])"
    using fr' exws_np by (auto simp add: starts_with_def)
  have fpart: "(if starts_with ''.'' (fr @ ex @ ws)
                then takeWhile is_digit (tl (fr @ ex @ ws)) else []) = frac"
    and p3: "(if starts_with ''.'' (fr @ ex @ ws)
                then dropWhile is_digit (tl (fr @ ex @ ws)) else fr @ ex @ ws) = ex @ ws"
  proof -
    show "(if starts_with ''.'' (fr @ ex @ ws)
                then takeWhile is_digit (tl (fr @ ex @ ws)) else []) = frac"
    proof (cases "fr = []")
      case True
      then show ?thesis using hp by (simp add: frac_def)
    next
      case False
      then have f: "fr = CHR ''.'' # fp" "all_digits fp" using fr' by auto
      then show ?thesis
        using hp False scan_segment(1)[OF f(2)[unfolded all_digits_def] exws_nd]
        by (simp add: frac_def)
    qed
    show "(if starts_with ''.'' (fr @ ex @ ws)
                then dropWhile is_digit (tl (fr @ ex @ ws)) else fr @ ex @ ws) = ex @ ws"
    proof (cases "fr = []")
      case True
      then show ?thesis using hp by simp
    next
      case False
      then have f: "fr = CHR ''.'' # fp" "all_digits fp" using fr' by auto
      then show ?thesis
        using hp False scan_segment(2)[OF f(2)[unfolded all_digits_def] exws_nd]
        by simp
    qed
  qed
  have digit: "\<not> (ip = [] \<and> frac = [])"
    using some fr' by (auto simp add: frac_def)
  have he: "starts_with ''eE'' (ex @ ws) = (ex \<noteq> [])"
  proof (cases ex)
    case Nil
    then show ?thesis
      using blanks_head[OF ws] blank_class by (cases ws) (auto simp add: starts_with_def)
  next
    case (Cons c cs)
    then show ?thesis
      using ex_head by (auto simp add: starts_with_def)
  qed
  have tail: "\<exists>ed. ed \<noteq> [] \<and>
      takeWhile is_digit (if is_sign (tl (ex @ ws)) then tl (tl (ex @ ws)) else tl (ex @ ws)) = ed \<and>
      dropWhile is_digit (if is_sign (tl (ex @ ws)) then tl (tl (ex @ ws)) else tl (ex @ ws)) = ws"
    if "ex \<noteq> []"
  proof -
    from ex that obtain e sg ed where e: "ex = e # sg @ ed" "sg \<in> set [[], ''-'', ''+'']"
      "all_digits ed" "ed \<noteq> []"
      unfolding is_exponent_def by blast
    have t: "tl (ex @ ws) = sg @ ed @ ws"
      by (simp add: e(1))
    have "is_digit (hd ed)"
      using digits_head[OF e(3)] e(4) by simp
    then have ns: "\<not> is_sign (ed @ ws)"
      using e(4) digit_class[of "hd ed"] by (cases ed) (auto simp add: is_sign_def)
    have "(if is_sign (tl (ex @ ws)) then tl (tl (ex @ ws)) else tl (ex @ ws)) = ed @ ws"
      using e(2) ns unfolding t by (auto simp add: is_sign_def)
    then show ?thesis
      using scan_segment[OF e(3)[unfolded all_digits_def] ws_nd] e(4) by simp
  qed
  have rest: "dropWhile isspace_ascii ws = []"
    using ws by (simp add: all_blanks_def list_all_iff dropWhile_eq_Nil_conv)
  define ip' where "ip' = takeWhile is_digit p"
  define p2 where "p2 = dropWhile is_digit p"
  define hp where "hp = starts_with ''.'' p2"
  define fp' where "fp' = (if hp then takeWhile is_digit (tl p2) else [])"
  define p3' where "p3' = (if hp then dropWhile is_digit (tl p2) else p2)"
  define he' where "he' = starts_with ''eE'' p3'"
  define p4 where "p4 = (if he' \<and> is_sign (tl p3') then tl (tl p3') else tl p3')"
  define ed' where "ed' = (if he' then takeWhile is_digit p4 else [])"
  define p5 where "p5 = (if he' \<and> ed' \<noteq> [] then dropWhile is_digit p4 else p3')"
  have eq: "scan_unsigned p =
      (if ip' = [] \<and> fp' = [] then None
       else if dropWhile isspace_ascii p5 \<noteq> [] then None
       else Some (ip', fp', he' \<and> is_minus (tl p3'), ed'))"
    unfolding scan_unsigned_def Let_def ip'_def p2_def hp_def fp'_def p3'_def he'_def p4_def
      ed'_def p5_def by (rule refl)
  have 1: "ip' = ip" "p2 = fr @ ex @ ws"
    by (simp_all add: ip'_def p2_def tk dr)
  have 2: "fp' = frac" "p3' = ex @ ws"
    unfolding fp'_def p3'_def hp_def 1 using fpart p3 by simp_all
  have 3: "he' = (ex \<noteq> [])"
    unfolding he'_def 2 by (rule he)
  have 5: "p5 = ws"
  proof (cases "ex = []")
    case True
    then have "\<not> he'" using 3 by simp
    then have "p5 = p3'" by (simp add: p5_def)
    then show ?thesis using True 2 by simp
  next
    case False
    from tail[OF False] obtain ed where ed: "ed \<noteq> []"
      "takeWhile is_digit (if is_sign (tl (ex @ ws)) then tl (tl (ex @ ws)) else tl (ex @ ws)) = ed"
      "dropWhile is_digit (if is_sign (tl (ex @ ws)) then tl (tl (ex @ ws)) else tl (ex @ ws)) = ws"
      by blast
    have he: "he'" using False 3 by simp
    then have p4: "p4 = (if is_sign (tl (ex @ ws)) then tl (tl (ex @ ws)) else tl (ex @ ws))"
      by (simp add: p4_def 2)
    have "ed' = ed"
      using he ed(2) by (simp add: ed'_def p4)
    then have "p5 = dropWhile is_digit p4"
      using he ed(1) by (simp add: p5_def)
    then show ?thesis
      using ed(3) by (simp add: p4)
  qed
  have "\<not> (ip' = [] \<and> fp' = [])"
    using digit by (simp add: 1 2)
  moreover have "\<not> dropWhile isspace_ascii p5 \<noteq> []"
    using rest by (simp add: 5)
  ultimately show ?thesis
    unfolding eq by simp
qed

lemma unsigned_head:
  assumes "is_unsigned_numeral p"
  shows "p \<noteq> [] \<and> (is_digit (hd p) \<or> hd p = CHR ''.'')"
proof -
  from assms obtain ip fr ex ws where p: "p = ip @ fr @ ex @ ws"
    and ip: "all_digits ip" and fr: "is_fraction fr" and some: "ip \<noteq> [] \<or> 1 < length fr"
    unfolding is_unsigned_numeral_def by blast
  show ?thesis
  proof (cases ip)
    case Nil
    with some fr obtain fp where "fr = CHR ''.'' # fp"
      by (auto simp add: is_fraction_def)
    with Nil show ?thesis by (simp add: p)
  next
    case (Cons c cs)
    with ip show ?thesis by (simp add: p all_digits_def)
  qed
qed

lemma numeral_iff_scanned:
  "is_numeral t \<longleftrightarrow>
   (\<exists>x. scan_unsigned (if is_sign (dropWhile isspace_ascii t)
                        then tl (dropWhile isspace_ascii t)
                        else dropWhile isspace_ascii t) = Some x)"
proof
  assume "is_numeral t"
  then obtain ws sg p where t: "t = ws @ sg @ p" and ws: "all_blanks ws"
    and sg: "sg \<in> set [[], ''-'', ''+'']" and p: "is_unsigned_numeral p"
    unfolding is_numeral_def by blast
  from unsigned_head[OF p] have hd: "p \<noteq> []" "is_digit (hd p) \<or> hd p = CHR ''.''"
    by simp_all
  have nb: "\<not> isspace_ascii (hd (sg @ p))" and sign: "is_sign (sg @ p) = (sg \<noteq> [])"
    using sg hd digit_class[of "hd p"]
    by (cases p; auto simp add: isspace_ascii_def is_sign_def)+
  have "dropWhile isspace_ascii t = sg @ p"
    unfolding t using scan_segment(2)[OF ws[unfolded all_blanks_def], of "sg @ p"] nb by simp
  moreover have "(if is_sign (sg @ p) then tl (sg @ p) else sg @ p) = p"
    using sg sign by auto
  ultimately show "\<exists>x. scan_unsigned (if is_sign (dropWhile isspace_ascii t)
                        then tl (dropWhile isspace_ascii t)
                        else dropWhile isspace_ascii t) = Some x"
    using scan_unsigned_complete[OF p] by (simp only:)
next
  let ?p0 = "dropWhile isspace_ascii t"
  let ?p1 = "if is_sign ?p0 then tl ?p0 else ?p0"
  assume "\<exists>x. scan_unsigned ?p1 = Some x"
  then obtain x where "scan_unsigned ?p1 = Some x" by blast
  then have "is_unsigned_numeral ?p1"
    by (rule scan_unsigned_sound)
  moreover have "t = takeWhile isspace_ascii t @ (if is_sign ?p0 then [hd ?p0] else []) @ ?p1"
    using is_sign_Cons[of ?p0] by auto
  moreover have "all_blanks (takeWhile isspace_ascii t)"
    by (simp add: all_blanks_def takeWhile_all)
  moreover have "(if is_sign ?p0 then [hd ?p0] else []) \<in> set [[], ''-'', ''+'']"
    using is_sign_Cons[of ?p0] by auto
  ultimately show "is_numeral t"
    unfolding is_numeral_def by blast
qed

lemma takeWhile_none: "\<forall>x\<in>set xs. \<not> P x \<Longrightarrow> takeWhile P xs = []"
  by (cases xs) simp_all

lemma in_set_tl: "x \<in> set (tl xs) \<Longrightarrow> x \<in> set xs"
  by (cases xs) simp_all

lemma scan_unsigned_no_digit:
  assumes "\<forall>x\<in>set p. \<not> is_digit x"
  shows "scan_unsigned p = None"
proof -
  have a: "takeWhile is_digit p = []"
    using assms by (rule takeWhile_none)
  have "\<forall>x\<in>set (tl (dropWhile is_digit p)). \<not> is_digit x"
    using assms by (meson in_set_tl set_dropWhileD)
  then have b: "takeWhile is_digit (tl (dropWhile is_digit p)) = []"
    by (rule takeWhile_none)
  show ?thesis
    by (simp add: scan_unsigned_def Let_def a b)
qed

lemma to_double_no_digit:
  assumes "\<forall>x\<in>set t. \<not> is_digit x"
  shows "to_double t = None"
proof -
  let ?p0 = "dropWhile isspace_ascii t"
  have "\<forall>x\<in>set ?p0. \<not> is_digit x"
    using assms by (meson set_dropWhileD)
  moreover from this have "\<forall>x\<in>set (tl ?p0). \<not> is_digit x"
    by (meson in_set_tl)
  ultimately have "scan_unsigned (if is_sign ?p0 then tl ?p0 else ?p0) = None"
    by (simp add: scan_unsigned_no_digit)
  then show ?thesis
    by (simp add: to_double_def Let_def)
qed

subsection \<open>The words for infinity\<close>

lemma lower_ascii_digit:
  assumes "is_digit c"
  shows "lower_ascii c = c"
proof -
  have "\<forall>d\<in>set ''0123456789''. lower_ascii d = d"
    by (simp add: lower_ascii_def)
  then show ?thesis
    using assms unfolding is_digit_def by (rule bspec)
qed

lemma word_letters:
  "w \<in> set [''inf'', ''+inf'', ''infinity'', ''+infinity'', ''-inf'', ''-infinity''] \<Longrightarrow>
   set w \<subseteq> set ''inf+ity-''"
  by auto

lemma plus_words:
  "w \<in> set [''inf'', ''+inf'', ''infinity'', ''+infinity''] \<Longrightarrow>
   w \<in> set [''inf'', ''+inf'', ''infinity'', ''+infinity'', ''-inf'', ''-infinity'']"
  by auto

lemma no_digit_letters: "\<forall>x\<in>set ''inf+ity-''. \<not> is_digit x"
  by (simp add: is_digit_def)

lemma word_has_no_digit:
  assumes "map lower_ascii t \<in>
             set [''inf'', ''+inf'', ''infinity'', ''+infinity'', ''-inf'', ''-infinity'']"
  shows "\<forall>x\<in>set t. \<not> is_digit x"
proof
  fix x assume x: "x \<in> set t"
  show "\<not> is_digit x"
  proof
    assume d: "is_digit x"
    have "lower_ascii x \<in> set (map lower_ascii t)"
      using x by (simp only: set_map) (rule imageI)
    then have "x \<in> set (map lower_ascii t)"
      by (simp only: lower_ascii_digit[OF d])
    with word_letters[OF assms] have "x \<in> set ''inf+ity-''"
      by (rule_tac subsetD)
    with no_digit_letters have "\<not> is_digit x"
      by (rule bspec)
    with d show False
      by (rule_tac notE)
  qed
qed

lemma no_digit_after_sign:
  assumes "\<forall>x\<in>set t. \<not> is_digit x"
  shows "\<forall>x\<in>set (if is_sign (dropWhile isspace_ascii t)
                        then tl (dropWhile isspace_ascii t)
                        else dropWhile isspace_ascii t). \<not> is_digit x"
proof (cases "is_sign (dropWhile isspace_ascii t)")
  case True
  have "\<forall>x\<in>set (tl (dropWhile isspace_ascii t)). \<not> is_digit x"
    using assms by (meson in_set_tl set_dropWhileD)
  then show ?thesis
    using True by (simp only: if_True)
next
  case False
  have "\<forall>x\<in>set (dropWhile isspace_ascii t). \<not> is_digit x"
    using assms by (meson set_dropWhileD)
  then show ?thesis
    using False by (simp only: if_False)
qed

lemma no_digit_not_numeral:
  assumes "\<forall>x\<in>set t. \<not> is_digit x"
  shows "\<not> is_numeral t"
proof -
  have "scan_unsigned (if is_sign (dropWhile isspace_ascii t)
                        then tl (dropWhile isspace_ascii t)
                        else dropWhile isspace_ascii t) = None"
    using no_digit_after_sign[OF assms] by (rule scan_unsigned_no_digit)
  then have "\<not> (\<exists>x. scan_unsigned (if is_sign (dropWhile isspace_ascii t)
                        then tl (dropWhile isspace_ascii t)
                        else dropWhile isspace_ascii t) = Some x)"
    by (simp only: option.distinct not_False_eq_True simp_thms)
  then show ?thesis
    by (simp only: numeral_iff_scanned not_False_eq_True)
qed

lemma infinity_word_reads_infinity:
  assumes "map lower_ascii t \<in> set [''inf'', ''+inf'', ''infinity'', ''+infinity'']"
  shows "to_numeric_str t = PInf" and "\<not> is_numeral t"
proof -
  have nd: "\<forall>x\<in>set t. \<not> is_digit x"
    using plus_words[OF assms] by (rule word_has_no_digit)
  then have "to_double t = None"
    by (rule to_double_no_digit)
  then have "to_numeric_str t =
      (if map lower_ascii t \<in> set [''inf'', ''+inf'', ''infinity'', ''+infinity''] then PInf
       else if map lower_ascii t \<in> set [''-inf'', ''-infinity''] then NInf
       else NaN)"
    by (simp only: to_numeric_str_def Let_def option.case)
  also have "\<dots> = PInf"
    using assms by (rule if_P)
  finally show "to_numeric_str t = PInf" .
  show "\<not> is_numeral t"
    using nd by (rule no_digit_not_numeral)
qed

subsection \<open>Examples of texts\<close>

lemma reading_examples:
  "to_numeric_str ''$10'' = NaN"
  "to_numeric_str ''12abc'' = NaN"
  "to_numeric_str ''10 USD'' = NaN"
  "to_numeric_str ''1e400'' = NaN"
  "to_numeric_str ''Infinity'' = PInf"
  "to_numeric_str ''1e3'' = Fin 1000"
  by (simp_all add: reader_defs)

lemma reading_out_of_range:
  "to_numeric_str ''1.8e308'' = NaN"
  "to_numeric_str ''1.7e308'' = Fin (17 * 10 ^ 307)"
  by (simp_all add: reader_defs Let_def)

lemma not_numeral_examples:
  "\<not> is_numeral ''$10''"
  "\<not> is_numeral ''12abc''"
  "\<not> is_numeral ''10 USD''"
  "\<not> is_numeral ''Free''"
  "\<not> is_numeral ''Infinity''"
  by (simp_all add: numeral_iff_scanned scan_unsigned_def is_minus_def is_sign_def starts_with_def
      isspace_ascii_def is_digit_def)

lemma numeral_examples:
  "is_numeral ''89.68''"
  "is_numeral ''1e400''"
  "is_numeral ''10''"
  by (auto simp add: numeral_iff_scanned scan_unsigned_def is_minus_def is_sign_def starts_with_def
      isspace_ascii_def is_digit_def)

subsection \<open>Prices in terms of the text read\<close>

lemma minus_words:
  "w \<in> set [''-inf'', ''-infinity''] \<Longrightarrow>
   w \<notin> set [''inf'', ''+inf'', ''infinity'', ''+infinity'']"
  by auto

lemma minus_in_words:
  "w \<in> set [''-inf'', ''-infinity''] \<Longrightarrow>
   w \<in> set [''inf'', ''+inf'', ''infinity'', ''+infinity'', ''-inf'', ''-infinity'']"
  by auto

lemma not_minus_words:
  "w \<noteq> ''-inf'' \<Longrightarrow> w \<noteq> ''-infinity'' \<Longrightarrow> w \<notin> set [''-inf'', ''-infinity'']"
  by auto

lemma six_words:
  "w \<notin> set [''inf'', ''+inf'', ''infinity'', ''+infinity''] \<Longrightarrow>
   w \<notin> set [''-inf'', ''-infinity''] \<Longrightarrow>
   w \<notin> set [''inf'', ''+inf'', ''infinity'', ''+infinity'', ''-inf'', ''-infinity'']"
  by auto

lemma minus_word_reads_minus_infinity:
  assumes "map lower_ascii t \<in> set [''-inf'', ''-infinity'']"
  shows "to_numeric_str t = NInf"
proof -
  have "map lower_ascii t \<in>
          set [''inf'', ''+inf'', ''infinity'', ''+infinity'', ''-inf'', ''-infinity'']"
    using assms by (rule minus_in_words)
  then have "\<forall>x\<in>set t. \<not> is_digit x"
    by (rule word_has_no_digit)
  then have "to_double t = None"
    by (rule to_double_no_digit)
  then have "to_numeric_str t =
      (if map lower_ascii t \<in> set [''inf'', ''+inf'', ''infinity'', ''+infinity''] then PInf
       else if map lower_ascii t \<in> set [''-inf'', ''-infinity''] then NInf
       else NaN)"
    by (simp only: to_numeric_str_def Let_def option.case)
  also have "\<dots> = (if map lower_ascii t \<in> set [''-inf'', ''-infinity''] then NInf else NaN)"
    using minus_words[OF assms] by (rule if_not_P)
  also have "\<dots> = NInf"
    using assms by (rule if_P)
  finally show ?thesis .
qed

lemma to_double_bounds:
  assumes "to_double s = Some v"
  shows "- float64_overflow < v \<and> v < float64_overflow"
proof -
  from assms obtain x m where "magnitude (fst x) (fst (snd x)) (fst (snd (snd x))) (snd (snd (snd x))) = Some m"
    and v: "v = m \<or> v = - m"
    by (auto simp add: to_double_def Let_def split: option.splits if_splits)
  then have "0 \<le> m \<and> m < float64_overflow"
    using magnitude_range by blast
  with v show ?thesis
    by auto
qed

lemma finite_reading:
  assumes "to_numeric_str t = Fin v"
  shows "is_numeral t \<and> - float64_overflow < v \<and> v < float64_overflow"
proof (cases "to_double t")
  case None
  then have "to_numeric_str t =
      (if map lower_ascii t \<in> set [''inf'', ''+inf'', ''infinity'', ''+infinity''] then PInf
       else if map lower_ascii t \<in> set [''-inf'', ''-infinity''] then NInf
       else NaN)"
    by (simp only: to_numeric_str_def Let_def option.case)
  then have "to_numeric_str t \<in> {PInf, NInf, NaN}"
    by (simp only: if_split insert_iff) blast
  with assms show ?thesis
    by simp
next
  case (Some w)
  then have "to_numeric_str t = Fin w"
    by (simp only: to_numeric_str_def option.case)
  with assms have "w = v"
    by simp
  with Some to_double_sound[of t v] to_double_bounds[of t v] show ?thesis
    by blast
qed

lemma kept_text_no_minus_word:
  "map lower_ascii (takeWhile (\<lambda>x. x \<noteq> CHR ''-'') s) \<notin> set [''-inf'', ''-infinity'']"
proof -
  let ?t = "takeWhile (\<lambda>x. x \<noteq> CHR ''-'') s"
  have "CHR ''-'' \<notin> set ?t"
    by (auto dest: set_takeWhileD)
  then have ne: "map lower_ascii ?t \<noteq> CHR ''-'' # u" for u
    using lower_ascii_minus by (cases ?t) auto
  show ?thesis
    using ne[of "''inf''"] ne[of "''infinity''"] by (rule not_minus_words)
qed

lemma unreadable_price:
  assumes "\<not> is_numeral (takeWhile (\<lambda>x. x \<noteq> CHR ''-'') (astype_str r c))"
    and "map lower_ascii (takeWhile (\<lambda>x. x \<noteq> CHR ''-'') (astype_str r c)) \<notin>
           set [''inf'', ''+inf'', ''infinity'', ''+infinity'']"
  shows "price_value r c = NaN"
  unfolding price_value_text
  using assms(1) six_words[OF assms(2) kept_text_no_minus_word]
  by (rule not_numeral_is_nan)

lemma infinite_price:
  "(price_value r c = PInf) =
   (map lower_ascii (takeWhile (\<lambda>x. x \<noteq> CHR ''-'') (astype_str r c)) \<in>
      set [''inf'', ''+inf'', ''infinity'', ''+infinity''])"
proof
  assume "price_value r c = PInf"
  then show "map lower_ascii (takeWhile (\<lambda>x. x \<noteq> CHR ''-'') (astype_str r c)) \<in>
      set [''inf'', ''+inf'', ''infinity'', ''+infinity'']"
    using price_value_cases[of r c] by (metis fl.distinct(11) fl.distinct(5))
next
  assume "map lower_ascii (takeWhile (\<lambda>x. x \<noteq> CHR ''-'') (astype_str r c)) \<in>
      set [''inf'', ''+inf'', ''infinity'', ''+infinity'']"
  then show "price_value r c = PInf"
    unfolding price_value_text by (rule infinity_word_reads_infinity(1))
qed

lemma output_price_range:
  "\<forall>x\<in>set (filter (\<lambda>x. x \<noteq> NaN) (map (price_value r) dp)).
     (\<exists>q. x = Fin q \<and> 0 \<le> q \<and> q < float64_overflow) \<or> x = PInf"
proof
  fix x assume "x \<in> set (filter (\<lambda>x. x \<noteq> NaN) (map (price_value r) dp))"
  then obtain c where "x = price_value r c" "x \<noteq> NaN"
    by auto
  then show "(\<exists>q. x = Fin q \<and> 0 \<le> q \<and> q < float64_overflow) \<or> x = PInf"
    using price_value_cases[of r c] by metis
qed

lemma infinity_columns:
  "map_of (strip_columns infinity_csv) ''discounted_price'' = Some [Str ''Infinity'', Str ''10'']"
  "map_of (strip_columns infinity_csv) ''original_price'' = Some [Str ''20'', Str ''20'']"
  "map_of (strip_columns infinity_csv) ''product_rating'' = Some [Float (Fin 4), Float (Fin 5)]"
  "map_of (strip_columns infinity_csv) ''total_reviews'' = Some [Integer 3, Integer 1]"
  "map_of (strip_columns infinity_csv) ''purchased_last_month'' = Some [Integer 2, Integer 1]"
  by (simp_all add: infinity_csv_def strip_columns_def strip_def py_isspace_def)

lemma infinity_rows: "frame_rows 2 infinity_csv"
  by (simp add: infinity_csv_def frame_rows_def)

lemma infinity_price_examples:
  "price_value r (Str ''Infinity'') = PInf"
  "price_value r (Str ''$10'') = NaN"
  "price_value r (Str ''12abc'') = NaN"
  "price_value r (Str ''10 USD'') = NaN"
  "price_value r (Str ''1e400'') = NaN"
  by (simp_all add: reader_defs)

lemma kept_text_examples:
  "to_numeric_str (takeWhile (\<lambda>x. x \<noteq> CHR ''-'') ''89.68-99.99'') = Fin (8968 / 100)"
  "to_numeric_str (takeWhile (\<lambda>x. x \<noteq> CHR ''-'') ''Free'') = NaN"
  "to_numeric_str (takeWhile (\<lambda>x. x \<noteq> CHR ''-'') ''$10'') = NaN"
  "to_numeric_str (takeWhile (\<lambda>x. x \<noteq> CHR ''-'') ''12abc'') = NaN"
  "to_numeric_str (takeWhile (\<lambda>x. x \<noteq> CHR ''-'') ''10 USD'') = NaN"
  "to_numeric_str (takeWhile (\<lambda>x. x \<noteq> CHR ''-'') ''1e400'') = NaN"
  using price_examples(1,2)[of r, unfolded price_value_text]
    infinity_price_examples(2-5)[of r, unfolded price_value_text]
  unfolding astype_str.simps by blast+


section \<open>Properties of the pipeline\<close>

text \<open>
  \<^bold>\<open>C9\<close> (two-run determinism). \<open>load_data\<close> is a function of the raw frame alone. The
  frame or exception it returns does not depend on what the page already shows; a
  second run, started on the page the first run left, returns what the first returned;
  and a run only appends its messages to the page, the same messages from any page.
  (The cache of \<^verbatim>\<open>st.cache_data\<close>, which answers a repeated call without running the
  function, is not part of the model.)
\<close>

theorem load_data_deterministic:
  "fst (load_data r csv page1) = fst (load_data r csv page2) \<and>
   fst (load_data r csv (snd (load_data r csv page1))) = fst (load_data r csv page1) \<and>
   snd (load_data r csv page1) = page1 @ snd (load_data r csv [])"
proof -
  obtain res ws where "\<And>page. load_data r csv page = (res, page @ ws)"
    using load_data_appends[of r csv] by blast
  then show ?thesis by simp
qed

text \<open>
  \<^bold>\<open>C1\<close> (the discounted price of every output row). For a frame of \<open>n\<close> rows that has
  the five columns \<open>load_data\<close> reads without a check, the run succeeds and:
  the \<^verbatim>\<open>discounted_price\<close> column of the output holds, in order, exactly the prices that
  lines 22 to 27 read as something other than NaN; each of them is a finite number from
  zero up to the largest float, or plus infinity; a price reads as plus infinity exactly
  when the text before its first dash is, in any letter case, one of the words
  \<^verbatim>\<open>inf\<close>, \<^verbatim>\<open>+inf\<close>, \<^verbatim>\<open>infinity\<close>, \<^verbatim>\<open>+infinity\<close>; a price whose text before the first dash
  is neither a decimal numeral nor one of these words reads as NaN, so its row is not in
  the output; every column of the output has as many cells as there are rows whose price
  is not NaN; and a column that \<open>load_data\<close> does not assign is the input column without
  the rows whose price is NaN, so dropping those rows is the only removal.
\<close>

theorem discounted_price_valid:
  assumes "map_of (strip_columns csv) ''discounted_price'' = Some dp"
    and "map_of (strip_columns csv) ''original_price'' = Some op"
    and "map_of (strip_columns csv) ''product_rating'' = Some pr"
    and "map_of (strip_columns csv) ''total_reviews'' = Some tr"
    and "map_of (strip_columns csv) ''purchased_last_month'' = Some pl"
    and "frame_rows n csv"
  shows "\<exists>out page'. load_data r csv page = (Inr out, page') \<and>
    map_of out ''discounted_price'' =
      Some (map Float (filter (\<lambda>x. x \<noteq> NaN) (map (price_value r) dp))) \<and>
    (\<forall>x\<in>set (filter (\<lambda>x. x \<noteq> NaN) (map (price_value r) dp)).
       (\<exists>q. x = Fin q \<and> 0 \<le> q \<and> q < float64_overflow) \<or> x = PInf) \<and>
    (\<forall>c. (price_value r c = PInf) =
       (map lower_ascii (takeWhile (\<lambda>x. x \<noteq> CHR ''-'') (astype_str r c)) \<in>
          set [''inf'', ''+inf'', ''infinity'', ''+infinity''])) \<and>
    (\<forall>c. \<not> is_numeral (takeWhile (\<lambda>x. x \<noteq> CHR ''-'') (astype_str r c)) \<and>
       map lower_ascii (takeWhile (\<lambda>x. x \<noteq> CHR ''-'') (astype_str r c)) \<notin>
          set [''inf'', ''+inf'', ''infinity'', ''+infinity''] \<longrightarrow>
       price_value r c = NaN) \<and>
    frame_rows (length (filter (\<lambda>c. price_value r c \<noteq> NaN) dp)) out \<and>
    (\<forall>k c. k \<notin> set written_columns \<longrightarrow> map_of (strip_columns csv) k = Some c \<longrightarrow>
       map_of out k = Some (keep_rows (map (\<lambda>c. price_value r c \<noteq> NaN) dp) c))"
proof -
  from load_data_chain[OF assms(1-5), of r page]
  obtain df2 df3 df4 df5 df6 df7 df8 out page' where run: "load_data r csv page = (Inr out, page')"
    and 2: "\<forall>k. map_of df2 k =
       map_option (keep_rows (map (\<lambda>c. price_value r c \<noteq> NaN) dp))
         (((map_of (strip_columns csv))
            (''discounted_price'' \<mapsto> map (\<lambda>c. Float (price_value r c)) dp,
             ''original_price'' \<mapsto>
               fillna_series (map (\<lambda>c. Float (price_value r c)) dp)
                 (map (\<lambda>c. Float (price_value r c)) op))) k)"
    and 3: "\<exists>x y z. map_of df3 = (map_of df2)
       (''product_rating'' \<mapsto> x, ''total_reviews'' \<mapsto> y, ''purchased_last_month'' \<mapsto> z)"
    and 4: "\<exists>x. map_of df4 = (map_of df3)(''product_category'' \<mapsto> x)"
    and 5: "\<exists>x y. map_of df5 = (map_of df4)
       (''Est. Revenue (Last Month)'' \<mapsto> x, ''Discount %'' \<mapsto> y)"
    and 6: "\<exists>x. map_of df6 = (map_of df5)(''is_best_seller'' \<mapsto> x)"
    and 7: "\<exists>x. map_of df7 = (map_of df6)(''has_coupon_bool'' \<mapsto> x)"
    and 8: "\<exists>x. map_of df8 = (map_of df7)(''is_sustainable'' \<mapsto> x)"
    and 9: "\<exists>x. map_of out = (map_of df8)(''is_sponsored'' \<mapsto> x)"
    and rows: "\<forall>n. frame_rows n csv \<longrightarrow>
       (\<forall>df \<in> {df3, df5, df6, df7, df8, out}.
          frame_rows (length (filter (\<lambda>c. price_value r c \<noteq> NaN) dp)) df)"
    by blast
  have through: "map_of out k = map_of df2 k"
    if "k \<notin> {''product_rating'', ''total_reviews'', ''purchased_last_month'',
      ''product_category'', ''Est. Revenue (Last Month)'', ''Discount %'', ''is_best_seller'',
      ''has_coupon_bool'', ''is_sustainable'', ''is_sponsored''}" for k
    using that 3 4 5 6 7 8 9 by auto
  have "map_of out ''discounted_price'' =
      Some (map Float (filter (\<lambda>x. x \<noteq> NaN) (map (price_value r) dp)))"
    by (simp add: through 2 kept_prices)
  moreover have "frame_rows (length (filter (\<lambda>c. price_value r c \<noteq> NaN) dp)) out"
    using rows assms(6) by blast
  moreover have "map_of out k = Some (keep_rows (map (\<lambda>c. price_value r c \<noteq> NaN) dp) c)"
    if "k \<notin> set written_columns" "map_of (strip_columns csv) k = Some c" for k c
  proof -
    have "map_of out k = map_of df2 k"
      using that(1) by (intro through) (simp add: written_columns_def)
    then show ?thesis
      using that by (simp add: 2 written_columns_def)
  qed
  ultimately show ?thesis
    using run output_price_range[of r dp] infinite_price[of r] unreadable_price[of r] by blast
qed

theorem discounted_price_valid_witness:
  "map_of (strip_columns shop_csv) ''discounted_price'' =
     Some [Str ''89.68-99.99'', Str ''Free'', Str ''50.00'', Str ''10''] \<and>
   map_of (strip_columns shop_csv) ''original_price'' =
     Some [Str ''120'', Str ''5'', Float NaN, Str ''0''] \<and>
   map_of (strip_columns shop_csv) ''product_rating'' =
     Some [Float (Fin 4), Float (Fin 3), Float NaN, Float (Fin 5)] \<and>
   map_of (strip_columns shop_csv) ''total_reviews'' =
     Some [Integer 40, Integer 7, Integer 0, Integer 5] \<and>
   map_of (strip_columns shop_csv) ''purchased_last_month'' =
     Some [Float (Fin 4), Float NaN, Float NaN, Float (Fin 5)] \<and>
   frame_rows 4 shop_csv \<and>
   \<not> is_numeral (takeWhile (\<lambda>x. x \<noteq> CHR ''-'') (astype_str positional_repr (Str ''Free''))) \<and>
   map lower_ascii (takeWhile (\<lambda>x. x \<noteq> CHR ''-'') (astype_str positional_repr (Str ''Free''))) \<notin>
     set [''inf'', ''+inf'', ''infinity'', ''+infinity''] \<and>
   price_value positional_repr (Str ''Free'') = NaN \<and>
   (\<exists>out page'. load_data positional_repr shop_csv [] = (Inr out, page') \<and>
      map_of out ''discounted_price'' = Some [Float (Fin (8968 / 100)), Float (Fin 50), Float (Fin 10)] \<and>
      frame_rows 3 out \<and>
      map_of out ''product_title'' = Some [Str ''A'', Str ''C'', Str ''D''])"
proof -
  from discounted_price_valid[OF shop_columns(1-5) shop_rows, of positional_repr "[]"]
  obtain out page' where run: "load_data positional_repr shop_csv [] = (Inr out, page')"
    and price: "map_of out ''discounted_price'' =
      Some (map Float (filter (\<lambda>x. x \<noteq> NaN) (map (price_value positional_repr)
        [Str ''89.68-99.99'', Str ''Free'', Str ''50.00'', Str ''10''])))"
    and unread: "\<forall>c. \<not> is_numeral (takeWhile (\<lambda>x. x \<noteq> CHR ''-'') (astype_str positional_repr c)) \<and>
       map lower_ascii (takeWhile (\<lambda>x. x \<noteq> CHR ''-'') (astype_str positional_repr c)) \<notin>
          set [''inf'', ''+inf'', ''infinity'', ''+infinity''] \<longrightarrow>
       price_value positional_repr c = NaN"
    and rows: "frame_rows (length (filter (\<lambda>c. price_value positional_repr c \<noteq> NaN)
        [Str ''89.68-99.99'', Str ''Free'', Str ''50.00'', Str ''10''])) out"
    and other: "\<forall>k c. k \<notin> set written_columns \<longrightarrow> map_of (strip_columns shop_csv) k = Some c \<longrightarrow>
       map_of out k = Some (keep_rows (map (\<lambda>c. price_value positional_repr c \<noteq> NaN)
        [Str ''89.68-99.99'', Str ''Free'', Str ''50.00'', Str ''10'']) c)"
    by blast
  have free: "\<not> is_numeral (takeWhile (\<lambda>x. x \<noteq> CHR ''-'') (astype_str positional_repr (Str ''Free'')))"
    "map lower_ascii (takeWhile (\<lambda>x. x \<noteq> CHR ''-'') (astype_str positional_repr (Str ''Free''))) \<notin>
       set [''inf'', ''+inf'', ''infinity'', ''+infinity'']"
    by (simp_all add: not_numeral_examples lower_ascii_def)
  with unread have nan: "price_value positional_repr (Str ''Free'') = NaN"
    by blast
  have "map_of out ''discounted_price'' =
      Some [Float (Fin (8968 / 100)), Float (Fin 50), Float (Fin 10)]"
    using price by (simp add: price_examples)
  moreover have "frame_rows 3 out"
    using rows by (simp add: price_examples numeral_3_eq_3)
  moreover have "map_of out ''product_title'' = Some [Str ''A'', Str ''C'', Str ''D'']"
    using other[rule_format, of "''product_title''", OF _ shop_columns(10)]
    by (simp add: price_examples written_columns_def keep_rows_def)
  ultimately have "load_data positional_repr shop_csv [] = (Inr out, page') \<and>
      map_of out ''discounted_price'' = Some [Float (Fin (8968 / 100)), Float (Fin 50), Float (Fin 10)] \<and>
      frame_rows 3 out \<and>
      map_of out ''product_title'' = Some [Str ''A'', Str ''C'', Str ''D'']"
    using run by blast
  then show ?thesis
    using shop_columns(1-5) shop_rows free nan by blast
qed

text \<open>
  The claim as stated has every output price a non-negative decimal and every row
  without a valid number dropped. The text \<^verbatim>\<open>Infinity\<close> is not a decimal numeral, yet its
  row is kept, with plus infinity for its price.
\<close>

theorem infinity_price_counterexample:
  "map_of (strip_columns infinity_csv) ''discounted_price'' = Some [Str ''Infinity'', Str ''10''] \<and>
   \<not> is_numeral ''Infinity'' \<and>
   column_of (load_data positional_repr infinity_csv []) ''discounted_price'' =
     Some [Float PInf, Float (Fin 10)]"
proof -
  from priced_rows[OF infinity_columns infinity_rows, of positional_repr "[]"]
  have "column_of (load_data positional_repr infinity_csv []) ''discounted_price'' =
     Some [Float PInf, Float (Fin 10)]"
    by (auto simp add: column_of_def infinity_price_examples price_examples)
  then show ?thesis
    using infinity_columns(1) not_numeral_examples(5) by simp
qed

text \<open>
  \<^bold>\<open>C2\<close> (the discount percentage). On the same inputs, with \<open>ds\<close> and \<open>os\<close> the
  discounted and original prices of the output rows, the \<^verbatim>\<open>Discount %\<close> column holds for
  each row the value \<open>discount_percent_spec\<close> of the specification: the quotient clamped
  to the interval from 0 to 100, and 0 where it is undefined. That value always lies in
  the interval, and it is 0 for an original price of zero.
\<close>

theorem discount_percent_clamped:
  assumes "map_of (strip_columns csv) ''discounted_price'' = Some dp"
    and "map_of (strip_columns csv) ''original_price'' = Some op"
    and "map_of (strip_columns csv) ''product_rating'' = Some pr"
    and "map_of (strip_columns csv) ''total_reviews'' = Some tr"
    and "map_of (strip_columns csv) ''purchased_last_month'' = Some pl"
    and "frame_rows n csv"
  shows "\<exists>out page' ds os. load_data r csv page = (Inr out, page') \<and>
    map_of out ''discounted_price'' = Some (map Float ds) \<and>
    map_of out ''original_price'' = Some (map Float os) \<and>
    length os = length ds \<and>
    map_of out ''Discount %'' =
      Some (map (\<lambda>(p, d). Float (Fin (discount_percent_spec p d))) (zip os ds)) \<and>
    (\<forall>p d. 0 \<le> discount_percent_spec p d \<and> discount_percent_spec p d \<le> 100) \<and>
    (\<forall>d. discount_percent_spec (Fin 0) d = 0)"
proof -
  let ?rows = "filter (\<lambda>(d, p). price_value r d \<noteq> NaN) (zip dp op)"
  let ?fd = "\<lambda>(d, p). price_value r d"
  let ?fo = "\<lambda>(d, p). if price_value r p = NaN then price_value r d else price_value r p"
  from priced_rows[OF assms, of r page]
  obtain out page' where run: "load_data r csv page = (Inr out, page')"
    and d: "map_of out ''discounted_price'' = Some (map (\<lambda>x. Float (?fd x)) ?rows)"
    and p: "map_of out ''original_price'' = Some (map (\<lambda>x. Float (?fo x)) ?rows)"
    and c: "map_of out ''Discount %'' =
              Some (map (\<lambda>x. Float (discount_cell (?fo x) (?fd x))) ?rows)"
    by (auto simp add: split_def)
  have cell: "discount_cell (?fo x) (?fd x) = Fin (discount_percent_spec (?fo x) (?fd x))"
    if "x \<in> set ?rows" for x
  proof -
    obtain a b where x: "x = (a, b)" by (cases x)
    with that have "price_value r a \<noteq> NaN" by simp
    then have "zero_up_to_infinity (?fo x)" "zero_up_to_infinity (?fd x)"
      using price_zero_up[of r a] price_zero_up[of r b] by (simp_all add: x)
    then show ?thesis by (rule discount_cell_spec)
  qed
  have "map (\<lambda>x. Float (discount_cell (?fo x) (?fd x))) ?rows =
        map (\<lambda>(p, d). Float (Fin (discount_percent_spec p d)))
          (zip (map ?fo ?rows) (map ?fd ?rows))"
    using cell by (simp add: zip_map_map zip_same_conv_map comp_def)
  with c have "map_of out ''Discount %'' =
      Some (map (\<lambda>(p, d). Float (Fin (discount_percent_spec p d)))
        (zip (map ?fo ?rows) (map ?fd ?rows)))"
    by simp
  moreover have "map_of out ''discounted_price'' = Some (map Float (map ?fd ?rows))"
    "map_of out ''original_price'' = Some (map Float (map ?fo ?rows))"
    using d p by (simp_all add: comp_def)
  moreover have "length (map ?fo ?rows) = length (map ?fd ?rows)"
    by simp
  ultimately show ?thesis
    using run discount_percent_spec_range discount_percent_spec_zero by blast
qed

theorem discount_percent_clamped_witness:
  "map_of (strip_columns shop_csv) ''discounted_price'' =
     Some [Str ''89.68-99.99'', Str ''Free'', Str ''50.00'', Str ''10''] \<and>
   map_of (strip_columns shop_csv) ''original_price'' =
     Some [Str ''120'', Str ''5'', Float NaN, Str ''0''] \<and>
   map_of (strip_columns shop_csv) ''product_rating'' =
     Some [Float (Fin 4), Float (Fin 3), Float NaN, Float (Fin 5)] \<and>
   map_of (strip_columns shop_csv) ''total_reviews'' =
     Some [Integer 40, Integer 7, Integer 0, Integer 5] \<and>
   map_of (strip_columns shop_csv) ''purchased_last_month'' =
     Some [Float (Fin 4), Float NaN, Float NaN, Float (Fin 5)] \<and>
   frame_rows 4 shop_csv \<and>
   (\<exists>out page'. load_data positional_repr shop_csv [] = (Inr out, page') \<and>
      map_of out ''original_price'' = Some [Float (Fin 120), Float (Fin 50), Float (Fin 0)] \<and>
      map_of out ''Discount %'' = Some [Float (Fin (379 / 15)), Float (Fin 0), Float (Fin 0)])"
proof -
  from discount_percent_clamped[OF shop_columns(1-5) shop_rows, of positional_repr "[]"]
  obtain out page' ds os where run: "load_data positional_repr shop_csv [] = (Inr out, page')"
    and d: "map_of out ''discounted_price'' = Some (map Float ds)"
    and p: "map_of out ''original_price'' = Some (map Float os)"
    and c: "map_of out ''Discount %'' =
      Some (map (\<lambda>(p, d). Float (Fin (discount_percent_spec p d))) (zip os ds))"
    by blast
  from priced_rows[OF shop_columns(1-5) shop_rows, of positional_repr "[]"] run
  have "map_of out ''discounted_price'' = Some [Float (Fin (8968 / 100)), Float (Fin 50), Float (Fin 10)]"
    and "map_of out ''original_price'' = Some [Float (Fin 120), Float (Fin 50), Float (Fin 0)]"
    by (auto simp add: shop_priced_rows price_examples)
  with d p have "ds = [Fin (8968 / 100), Fin 50, Fin 10]" "os = [Fin 120, Fin 50, Fin 0]"
    by auto
  with c p have "map_of out ''original_price'' = Some [Float (Fin 120), Float (Fin 50), Float (Fin 0)] \<and>
      map_of out ''Discount %'' = Some [Float (Fin (379 / 15)), Float (Fin 0), Float (Fin 0)]"
    by (simp add: discount_percent_spec_def)
  with run show ?thesis
    using shop_columns(1-5) shop_rows by blast
qed

text \<open>
  \<^bold>\<open>C8\<close> (the original price filled from the discounted price). With \<open>rows\<close> the pairs of
  raw cells (discounted, original) of the rows that are kept, row \<open>i\<close> of the output
  holds the discounted price read from its cell; where the original price reads as NaN
  the output original price is that row's discounted price and its discount percentage
  is 0; where it reads as a number the output keeps it. In \<open>shop_csv\<close> the product with
  no original price and the discounted price \<^verbatim>\<open>50.00\<close> gets the original price 50 and the
  discount 0.
\<close>

theorem original_price_backfill:
  assumes "map_of (strip_columns csv) ''discounted_price'' = Some dp"
    and "map_of (strip_columns csv) ''original_price'' = Some op"
    and "map_of (strip_columns csv) ''product_rating'' = Some pr"
    and "map_of (strip_columns csv) ''total_reviews'' = Some tr"
    and "map_of (strip_columns csv) ''purchased_last_month'' = Some pl"
    and "frame_rows n csv"
    and "rows = filter (\<lambda>(d, p). price_value r d \<noteq> NaN) (zip dp op)"
  shows "\<exists>out page' ds os ps. load_data r csv page = (Inr out, page') \<and>
    map_of out ''discounted_price'' = Some ds \<and>
    map_of out ''original_price'' = Some os \<and>
    map_of out ''Discount %'' = Some ps \<and>
    length ds = length rows \<and> length os = length rows \<and> length ps = length rows \<and>
    (\<forall>i < length rows.
       ds ! i = Float (price_value r (fst (rows ! i))) \<and>
       (price_value r (snd (rows ! i)) = NaN \<longrightarrow>
          os ! i = ds ! i \<and> ps ! i = Float (Fin 0)) \<and>
       (price_value r (snd (rows ! i)) \<noteq> NaN \<longrightarrow>
          os ! i = Float (price_value r (snd (rows ! i)))))"
proof -
  let ?fd = "\<lambda>(d, p). price_value r d"
  let ?fo = "\<lambda>(d, p). if price_value r p = NaN then price_value r d else price_value r p"
  from priced_rows[OF assms(1-6), of r page]
  obtain out page' where run: "load_data r csv page = (Inr out, page')"
    and d: "map_of out ''discounted_price'' = Some (map (\<lambda>x. Float (?fd x)) rows)"
    and p: "map_of out ''original_price'' = Some (map (\<lambda>x. Float (?fo x)) rows)"
    and c: "map_of out ''Discount %'' =
              Some (map (\<lambda>x. Float (discount_cell (?fo x) (?fd x))) rows)"
    unfolding assms(7) by (auto simp add: split_def)
  have same: "discount_cell x x = Fin 0" if "zero_up_to_infinity x" for x
    using discount_cell_spec[OF that that] by (cases x) (simp_all add: discount_percent_spec_def)
  let ?ds = "map (\<lambda>x. Float (?fd x)) rows"
  let ?os = "map (\<lambda>x. Float (?fo x)) rows"
  let ?ps = "map (\<lambda>x. Float (discount_cell (?fo x) (?fd x))) rows"
  have "?ds ! i = Float (price_value r (fst (rows ! i))) \<and>
       (price_value r (snd (rows ! i)) = NaN \<longrightarrow>
          ?os ! i = ?ds ! i \<and> ?ps ! i = Float (Fin 0)) \<and>
       (price_value r (snd (rows ! i)) \<noteq> NaN \<longrightarrow>
          ?os ! i = Float (price_value r (snd (rows ! i))))"
    if "i < length rows" for i
  proof -
    have "rows ! i \<in> set rows" using that by simp
    then have "price_value r (fst (rows ! i)) \<noteq> NaN"
      unfolding assms(7) by (auto simp add: split_def)
    then have "zero_up_to_infinity (price_value r (fst (rows ! i)))"
      by (rule price_zero_up)
    then show ?thesis
      using that by (simp add: split_def same)
  qed
  then have nth: "\<forall>i < length rows.
       ?ds ! i = Float (price_value r (fst (rows ! i))) \<and>
       (price_value r (snd (rows ! i)) = NaN \<longrightarrow>
          ?os ! i = ?ds ! i \<and> ?ps ! i = Float (Fin 0)) \<and>
       (price_value r (snd (rows ! i)) \<noteq> NaN \<longrightarrow>
          ?os ! i = Float (price_value r (snd (rows ! i))))"
    by blast
  have len: "length ?ds = length rows" "length ?os = length rows" "length ?ps = length rows"
    by simp_all
  from run d p c len nth show ?thesis
    by blast
qed

theorem original_price_backfill_witness:
  "map_of (strip_columns shop_csv) ''discounted_price'' =
     Some [Str ''89.68-99.99'', Str ''Free'', Str ''50.00'', Str ''10''] \<and>
   map_of (strip_columns shop_csv) ''original_price'' =
     Some [Str ''120'', Str ''5'', Float NaN, Str ''0''] \<and>
   map_of (strip_columns shop_csv) ''product_rating'' =
     Some [Float (Fin 4), Float (Fin 3), Float NaN, Float (Fin 5)] \<and>
   map_of (strip_columns shop_csv) ''total_reviews'' =
     Some [Integer 40, Integer 7, Integer 0, Integer 5] \<and>
   map_of (strip_columns shop_csv) ''purchased_last_month'' =
     Some [Float (Fin 4), Float NaN, Float NaN, Float (Fin 5)] \<and>
   frame_rows 4 shop_csv \<and>
   [(Str ''89.68-99.99'', Str ''120''), (Str ''50.00'', Float NaN), (Str ''10'', Str ''0'')] =
     filter (\<lambda>(d, p). price_value positional_repr d \<noteq> NaN)
       (zip [Str ''89.68-99.99'', Str ''Free'', Str ''50.00'', Str ''10'']
            [Str ''120'', Str ''5'', Float NaN, Str ''0'']) \<and>
   (\<exists>out page' ds os ps. load_data positional_repr shop_csv [] = (Inr out, page') \<and>
      map_of out ''discounted_price'' = Some ds \<and>
      map_of out ''original_price'' = Some os \<and>
      map_of out ''Discount %'' = Some ps \<and>
      ds ! 1 = Float (Fin 50) \<and> os ! 1 = Float (Fin 50) \<and> ps ! 1 = Float (Fin 0))"
proof -
  let ?rows = "[(Str ''89.68-99.99'', Str ''120''), (Str ''50.00'', Float NaN), (Str ''10'', Str ''0'')]"
  have rows: "?rows = filter (\<lambda>(d, p). price_value positional_repr d \<noteq> NaN)
       (zip [Str ''89.68-99.99'', Str ''Free'', Str ''50.00'', Str ''10'']
            [Str ''120'', Str ''5'', Float NaN, Str ''0''])"
    by (simp only: shop_priced_rows)
  from original_price_backfill[OF shop_columns(1-5) shop_rows rows, of "[]"]
  obtain out page' ds os ps where run: "load_data positional_repr shop_csv [] = (Inr out, page')"
    and cols: "map_of out ''discounted_price'' = Some ds" "map_of out ''original_price'' = Some os"
      "map_of out ''Discount %'' = Some ps"
    and nth: "\<forall>i < length ?rows.
       ds ! i = Float (price_value positional_repr (fst (?rows ! i))) \<and>
       (price_value positional_repr (snd (?rows ! i)) = NaN \<longrightarrow>
          os ! i = ds ! i \<and> ps ! i = Float (Fin 0)) \<and>
       (price_value positional_repr (snd (?rows ! i)) \<noteq> NaN \<longrightarrow>
          os ! i = Float (price_value positional_repr (snd (?rows ! i))))"
    by blast
  from nth[rule_format, of 1]
  have "ds ! 1 = Float (Fin 50) \<and> os ! 1 = Float (Fin 50) \<and> ps ! 1 = Float (Fin 0)"
    by (simp add: price_examples)
  with run cols show ?thesis
    using shop_columns(1-5) shop_rows rows by blast
qed

text \<open>
  \<^bold>\<open>C3\<close>, as amended (the optional columns). \<open>load_data\<close> guards five columns:
  \<^verbatim>\<open>product_category\<close>, \<^verbatim>\<open>is_best_seller\<close>, \<^verbatim>\<open>has_coupon\<close>, \<^verbatim>\<open>sustainability_tags\<close> and
  \<^verbatim>\<open>is_sponsored\<close>. On a frame that has the two price columns and the three numeric
  columns, the run succeeds whichever of the five are absent; the page gains exactly one
  message for each absent one, in this order and nothing else; and each absent one
  gives a default column of the output's \<open>m\<close> rows: \<^verbatim>\<open>'Unknown'\<close> for the category and
  for \<^verbatim>\<open>is_sponsored\<close>, \<^verbatim>\<open>False\<close> for \<^verbatim>\<open>is_best_seller\<close>, \<^verbatim>\<open>has_coupon_bool\<close> and
  \<^verbatim>\<open>is_sustainable\<close>.
\<close>

theorem guarded_columns_default:
  assumes "map_of (strip_columns csv) ''discounted_price'' = Some dp"
    and "map_of (strip_columns csv) ''original_price'' = Some op"
    and "map_of (strip_columns csv) ''product_rating'' = Some pr"
    and "map_of (strip_columns csv) ''total_reviews'' = Some tr"
    and "map_of (strip_columns csv) ''purchased_last_month'' = Some pl"
    and "frame_rows n csv"
    and "m = length (filter (\<lambda>c. price_value r c \<noteq> NaN) dp)"
  shows "\<exists>out. load_data r csv page =
      (Inr out,
       page @
       (if map_of (strip_columns csv) ''product_category'' = None
        then [''Column 'product_category' not found. Please update Line 61. Using 'Unknown' for now.'']
        else []) @
       (if map_of (strip_columns csv) ''is_best_seller'' = None
        then [''Error: Column 'is_best_seller' not found.''] else []) @
       (if map_of (strip_columns csv) ''has_coupon'' = None
        then [''Error: Column 'has_coupon' not found.''] else []) @
       (if map_of (strip_columns csv) ''sustainability_tags'' = None
        then [''Error: Column 'sustainability_tags' not found.''] else []) @
       (if map_of (strip_columns csv) ''is_sponsored'' = None
        then [''Error: Column 'is_sponsored' not found.''] else [])) \<and>
    (map_of (strip_columns csv) ''product_category'' = None \<longrightarrow>
       map_of out ''product_category'' = Some (replicate m (Str ''Unknown''))) \<and>
    (map_of (strip_columns csv) ''is_best_seller'' = None \<longrightarrow>
       map_of out ''is_best_seller'' = Some (replicate m (Bool False))) \<and>
    (map_of (strip_columns csv) ''has_coupon'' = None \<longrightarrow>
       map_of out ''has_coupon_bool'' = Some (replicate m (Bool False))) \<and>
    (map_of (strip_columns csv) ''sustainability_tags'' = None \<longrightarrow>
       map_of out ''is_sustainable'' = Some (replicate m (Bool False))) \<and>
    (map_of (strip_columns csv) ''is_sponsored'' = None \<longrightarrow>
       map_of out ''is_sponsored'' = Some (replicate m (Str ''Unknown''))) \<and>
    frame_rows m out"
proof -
  from flag_columns[OF assms(1-6), of r page] obtain out where
    run: "load_data r csv page =
      (Inr out,
       page @
       (if map_of (strip_columns csv) ''product_category'' = None
        then [''Column 'product_category' not found. Please update Line 61. Using 'Unknown' for now.'']
        else []) @
       (if map_of (strip_columns csv) ''is_best_seller'' = None
        then [''Error: Column 'is_best_seller' not found.''] else []) @
       (if map_of (strip_columns csv) ''has_coupon'' = None
        then [''Error: Column 'has_coupon' not found.''] else []) @
       (if map_of (strip_columns csv) ''sustainability_tags'' = None
        then [''Error: Column 'sustainability_tags' not found.''] else []) @
       (if map_of (strip_columns csv) ''is_sponsored'' = None
        then [''Error: Column 'is_sponsored' not found.''] else []))"
    and cols: "map_of out ''product_category'' = Some
      (case map_of (strip_columns csv) ''product_category'' of
         None \<Rightarrow> replicate (length (filter (\<lambda>c. price_value r c \<noteq> NaN) dp)) (Str ''Unknown'')
       | Some c \<Rightarrow> fillna (Str ''Unknown'') (keep_rows (map (\<lambda>c. price_value r c \<noteq> NaN) dp) c))"
    "map_of out ''is_best_seller'' = Some
      (case map_of (strip_columns csv) ''is_best_seller'' of
         None \<Rightarrow> replicate (length (filter (\<lambda>c. price_value r c \<noteq> NaN) dp)) (Bool False)
       | Some c \<Rightarrow> map (\<lambda>x. Bool (astype_bool x))
                    (keep_rows (map (\<lambda>c. price_value r c \<noteq> NaN) dp) c))"
    "map_of out ''has_coupon_bool'' = Some
      (case map_of (strip_columns csv) ''has_coupon'' of
         None \<Rightarrow> replicate (length (filter (\<lambda>c. price_value r c \<noteq> NaN) dp)) (Bool False)
       | Some c \<Rightarrow> map (\<lambda>x. Bool (3 < length (astype_str r x)))
                    (keep_rows (map (\<lambda>c. price_value r c \<noteq> NaN) dp) c))"
    "map_of out ''is_sustainable'' = Some
      (case map_of (strip_columns csv) ''sustainability_tags'' of
         None \<Rightarrow> replicate (length (filter (\<lambda>c. price_value r c \<noteq> NaN) dp)) (Bool False)
       | Some c \<Rightarrow> map (\<lambda>x. Bool (notna x))
                    (keep_rows (map (\<lambda>c. price_value r c \<noteq> NaN) dp) c))"
    "map_of out ''is_sponsored'' = Some
      (case map_of (strip_columns csv) ''is_sponsored'' of
         None \<Rightarrow> replicate (length (filter (\<lambda>c. price_value r c \<noteq> NaN) dp)) (Str ''Unknown'')
       | Some c \<Rightarrow> fillna (Bool False) (keep_rows (map (\<lambda>c. price_value r c \<noteq> NaN) dp) c))"
    by blast
  from load_data_chain[OF assms(1-5), of r page] run assms(6)
  have "frame_rows m out"
    unfolding assms(7) by auto
  with run cols show ?thesis
    unfolding assms(7) by (intro exI[of _ out]) simp
qed

theorem guarded_columns_default_witness:
  "map_of (strip_columns shop_csv) ''discounted_price'' =
     Some [Str ''89.68-99.99'', Str ''Free'', Str ''50.00'', Str ''10''] \<and>
   map_of (strip_columns shop_csv) ''original_price'' =
     Some [Str ''120'', Str ''5'', Float NaN, Str ''0''] \<and>
   map_of (strip_columns shop_csv) ''product_rating'' =
     Some [Float (Fin 4), Float (Fin 3), Float NaN, Float (Fin 5)] \<and>
   map_of (strip_columns shop_csv) ''total_reviews'' =
     Some [Integer 40, Integer 7, Integer 0, Integer 5] \<and>
   map_of (strip_columns shop_csv) ''purchased_last_month'' =
     Some [Float (Fin 4), Float NaN, Float NaN, Float (Fin 5)] \<and>
   frame_rows 4 shop_csv \<and>
   3 = length (filter (\<lambda>c. price_value positional_repr c \<noteq> NaN)
         [Str ''89.68-99.99'', Str ''Free'', Str ''50.00'', Str ''10'']) \<and>
   map_of (strip_columns shop_csv) ''sustainability_tags'' = None \<and>
   (\<exists>out. load_data positional_repr shop_csv [] =
        (Inr out, [''Error: Column 'sustainability_tags' not found.'']) \<and>
      map_of out ''is_sustainable'' = Some [Bool False, Bool False, Bool False] \<and>
      frame_rows 3 out)"
proof -
  have m: "3 = length (filter (\<lambda>c. price_value positional_repr c \<noteq> NaN)
         [Str ''89.68-99.99'', Str ''Free'', Str ''50.00'', Str ''10''])"
    by (simp add: price_examples)
  from guarded_columns_default[OF shop_columns(1-5) shop_rows m, of "[]"]
  have "\<exists>out. load_data positional_repr shop_csv [] =
        (Inr out, [''Error: Column 'sustainability_tags' not found.'']) \<and>
      map_of out ''is_sustainable'' = Some [Bool False, Bool False, Bool False] \<and>
      frame_rows 3 out"
    by (simp add: shop_columns price_examples numeral_3_eq_3)
  then show ?thesis
    using shop_columns(1-5) shop_columns(11) shop_rows m by blast
qed

text \<open>
  The claim as stated also names \<^verbatim>\<open>original_price\<close>, \<^verbatim>\<open>product_rating\<close>,
  \<^verbatim>\<open>total_reviews\<close> and \<^verbatim>\<open>purchased_last_month\<close>: lines 23 and 35 to 37 index them
  without a check. A file without \<^verbatim>\<open>original_price\<close> makes line 23 raise \<^verbatim>\<open>KeyError\<close>.
\<close>

theorem missing_original_price_counterexample:
  "map_of (strip_columns no_original_csv) ''original_price'' = None \<and>
   load_data positional_repr no_original_csv [] = (Inl (KeyError ''original_price''), [])"
  using missing_original_price[OF no_original_columns] no_original_columns(2) by simp

text \<open>
  The same holds for each of the five columns that lines 22 to 37 index without a check:
  when one of them is absent the run ends in a \<^verbatim>\<open>KeyError\<close> and the page is unchanged.
\<close>

lemma clean_numeric_Inl:
  assumes "map_of df ''product_rating'' = None \<or> map_of df ''total_reviews'' = None \<or>
           map_of df ''purchased_last_month'' = None"
  shows "\<exists>k \<in> {''product_rating'', ''total_reviews'', ''purchased_last_month''}.
           clean_numeric df = Inl (KeyError k)"
proof (cases "map_of df ''product_rating''")
  case None
  then show ?thesis by (simp add: clean_numeric_def getitem_def bind_res_def)
next
  case pr: (Some a)
  show ?thesis
  proof (cases "map_of df ''total_reviews''")
    case None
    then show ?thesis
      using pr by (simp add: clean_numeric_def getitem_def bind_res_def map_of_setitem)
  next
    case tr: (Some b)
    with pr assms have "map_of df ''purchased_last_month'' = None" by simp
    then show ?thesis
      using pr tr by (simp add: clean_numeric_def getitem_def bind_res_def map_of_setitem)
  qed
qed

lemma required_columns_raise:
  assumes "k \<in> {''discounted_price'', ''original_price'', ''product_rating'', ''total_reviews'',
                 ''purchased_last_month''}"
    and "map_of (strip_columns csv) k = None"
  shows "\<exists>k' \<in> {''discounted_price'', ''original_price'', ''product_rating'', ''total_reviews'',
                 ''purchased_last_month''}. load_data r csv page = (Inl (KeyError k'), page)"
proof (cases "map_of (strip_columns csv) ''discounted_price''")
  case None
  then have "parse_prices r (strip_columns csv) = Inl (KeyError ''discounted_price'')"
    by (simp add: parse_prices_def getitem_def bind_res_def)
  then show ?thesis
    by (simp add: load_data_def then_do_quiet_Inl)
next
  case dp: (Some dp)
  show ?thesis
  proof (cases "map_of (strip_columns csv) ''original_price''")
    case None
    then show ?thesis
      using missing_original_price[OF dp None, of r page] by simp
  next
    case op: (Some op)
    from parse_prices_Inr[OF dp op, of r] obtain df1 where 1: "parse_prices r (strip_columns csv) = Inr df1"
      and m1: "map_of df1 = (map_of (strip_columns csv))
         (''discounted_price'' \<mapsto> map (\<lambda>c. Float (price_value r c)) dp,
          ''original_price'' \<mapsto> map (\<lambda>c. Float (price_value r c)) op)"
      by blast
    have d1: "map_of df1 ''discounted_price'' = Some (map (\<lambda>c. Float (price_value r c)) dp)"
      "map_of df1 ''original_price'' = Some (map (\<lambda>c. Float (price_value r c)) op)"
      by (simp_all add: m1)
    from backfill_and_drop_Inr[OF d1] obtain df2 where 2: "backfill_and_drop df1 = Inr df2"
      and m2: "\<forall>k. map_of df2 k =
         map_option (keep_rows (map notna (map (\<lambda>c. Float (price_value r c)) dp)))
           (((map_of df1)(''original_price'' \<mapsto>
               fillna_series (map (\<lambda>c. Float (price_value r c)) dp)
                 (map (\<lambda>c. Float (price_value r c)) op))) k)"
      by blast
    from assms dp op have "map_of (strip_columns csv) ''product_rating'' = None \<or>
        map_of (strip_columns csv) ''total_reviews'' = None \<or>
        map_of (strip_columns csv) ''purchased_last_month'' = None"
      by auto
    then have "map_of df2 ''product_rating'' = None \<or> map_of df2 ''total_reviews'' = None \<or>
           map_of df2 ''purchased_last_month'' = None"
      by (simp add: m2 m1)
    from clean_numeric_Inl[OF this] obtain k' where
      "k' \<in> {''product_rating'', ''total_reviews'', ''purchased_last_month''}"
      "clean_numeric df2 = Inl (KeyError k')"
      by blast
    then show ?thesis
      by (auto simp add: load_data_def then_do_quiet_Inr then_do_quiet_Inl 1 2)
  qed
qed

text \<open>
  \<^bold>\<open>C6\<close>, as amended (\<^verbatim>\<open>is_sponsored\<close>). If the column is absent, every output row holds
  \<^verbatim>\<open>'Unknown'\<close> and the page shows the message for it. If it is present, line 100 only
  fills: a NaN cell becomes \<^verbatim>\<open>False\<close> and every other cell of a kept row is left as it
  is.
\<close>

theorem is_sponsored_filled:
  assumes "map_of (strip_columns csv) ''discounted_price'' = Some dp"
    and "map_of (strip_columns csv) ''original_price'' = Some op"
    and "map_of (strip_columns csv) ''product_rating'' = Some pr"
    and "map_of (strip_columns csv) ''total_reviews'' = Some tr"
    and "map_of (strip_columns csv) ''purchased_last_month'' = Some pl"
    and "frame_rows n csv"
  shows "\<exists>out page'. load_data r csv page = (Inr out, page') \<and>
    (map_of (strip_columns csv) ''is_sponsored'' = None \<longrightarrow>
       map_of out ''is_sponsored'' =
         Some (replicate (length (filter (\<lambda>c. price_value r c \<noteq> NaN) dp)) (Str ''Unknown'')) \<and>
       ''Error: Column 'is_sponsored' not found.'' \<in> set page') \<and>
    (\<forall>c. map_of (strip_columns csv) ''is_sponsored'' = Some c \<longrightarrow>
       map_of out ''is_sponsored'' =
         Some (map (\<lambda>x. if x = Float NaN then Bool False else x)
                (keep_rows (map (\<lambda>c. price_value r c \<noteq> NaN) dp) c)))"
proof -
  from flag_columns[OF assms, of r page] obtain out page' where
    run: "load_data r csv page = (Inr out, page')"
    and page': "map_of (strip_columns csv) ''is_sponsored'' = None \<longrightarrow>
       ''Error: Column 'is_sponsored' not found.'' \<in> set page'"
    and col: "map_of out ''is_sponsored'' = Some
      (case map_of (strip_columns csv) ''is_sponsored'' of
         None \<Rightarrow> replicate (length (filter (\<lambda>c. price_value r c \<noteq> NaN) dp)) (Str ''Unknown'')
       | Some c \<Rightarrow> fillna (Bool False) (keep_rows (map (\<lambda>c. price_value r c \<noteq> NaN) dp) c))"
    by auto
  show ?thesis
    using run page' col by (intro exI[of _ out] exI[of _ page']) (simp add: fillna_def isna_def)
qed

theorem is_sponsored_filled_witness:
  "map_of (strip_columns shop_csv) ''discounted_price'' =
     Some [Str ''89.68-99.99'', Str ''Free'', Str ''50.00'', Str ''10''] \<and>
   map_of (strip_columns shop_csv) ''original_price'' =
     Some [Str ''120'', Str ''5'', Float NaN, Str ''0''] \<and>
   map_of (strip_columns shop_csv) ''product_rating'' =
     Some [Float (Fin 4), Float (Fin 3), Float NaN, Float (Fin 5)] \<and>
   map_of (strip_columns shop_csv) ''total_reviews'' =
     Some [Integer 40, Integer 7, Integer 0, Integer 5] \<and>
   map_of (strip_columns shop_csv) ''purchased_last_month'' =
     Some [Float (Fin 4), Float NaN, Float NaN, Float (Fin 5)] \<and>
   frame_rows 4 shop_csv \<and>
   map_of (strip_columns shop_csv) ''is_sponsored'' =
     Some [Str ''Sponsored'', Float NaN, Float NaN, Str ''Organic''] \<and>
   (\<exists>out page'. load_data positional_repr shop_csv [] = (Inr out, page') \<and>
      map_of out ''is_sponsored'' = Some [Str ''Sponsored'', Bool False, Str ''Organic''])"
proof -
  from is_sponsored_filled[OF shop_columns(1-5) shop_rows, of positional_repr "[]"]
  have "\<exists>out page'. load_data positional_repr shop_csv [] = (Inr out, page') \<and>
      map_of out ''is_sponsored'' = Some [Str ''Sponsored'', Bool False, Str ''Organic'']"
    by (simp add: shop_columns price_examples keep_rows_def)
  then show ?thesis
    using shop_columns(1-5) shop_columns(9) shop_rows by blast
qed

text \<open>
  The claim as stated has the present column coerced to booleans. With the texts
  \<^verbatim>\<open>Sponsored\<close> and \<^verbatim>\<open>Organic\<close> in the column, the output keeps those texts.
\<close>

theorem sponsored_not_boolean_counterexample:
  "map_of (strip_columns shop_csv) ''is_sponsored'' =
     Some [Str ''Sponsored'', Float NaN, Float NaN, Str ''Organic''] \<and>
   column_of (load_data positional_repr shop_csv []) ''is_sponsored'' =
     Some [Str ''Sponsored'', Bool False, Str ''Organic'']"
proof -
  from flag_columns[OF shop_columns(1-5) shop_rows, of positional_repr "[]"]
  have "column_of (load_data positional_repr shop_csv []) ''is_sponsored'' =
     Some [Str ''Sponsored'', Bool False, Str ''Organic'']"
    by (auto simp add: column_of_def shop_columns price_examples keep_rows_def fillna_def isna_def)
  then show ?thesis
    using shop_columns(9) by simp
qed

text \<open>
  \<^bold>\<open>C7\<close> (\<^verbatim>\<open>has_coupon_bool\<close>). With the \<^verbatim>\<open>has_coupon\<close> column present, the flag of each
  kept row is true exactly when the raw cell is not NaN and its text has more than three
  characters (the text of NaN is \<^verbatim>\<open>nan\<close>, three characters, which is how line 84 gives
  false for a missing cell). For a string the text is the string itself; \<^verbatim>\<open>no\<close> gives
  false.
\<close>

theorem has_coupon_bool_rule:
  assumes "map_of (strip_columns csv) ''discounted_price'' = Some dp"
    and "map_of (strip_columns csv) ''original_price'' = Some op"
    and "map_of (strip_columns csv) ''product_rating'' = Some pr"
    and "map_of (strip_columns csv) ''total_reviews'' = Some tr"
    and "map_of (strip_columns csv) ''purchased_last_month'' = Some pl"
    and "frame_rows n csv"
    and "map_of (strip_columns csv) ''has_coupon'' = Some hc"
  shows "\<exists>out page'. load_data r csv page = (Inr out, page') \<and>
    map_of out ''has_coupon_bool'' =
      Some (map (\<lambda>x. Bool (notna x \<and> 3 < length (astype_str r x)))
             (keep_rows (map (\<lambda>c. price_value r c \<noteq> NaN) dp) hc)) \<and>
    (\<forall>s. (notna (Str s) \<and> 3 < length (astype_str r (Str s))) = (3 < length s)) \<and>
    \<not> (notna (Str ''no'') \<and> 3 < length (astype_str r (Str ''no''))) \<and>
    \<not> (notna (Float NaN) \<and> 3 < length (astype_str r (Float NaN)))"
proof -
  from flag_columns[OF assms(1-6), of r page] obtain out page' where
    run: "load_data r csv page = (Inr out, page')"
    and col: "map_of out ''has_coupon_bool'' = Some
      (case map_of (strip_columns csv) ''has_coupon'' of
         None \<Rightarrow> replicate (length (filter (\<lambda>c. price_value r c \<noteq> NaN) dp)) (Bool False)
       | Some c \<Rightarrow> map (\<lambda>x. Bool (3 < length (astype_str r x)))
                    (keep_rows (map (\<lambda>c. price_value r c \<noteq> NaN) dp) c))"
    by auto
  have "map_of out ''has_coupon_bool'' =
      Some (map (\<lambda>x. Bool (notna x \<and> 3 < length (astype_str r x)))
             (keep_rows (map (\<lambda>c. price_value r c \<noteq> NaN) dp) hc))"
    using col assms(7) coupon_text_rule[of r] by simp
  then show ?thesis
    using run by (intro exI[of _ out] exI[of _ page']) (simp add: notna_def isna_def)
qed

theorem has_coupon_bool_rule_witness:
  "map_of (strip_columns shop_csv) ''discounted_price'' =
     Some [Str ''89.68-99.99'', Str ''Free'', Str ''50.00'', Str ''10''] \<and>
   map_of (strip_columns shop_csv) ''original_price'' =
     Some [Str ''120'', Str ''5'', Float NaN, Str ''0''] \<and>
   map_of (strip_columns shop_csv) ''product_rating'' =
     Some [Float (Fin 4), Float (Fin 3), Float NaN, Float (Fin 5)] \<and>
   map_of (strip_columns shop_csv) ''total_reviews'' =
     Some [Integer 40, Integer 7, Integer 0, Integer 5] \<and>
   map_of (strip_columns shop_csv) ''purchased_last_month'' =
     Some [Float (Fin 4), Float NaN, Float NaN, Float (Fin 5)] \<and>
   frame_rows 4 shop_csv \<and>
   map_of (strip_columns shop_csv) ''has_coupon'' =
     Some [Str ''no'', Float NaN, Str ''Save 5%'', Float NaN] \<and>
   (\<exists>out page'. load_data positional_repr shop_csv [] = (Inr out, page') \<and>
      map_of out ''has_coupon_bool'' = Some [Bool False, Bool True, Bool False])"
proof -
  from has_coupon_bool_rule[OF shop_columns(1-5) shop_rows shop_columns(8), of positional_repr "[]"]
  have "\<exists>out page'. load_data positional_repr shop_csv [] = (Inr out, page') \<and>
      map_of out ''has_coupon_bool'' = Some [Bool False, Bool True, Bool False]"
    by (simp add: price_examples keep_rows_def notna_def isna_def)
  then show ?thesis
    using shop_columns(1-5) shop_columns(8) shop_rows by blast
qed

text \<open>
  \<^bold>\<open>C10\<close> (\<^verbatim>\<open>is_best_seller\<close>). With the column present, the flag of each kept row is
  Python's truth value of the raw cell: true for every string that is not empty, so for
  the texts \<^verbatim>\<open>False\<close> and \<^verbatim>\<open>no\<close>, true for NaN, and false exactly for the empty string,
  the integer and the float zero and the boolean false.
\<close>

theorem best_seller_truthiness:
  assumes "map_of (strip_columns csv) ''discounted_price'' = Some dp"
    and "map_of (strip_columns csv) ''original_price'' = Some op"
    and "map_of (strip_columns csv) ''product_rating'' = Some pr"
    and "map_of (strip_columns csv) ''total_reviews'' = Some tr"
    and "map_of (strip_columns csv) ''purchased_last_month'' = Some pl"
    and "frame_rows n csv"
    and "map_of (strip_columns csv) ''is_best_seller'' = Some bs"
  shows "\<exists>out page'. load_data r csv page = (Inr out, page') \<and>
    map_of out ''is_best_seller'' =
      Some (map (\<lambda>x. Bool (astype_bool x))
             (keep_rows (map (\<lambda>c. price_value r c \<noteq> NaN) dp) bs)) \<and>
    (\<forall>s. astype_bool (Str s) = (s \<noteq> [])) \<and>
    astype_bool (Str ''False'') \<and> astype_bool (Str ''no'') \<and> astype_bool (Float NaN) \<and>
    (\<forall>x. (\<not> astype_bool x) = (x \<in> {Str [], Integer 0, Float (Fin 0), Bool False}))"
proof -
  from flag_columns[OF assms(1-6), of r page] obtain out page' where
    run: "load_data r csv page = (Inr out, page')"
    and col: "map_of out ''is_best_seller'' = Some
      (case map_of (strip_columns csv) ''is_best_seller'' of
         None \<Rightarrow> replicate (length (filter (\<lambda>c. price_value r c \<noteq> NaN) dp)) (Bool False)
       | Some c \<Rightarrow> map (\<lambda>x. Bool (astype_bool x))
                    (keep_rows (map (\<lambda>c. price_value r c \<noteq> NaN) dp) c))"
    by auto
  have "map_of out ''is_best_seller'' =
      Some (map (\<lambda>x. Bool (astype_bool x))
             (keep_rows (map (\<lambda>c. price_value r c \<noteq> NaN) dp) bs))"
    using col assms(7) by simp
  moreover have "\<forall>x. (\<not> astype_bool x) = (x \<in> {Str [], Integer 0, Float (Fin 0), Bool False})"
    using astype_bool_false_iff by blast
  ultimately show ?thesis
    using run by (intro exI[of _ out] exI[of _ page']) simp
qed

theorem best_seller_truthiness_witness:
  "map_of (strip_columns shop_csv) ''discounted_price'' =
     Some [Str ''89.68-99.99'', Str ''Free'', Str ''50.00'', Str ''10''] \<and>
   map_of (strip_columns shop_csv) ''original_price'' =
     Some [Str ''120'', Str ''5'', Float NaN, Str ''0''] \<and>
   map_of (strip_columns shop_csv) ''product_rating'' =
     Some [Float (Fin 4), Float (Fin 3), Float NaN, Float (Fin 5)] \<and>
   map_of (strip_columns shop_csv) ''total_reviews'' =
     Some [Integer 40, Integer 7, Integer 0, Integer 5] \<and>
   map_of (strip_columns shop_csv) ''purchased_last_month'' =
     Some [Float (Fin 4), Float NaN, Float NaN, Float (Fin 5)] \<and>
   frame_rows 4 shop_csv \<and>
   map_of (strip_columns shop_csv) ''is_best_seller'' =
     Some [Str ''False'', Str ''yes'', Float NaN, Str ''no''] \<and>
   (\<exists>out page'. load_data positional_repr shop_csv [] = (Inr out, page') \<and>
      map_of out ''is_best_seller'' = Some [Bool True, Bool True, Bool True])"
proof -
  from best_seller_truthiness[OF shop_columns(1-5) shop_rows shop_columns(7), of positional_repr "[]"]
  obtain out page' where run: "load_data positional_repr shop_csv [] = (Inr out, page')"
    and col: "map_of out ''is_best_seller'' =
      Some (map (\<lambda>x. Bool (astype_bool x))
             (keep_rows (map (\<lambda>c. price_value positional_repr c \<noteq> NaN)
                [Str ''89.68-99.99'', Str ''Free'', Str ''50.00'', Str ''10''])
                [Str ''False'', Str ''yes'', Float NaN, Str ''no'']))"
    by blast
  from col have "map_of out ''is_best_seller'' = Some [Bool True, Bool True, Bool True]"
    by (simp add: price_examples keep_rows_def)
  with run have "\<exists>out page'. load_data positional_repr shop_csv [] = (Inr out, page') \<and>
      map_of out ''is_best_seller'' = Some [Bool True, Bool True, Bool True]"
    by blast
  then show ?thesis
    using shop_columns(1-5) shop_columns(7) shop_rows by blast
qed

text \<open>
  \<^bold>\<open>C4\<close> (reading the price fields, lines 22 to 27). On a frame with both price columns
  the step succeeds and keeps every row and every other column. Each price cell becomes
  the number read from the text of the cell before its first dash (\<^verbatim>\<open>split('-')\<close> and
  \<^verbatim>\<open>.str[0]\<close> give exactly that text), for both columns alike. A text that is not a
  decimal numeral reads as NaN, unless it is, in any letter case, one of the words
  \<^verbatim>\<open>inf\<close>, \<^verbatim>\<open>+inf\<close>, \<^verbatim>\<open>infinity\<close>, \<^verbatim>\<open>+infinity\<close>, which read as plus infinity, or
  \<^verbatim>\<open>-inf\<close>, \<^verbatim>\<open>-infinity\<close>, which read as minus infinity; none of these words is a decimal
  numeral. A text that reads as a finite number is a decimal numeral, and the number is
  within the range of a float. The text \<^verbatim>\<open>89.68-99.99\<close> reads as 89.68; the texts
  \<^verbatim>\<open>Free\<close>, \<^verbatim>\<open>$10\<close>, \<^verbatim>\<open>12abc\<close>, \<^verbatim>\<open>10 USD\<close> and \<^verbatim>\<open>1e400\<close> read as NaN.
\<close>

theorem price_fields_parsed:
  assumes "map_of df ''discounted_price'' = Some dp"
    and "map_of df ''original_price'' = Some op"
  shows "\<exists>df'. parse_prices r df = Inr df' \<and>
    map_of df' ''discounted_price'' =
      Some (map (\<lambda>c. Float (to_numeric_str
                  (takeWhile (\<lambda>x. x \<noteq> CHR ''-'') (astype_str r c)))) dp) \<and>
    map_of df' ''original_price'' =
      Some (map (\<lambda>c. Float (to_numeric_str
                  (takeWhile (\<lambda>x. x \<noteq> CHR ''-'') (astype_str r c)))) op) \<and>
    (\<forall>k. k \<noteq> ''discounted_price'' \<and> k \<noteq> ''original_price'' \<longrightarrow> map_of df' k = map_of df k) \<and>
    (\<forall>s. str_get0 (str_split CHR ''-'' s) = Str (takeWhile (\<lambda>x. x \<noteq> CHR ''-'') s)) \<and>
    (\<forall>t. \<not> is_numeral t \<and>
         map lower_ascii t \<notin>
           set [''inf'', ''+inf'', ''infinity'', ''+infinity'', ''-inf'', ''-infinity''] \<longrightarrow>
         to_numeric_str t = NaN) \<and>
    (\<forall>t. map lower_ascii t \<in> set [''inf'', ''+inf'', ''infinity'', ''+infinity''] \<longrightarrow>
         to_numeric_str t = PInf \<and> \<not> is_numeral t) \<and>
    (\<forall>t. map lower_ascii t \<in> set [''-inf'', ''-infinity''] \<longrightarrow>
         to_numeric_str t = NInf \<and> \<not> is_numeral t) \<and>
    (\<forall>t v. to_numeric_str t = Fin v \<longrightarrow>
         is_numeral t \<and> - float64_overflow < v \<and> v < float64_overflow) \<and>
    to_numeric_str (takeWhile (\<lambda>x. x \<noteq> CHR ''-'') ''89.68-99.99'') = Fin (8968 / 100) \<and>
    to_numeric_str (takeWhile (\<lambda>x. x \<noteq> CHR ''-'') ''Free'') = NaN \<and>
    to_numeric_str (takeWhile (\<lambda>x. x \<noteq> CHR ''-'') ''$10'') = NaN \<and>
    to_numeric_str (takeWhile (\<lambda>x. x \<noteq> CHR ''-'') ''12abc'') = NaN \<and>
    to_numeric_str (takeWhile (\<lambda>x. x \<noteq> CHR ''-'') ''10 USD'') = NaN \<and>
    to_numeric_str (takeWhile (\<lambda>x. x \<noteq> CHR ''-'') ''1e400'') = NaN"
proof -
  from parse_prices_Inr[OF assms, of r] obtain df' where run: "parse_prices r df = Inr df'"
    and cols: "map_of df' = (map_of df)
       (''discounted_price'' \<mapsto> map (\<lambda>c. Float (price_value r c)) dp,
        ''original_price'' \<mapsto> map (\<lambda>c. Float (price_value r c)) op)"
    by blast
  have d: "map_of df' ''discounted_price'' =
      Some (map (\<lambda>c. Float (to_numeric_str
                  (takeWhile (\<lambda>x. x \<noteq> CHR ''-'') (astype_str r c)))) dp)"
    unfolding cols price_value_text by simp
  have p: "map_of df' ''original_price'' =
      Some (map (\<lambda>c. Float (to_numeric_str
                  (takeWhile (\<lambda>x. x \<noteq> CHR ''-'') (astype_str r c)))) op)"
    unfolding cols price_value_text by simp
  have other: "\<forall>k. k \<noteq> ''discounted_price'' \<and> k \<noteq> ''original_price'' \<longrightarrow>
      map_of df' k = map_of df k"
    unfolding cols by simp
  have split_text: "\<forall>s. str_get0 (str_split CHR ''-'' s) = Str (takeWhile (\<lambda>x. x \<noteq> CHR ''-'') s)"
    by (intro allI) (rule str_get0_split)
  have nan: "\<forall>t. \<not> is_numeral t \<and>
         map lower_ascii t \<notin>
           set [''inf'', ''+inf'', ''infinity'', ''+infinity'', ''-inf'', ''-infinity''] \<longrightarrow>
         to_numeric_str t = NaN"
    by (intro allI impI, erule conjE) (rule not_numeral_is_nan)
  have plus: "\<forall>t. map lower_ascii t \<in> set [''inf'', ''+inf'', ''infinity'', ''+infinity''] \<longrightarrow>
         to_numeric_str t = PInf \<and> \<not> is_numeral t"
    by (intro allI impI conjI) (erule infinity_word_reads_infinity)+
  have minus: "\<forall>t. map lower_ascii t \<in> set [''-inf'', ''-infinity''] \<longrightarrow>
         to_numeric_str t = NInf \<and> \<not> is_numeral t"
  proof (intro allI impI conjI)
    fix t assume w: "map lower_ascii t \<in> set [''-inf'', ''-infinity'']"
    show "to_numeric_str t = NInf"
      using w by (rule minus_word_reads_minus_infinity)
    show "\<not> is_numeral t"
      using word_has_no_digit[OF minus_in_words[OF w]] by (rule no_digit_not_numeral)
  qed
  have fin: "\<forall>t v. to_numeric_str t = Fin v \<longrightarrow>
         is_numeral t \<and> - float64_overflow < v \<and> v < float64_overflow"
    by (intro allI impI) (erule finite_reading)
  show ?thesis
    by (rule exI[of _ df'], intro conjI)
      (rule run d p other split_text nan plus minus fin kept_text_examples)+
qed

theorem price_fields_parsed_witness:
  "map_of (strip_columns shop_csv) ''discounted_price'' =
     Some [Str ''89.68-99.99'', Str ''Free'', Str ''50.00'', Str ''10''] \<and>
   map_of (strip_columns shop_csv) ''original_price'' =
     Some [Str ''120'', Str ''5'', Float NaN, Str ''0''] \<and>
   (\<exists>df'. parse_prices positional_repr (strip_columns shop_csv) = Inr df' \<and>
      map_of df' ''discounted_price'' =
        Some [Float (Fin (8968 / 100)), Float NaN, Float (Fin 50), Float (Fin 10)] \<and>
      map_of df' ''original_price'' =
        Some [Float (Fin 120), Float (Fin 5), Float NaN, Float (Fin 0)] \<and>
      map_of df' ''product_title'' = map_of (strip_columns shop_csv) ''product_title'') \<and>
   \<not> is_numeral ''$10'' \<and>
   map lower_ascii ''$10'' \<notin>
     set [''inf'', ''+inf'', ''infinity'', ''+infinity'', ''-inf'', ''-infinity''] \<and>
   to_numeric_str ''$10'' = NaN \<and>
   map lower_ascii ''+INF'' \<in> set [''inf'', ''+inf'', ''infinity'', ''+infinity''] \<and>
   to_numeric_str ''+INF'' = PInf \<and>
   map lower_ascii ''-Inf'' \<in> set [''-inf'', ''-infinity''] \<and>
   to_numeric_str ''-Inf'' = NInf \<and>
   to_numeric_str ''50.00'' = Fin 50 \<and>
   is_numeral ''50.00''"
proof -
  from price_fields_parsed[OF shop_columns(1,2), of positional_repr]
  obtain df' where run: "parse_prices positional_repr (strip_columns shop_csv) = Inr df'"
    and d: "map_of df' ''discounted_price'' =
      Some (map (\<lambda>c. Float (to_numeric_str
                  (takeWhile (\<lambda>x. x \<noteq> CHR ''-'') (astype_str positional_repr c))))
        [Str ''89.68-99.99'', Str ''Free'', Str ''50.00'', Str ''10''])"
    and p: "map_of df' ''original_price'' =
      Some (map (\<lambda>c. Float (to_numeric_str
                  (takeWhile (\<lambda>x. x \<noteq> CHR ''-'') (astype_str positional_repr c))))
        [Str ''120'', Str ''5'', Float NaN, Str ''0''])"
    and other: "\<forall>k. k \<noteq> ''discounted_price'' \<and> k \<noteq> ''original_price'' \<longrightarrow>
        map_of df' k = map_of (strip_columns shop_csv) k"
    and nan: "\<forall>t. \<not> is_numeral t \<and>
         map lower_ascii t \<notin>
           set [''inf'', ''+inf'', ''infinity'', ''+infinity'', ''-inf'', ''-infinity''] \<longrightarrow>
         to_numeric_str t = NaN"
    and plus: "\<forall>t. map lower_ascii t \<in> set [''inf'', ''+inf'', ''infinity'', ''+infinity''] \<longrightarrow>
         to_numeric_str t = PInf \<and> \<not> is_numeral t"
    and minus: "\<forall>t. map lower_ascii t \<in> set [''-inf'', ''-infinity''] \<longrightarrow>
         to_numeric_str t = NInf \<and> \<not> is_numeral t"
    and fin: "\<forall>t v. to_numeric_str t = Fin v \<longrightarrow>
         is_numeral t \<and> - float64_overflow < v \<and> v < float64_overflow"
    by blast
  have cells: "map_of df' ''discounted_price'' =
        Some [Float (Fin (8968 / 100)), Float NaN, Float (Fin 50), Float (Fin 10)]"
    "map_of df' ''original_price'' =
        Some [Float (Fin 120), Float (Fin 5), Float NaN, Float (Fin 0)]"
    using d p price_examples[of positional_repr] by (simp_all add: price_value_text)
  have title: "map_of df' ''product_title'' = map_of (strip_columns shop_csv) ''product_title''"
    using other by simp
  have a: "\<not> is_numeral ''$10''"
    by (rule not_numeral_examples(1))
  have b: "map lower_ascii ''$10'' \<notin>
     set [''inf'', ''+inf'', ''infinity'', ''+infinity'', ''-inf'', ''-infinity'']"
    by (simp add: lower_ascii_def)
  have c: "to_numeric_str ''$10'' = NaN"
    using nan a b by blast
  have e: "map lower_ascii ''+INF'' \<in> set [''inf'', ''+inf'', ''infinity'', ''+infinity'']"
    by (simp add: lower_ascii_def)
  have f: "to_numeric_str ''+INF'' = PInf"
    using plus e by blast
  have g: "map lower_ascii ''-Inf'' \<in> set [''-inf'', ''-infinity'']"
    by (simp add: lower_ascii_def)
  have h: "to_numeric_str ''-Inf'' = NInf"
    using minus g by blast
  have i: "to_numeric_str ''50.00'' = Fin 50"
    using price_examples(3)[of positional_repr] by (simp add: price_value_text)
  have j: "is_numeral ''50.00''"
    using fin i by blast
  show ?thesis
    using shop_columns(1,2) run cells title a b c e f g h i j by blast
qed

text \<open>
  The claim as stated has every text that is not a number read as a null value. The
  text \<^verbatim>\<open>Infinity\<close> is not a decimal numeral, and lines 22 to 27 read it as plus infinity.
\<close>

theorem infinity_text_counterexample:
  "\<not> is_numeral ''Infinity'' \<and>
   price_value positional_repr (Str ''Infinity'') = PInf \<and>
   price_value positional_repr (Str ''Infinity'') \<noteq> NaN"
  using not_numeral_examples(5) infinity_price_examples(1)[of positional_repr] by simp

text \<open>
  The ratings of the output are the ratings of the kept rows as numbers, with each NaN
  replaced by the mean of those numbers, which is taken before anything is replaced.
\<close>

lemma rating_filled_with_mean:
  assumes "map_of (strip_columns csv) ''discounted_price'' = Some dp"
    and "map_of (strip_columns csv) ''original_price'' = Some op"
    and "map_of (strip_columns csv) ''product_rating'' = Some pr"
    and "map_of (strip_columns csv) ''total_reviews'' = Some tr"
    and "map_of (strip_columns csv) ''purchased_last_month'' = Some pl"
    and "ratings = to_numeric_series (keep_rows (map (\<lambda>c. price_value r c \<noteq> NaN) dp) pr)"
  shows "\<exists>out page'. load_data r csv page = (Inr out, page') \<and>
    map_of out ''product_rating'' =
      Some (map (\<lambda>x. if x = Float NaN then Float (mean ratings) else x) ratings)"
proof -
  from load_data_chain[OF assms(1-5), of r page]
  obtain df2 df3 df4 df5 df6 df7 df8 out page' where run: "load_data r csv page = (Inr out, page')"
    and 3: "\<exists>y z. map_of df3 = (map_of df2)
       (''product_rating'' \<mapsto> fillna (Float (mean ratings)) ratings,
        ''total_reviews'' \<mapsto> y, ''purchased_last_month'' \<mapsto> z)"
    and 4: "\<exists>x. map_of df4 = (map_of df3)(''product_category'' \<mapsto> x)"
    and 5: "\<exists>x y. map_of df5 = (map_of df4)
       (''Est. Revenue (Last Month)'' \<mapsto> x, ''Discount %'' \<mapsto> y)"
    and 6: "\<exists>x. map_of df6 = (map_of df5)(''is_best_seller'' \<mapsto> x)"
    and 7: "\<exists>x. map_of df7 = (map_of df6)(''has_coupon_bool'' \<mapsto> x)"
    and 8: "\<exists>x. map_of df8 = (map_of df7)(''is_sustainable'' \<mapsto> x)"
    and 9: "\<exists>x. map_of out = (map_of df8)(''is_sponsored'' \<mapsto> x)"
    unfolding assms(6) by blast
  have "map_of out ''product_rating'' = Some (fillna (Float (mean ratings)) ratings)"
    using 3 4 5 6 7 8 9 by auto
  then show ?thesis
    using run by (intro exI[of _ out] exI[of _ page']) (simp add: fillna_def isna_def)
qed

text \<open>
  \<^bold>\<open>C5\<close> (the rating fill when no product is rated). The mean of a column of NaN is NaN,
  and line 44 fills with it: on \<open>unrated_csv\<close> the ratings of the output are still NaN,
  where the comments of lines 39 and 194 to 196 say the column is cleaned of NaN.
\<close>

theorem unrated_ratings_stay_nan:
  "map_of (strip_columns unrated_csv) ''product_rating'' = Some [Float NaN, Float NaN] \<and>
   column_of (load_data positional_repr unrated_csv []) ''product_rating'' =
     Some [Float NaN, Float NaN]"
proof -
  from rating_filled_with_mean[OF unrated_columns refl, of positional_repr "[]"]
  have "column_of (load_data positional_repr unrated_csv []) ''product_rating'' =
     Some [Float NaN, Float NaN]"
    by (auto simp add: column_of_def float_price_examples keep_rows_def to_numeric_series_def
        mean_def)
  then show ?thesis
    using unrated_columns(3) by simp
qed

end
